(* ===== verification/Prelude.thy ===== *)
theory Prelude
  imports Complex_Main
begin

text \<open>
  Shared vocabulary of the development. Python strings are sequences of Unicode code
  points, so a string of the model is a list of natural numbers (\<open>ustr\<close>), one per code
  point, and \<open>length\<close> counts code points as Python's \<open>len\<close> does. The string operations
  the lemmatisation code uses (\<open>str.endswith\<close>, \<open>str.startswith\<close>, slicing \<open>s[:-n]\<close>,
  \<open>str.replace\<close>, the \<open>in\<close> test) are defined here once, with the lemmas the component
  theories share. Greek literals are written in a Beta-Code-like transliteration
  (\<open>gk ''logos''\<close> is the normalised form of the Greek word for "word"), with \<open>j\<close> for
  the final sigma U+03C2.
\<close>

named_theorems py_simps "evaluation rules of the Python string helpers"
named_theorems greek_lit "evaluation rules of the Greek literals"

type_synonym cp = nat
type_synonym ustr = "cp list"

section \<open>Greek literals\<close>

definition beta_table :: "(char \<times> cp) list" where
  "beta_table =
    [(CHR ''a'', 0x3B1), (CHR ''b'', 0x3B2), (CHR ''g'', 0x3B3), (CHR ''d'', 0x3B4),
     (CHR ''e'', 0x3B5), (CHR ''z'', 0x3B6), (CHR ''h'', 0x3B7), (CHR ''q'', 0x3B8),
     (CHR ''i'', 0x3B9), (CHR ''k'', 0x3BA), (CHR ''l'', 0x3BB), (CHR ''m'', 0x3BC),
     (CHR ''n'', 0x3BD), (CHR ''c'', 0x3BE), (CHR ''o'', 0x3BF), (CHR ''p'', 0x3C0),
     (CHR ''r'', 0x3C1), (CHR ''j'', 0x3C2), (CHR ''s'', 0x3C3), (CHR ''t'', 0x3C4),
     (CHR ''u'', 0x3C5), (CHR ''f'', 0x3C6), (CHR ''x'', 0x3C7), (CHR ''y'', 0x3C8),
     (CHR ''w'', 0x3C9)]"

definition gk :: "string \<Rightarrow> ustr" where
  "gk s = map (\<lambda>c. case map_of beta_table c of Some v \<Rightarrow> v | None \<Rightarrow> 0) s"

abbreviation sigma_medial :: cp where "sigma_medial \<equiv> 0x3C3"
abbreviation sigma_final :: cp where "sigma_final \<equiv> 0x3C2"

section \<open>Python string operations\<close>

text \<open>\<open>s.endswith(e)\<close> and \<open>s.startswith(p)\<close>; both hold for the empty affix.\<close>

definition py_endswith :: "'a list \<Rightarrow> 'a list \<Rightarrow> bool" where
  "py_endswith s e \<longleftrightarrow> length e \<le> length s \<and> drop (length s - length e) s = e"

definition py_startswith :: "'a list \<Rightarrow> 'a list \<Rightarrow> bool" where
  "py_startswith s p \<longleftrightarrow> take (length p) s = p"

text \<open>
  The slice \<open>s[:-n]\<close>: all but the last \<open>n\<close> code points. Python reads \<open>s[:-0]\<close>
  as \<open>s[:0]\<close>, the empty string, which the first branch writes out.
\<close>

definition py_drop_end :: "nat \<Rightarrow> 'a list \<Rightarrow> 'a list" where
  "py_drop_end n s = (if n = 0 then [] else take (length s - n) s)"

text \<open>\<open>sub in s\<close> for strings: \<open>sub\<close> occurs contiguously in \<open>s\<close>.\<close>

fun py_contains :: "'a list \<Rightarrow> 'a list \<Rightarrow> bool" where
  "py_contains [] sub \<longleftrightarrow> sub = []"
| "py_contains (c # s) sub \<longleftrightarrow> py_startswith (c # s) sub \<or> py_contains s sub"

text \<open>
  \<open>s.replace(old, new)\<close> for a non-empty \<open>old\<close>: occurrences are replaced from the left,
  without overlap. (The code never replaces the empty string; the model returns \<open>s\<close>
  there.)
\<close>

fun py_replace :: "'a list \<Rightarrow> 'a list \<Rightarrow> 'a list \<Rightarrow> 'a list" where
  "py_replace [] old new = []"
| "py_replace (c # s) old new =
     (if old \<noteq> [] \<and> py_startswith (c # s) old
      then new @ py_replace (drop (length old - 1) s) old new
      else c # py_replace s old new)"

text \<open>
  \<open>sep.join(xs)\<close>: the strings of \<open>xs\<close> with \<open>sep\<close> between each two of them.
\<close>

fun py_join :: "'a list \<Rightarrow> 'a list list \<Rightarrow> 'a list" where
  "py_join sep [] = []"
| "py_join sep [x] = x"
| "py_join sep (x # y # xs) = x @ sep @ py_join sep (y # xs)"

text \<open>
  An ASCII literal of the source (a tag, a separator, a fragment of HTML) as a string of
  code points.
\<close>

definition asc :: "string \<Rightarrow> ustr" where
  "asc s = map of_char s"

section \<open>Lemmas on the string helpers\<close>

lemma py_endswith_suffix: "py_endswith s e \<longleftrightarrow> (\<exists>t. s = t @ e)"
proof
  assume "py_endswith s e"
  then have "s = take (length s - length e) s @ e"
    by (metis py_endswith_def append_take_drop_id)
  then show "\<exists>t. s = t @ e" ..
next
  assume "\<exists>t. s = t @ e"
  then show "py_endswith s e" by (auto simp: py_endswith_def)
qed

lemma py_endswith_append [simp, intro]: "py_endswith (t @ e) e"
  by (auto simp: py_endswith_suffix)

lemma py_startswith_prefix: "py_startswith s p \<longleftrightarrow> (\<exists>t. s = p @ t)"
  by (metis py_startswith_def append_eq_conv_conj)

lemma py_startswith_append [simp, intro]: "py_startswith (p @ t) p"
  by (simp add: py_startswith_def)

lemma py_drop_end_append [simp]: "e \<noteq> [] \<Longrightarrow> py_drop_end (length e) (t @ e) = t"
  by (simp add: py_drop_end_def)

lemma py_drop_end_length [simp]: "0 < n \<Longrightarrow> length (py_drop_end n s) = length s - n"
  by (simp add: py_drop_end_def)

lemma py_endswith_drop_end:
  assumes "py_endswith s e" and "e \<noteq> []"
  shows "py_drop_end (length e) s @ e = s"
  using assms by (auto simp: py_endswith_suffix)

lemma py_endswith_length: "py_endswith s e \<Longrightarrow> length e \<le> length s"
  by (simp add: py_endswith_def)

lemma py_endswith_last: "py_endswith s e \<Longrightarrow> e \<noteq> [] \<Longrightarrow> last e \<in> set s"
  by (auto simp: py_endswith_suffix)

lemma py_endswith_Nil [simp]: "py_endswith s []"
  by (simp add: py_endswith_def)

lemma py_endswith_Cons_Nil [simp]: "\<not> py_endswith [] (c # e)"
  by (simp add: py_endswith_def)

lemma py_startswith_Nil [simp]: "py_startswith s []" and
  py_startswith_Nil_Cons [simp]: "\<not> py_startswith [] (c # p)" and
  py_startswith_Cons_Cons [simp]: "py_startswith (a # s) (b # p) \<longleftrightarrow> a = b \<and> py_startswith s p"
  by (simp_all add: py_startswith_def)

lemma py_contains_iff: "py_contains s sub \<longleftrightarrow> (\<exists>a b. s = a @ sub @ b)"
proof (induction s)
  case Nil
  then show ?case by (cases sub) (auto simp: py_startswith_prefix)
next
  case (Cons c s)
  show ?case
  proof
    assume "py_contains (c # s) sub"
    then consider "py_startswith (c # s) sub" | "py_contains s sub" by auto
    then show "\<exists>a b. c # s = a @ sub @ b"
    proof cases
      case 1
      then show ?thesis by (metis append_Nil py_startswith_prefix)
    next
      case 2
      with Cons.IH obtain a b where "s = a @ sub @ b" by blast
      then have "c # s = (c # a) @ sub @ b" by simp
      then show ?thesis by blast
    qed
  next
    assume "\<exists>a b. c # s = a @ sub @ b"
    then obtain a b where ab: "c # s = a @ sub @ b" by blast
    show "py_contains (c # s) sub"
    proof (cases a)
      case Nil
      with ab have "py_startswith (c # s) sub" by (simp add: py_startswith_prefix)
      then show ?thesis by simp
    next
      case (Cons a0 a')
      with ab have "s = a' @ sub @ b" by simp
      with Cons.IH have "py_contains s sub" by blast
      then show ?thesis by simp
    qed
  qed
qed

lemma py_join_append_Cons: "py_join sep (x # xs) = (if xs = [] then x else x @ sep @ py_join sep xs)"
  by (cases xs) simp_all

lemma set_py_join: "set (py_join sep xs) \<subseteq> \<Union> (set ` set xs) \<union> set sep"
  by (induction sep xs rule: py_join.induct) auto

lemma py_join_Nil_sep: "py_join [] xs = concat xs"
  by (induction "[] :: 'a list" xs rule: py_join.induct) simp_all

lemmas py_basic [py_simps] = py_endswith_def py_startswith_def py_drop_end_def

lemmas greek_lit_defs [greek_lit] = gk_def beta_table_def

section \<open>Sets built from lists\<close>

text \<open>
  Python sets that the code fills in a loop are the \<open>set\<close> of a list in the model; a
  membership test on them unfolds to a disjunction over the list.
\<close>

lemma set_concat_map_iff: "x \<in> set (concat (map f xs)) \<longleftrightarrow> (\<exists>y \<in> set xs. x \<in> set (f y))"
  by auto

section \<open>Lists\<close>

lemma successively_upto: "successively (\<lambda>x y. y = x + 1) [i..j]"
proof (induction i j rule: upto.induct)
  case (1 i j)
  show ?case
  proof (cases "i + 1 \<le> j")
    case True
    then have "[i..j] = i # [i + 1..j]" by (simp add: upto_rec1)
    moreover have "hd [i + 1..j] = i + 1" using True by (simp add: upto_rec1)
    ultimately show ?thesis using 1 True by (simp add: successively_Cons)
  next
    case False
    then have "j < i \<or> j = i" by arith
    then have "[i..j] = [] \<or> [i..j] = [i]" by (auto simp: upto_rec1)
    then show ?thesis by auto
  qed
qed

lemma successively_map_conv: "successively P (map f xs) = successively (\<lambda>x y. P (f x) (f y)) xs"
  by (induction xs rule: induct_list012) auto

lemma last_upto: "i \<le> j \<Longrightarrow> last [i..j] = j"
  by (induction i j rule: upto.induct) (simp add: upto_rec1)

lemma find_append_mem:
  "x \<in> set xs \<Longrightarrow> P x \<Longrightarrow> \<exists>y. find P (xs @ ys) = Some y \<and> y \<in> set xs \<and> P y"
  by (induction xs) auto

lemma find_mem: "x \<in> set xs \<Longrightarrow> P x \<Longrightarrow> \<exists>y. find P xs = Some y"
  using find_append_mem [of x xs P "[]"] by auto

section \<open>Integers and their decimal strings\<close>

text \<open>
  \<open>str(n)\<close> and \<open>f"{n:03d}"\<close> of a Python integer, and \<open>str.isdigit()\<close> for the
  ASCII digits (the TEI attributes the code tests are ASCII).
\<close>

fun dec_nat :: "nat \<Rightarrow> ustr" where
  "dec_nat n = (if n < 10 then [0x30 + n] else dec_nat (n div 10) @ [0x30 + n mod 10])"

declare dec_nat.simps [simp del]

definition py_str_int :: "int \<Rightarrow> ustr" where
  "py_str_int n = (if n < 0 then 0x2D # dec_nat (nat (- n)) else dec_nat (nat n))"

definition zero_pad :: "nat \<Rightarrow> ustr \<Rightarrow> ustr" where
  "zero_pad k s = replicate (k - length s) 0x30 @ s"

definition py_fmt03 :: "int \<Rightarrow> ustr" where
  "py_fmt03 n = (if n < 0 then 0x2D # zero_pad 2 (dec_nat (nat (- n))) else zero_pad 3 (dec_nat (nat n)))"

definition is_ascii_digit :: "cp \<Rightarrow> bool" where
  "is_ascii_digit c = (0x30 \<le> c \<and> c \<le> 0x39)"

definition py_isdigit :: "ustr \<Rightarrow> bool" where
  "py_isdigit s = (s \<noteq> [] \<and> list_all is_ascii_digit s)"

definition digits_val :: "ustr \<Rightarrow> int" where
  "digits_val s = foldl (\<lambda>n c. 10 * n + int (c - 0x30)) 0 s"

lemma dec_nat_digits: "list_all is_ascii_digit (dec_nat n)"
  by (induction n rule: dec_nat.induct) (subst dec_nat.simps, auto simp: is_ascii_digit_def list_all_iff)

lemma dec_nat_ne [simp]: "dec_nat n \<noteq> []"
  by (subst dec_nat.simps) simp

lemma digits_val_snoc: "digits_val (s @ [c]) = 10 * digits_val s + int (c - 0x30)"
  by (simp add: digits_val_def)

lemma digits_val_dec_nat [simp]: "digits_val (dec_nat n) = int n"
proof (induction n rule: dec_nat.induct)
  case (1 n)
  show ?case
  proof (cases "n < 10")
    case True
    then show ?thesis by (subst dec_nat.simps) (simp add: digits_val_def)
  next
    case False
    then have "dec_nat n = dec_nat (n div 10) @ [0x30 + n mod 10]" by (subst dec_nat.simps) simp
    with 1 False show ?thesis by (simp add: digits_val_snoc zdiv_int zmod_int)
  qed
qed

lemma py_isdigit_dec_nat [simp]: "py_isdigit (dec_nat n)"
  by (simp add: py_isdigit_def dec_nat_digits)

end
