(* ===== verification/Unicode.thy ===== *)
theory Unicode
  imports Prelude
begin

text \<open>
  The Unicode character database as the normaliser uses it, through Python's
  \<open>unicodedata.normalize('NFD', \<dots>)\<close>, \<open>unicodedata.combining\<close>, \<open>str.lower\<close> and
  \<open>str.isalpha\<close>. The database is an interface: a record of four per-code-point
  functions, and a predicate \<open>ucd_normal_stable\<close> that states the one property of
  the real database the normaliser's idempotence rests on. The theorems of the
  normaliser are stated for every database satisfying it. A concrete fragment,
  \<open>greek_ucd\<close>, gives the real decompositions of the Greek and Coptic block and of
  the polytonic vowels of Greek Extended, the real lowercase mapping of the
  Basic Latin and basic Greek capitals, the real combining classes of U+0300..U+036F
  and the real letter property of both Greek blocks; it is the database of the
  concrete scenarios and is proved to satisfy \<open>ucd_normal_stable\<close>.

  NFD is modelled code point by code point (full canonical decomposition); canonical
  reordering only permutes marks of non-zero combining class, all of which the
  normaliser deletes next, so the order it would choose never shows. \<open>str.lower\<close>
  is modelled code point by code point: its one context-dependent rule (Final_Sigma,
  capital sigma to U+03C2 at a word end) chooses between the two sigmas, which the
  normaliser identifies right afterwards.
\<close>

record ucd =
  nfd :: "cp \<Rightarrow> cp list"
  combining :: "cp \<Rightarrow> bool"
  lower :: "cp \<Rightarrow> cp list"
  isalpha :: "cp \<Rightarrow> bool"
  isspace :: "cp \<Rightarrow> bool"

text \<open>
  The script ranges of \<open>normalize_greek\<close>: U+0370..U+03FF (Greek and Coptic) or
  U+1F00..U+1FFF (Greek Extended).
\<close>

definition greek_range :: "cp \<Rightarrow> bool" where
  "greek_range c \<longleftrightarrow> (0x370 \<le> c \<and> c \<le> 0x3FF) \<or> (0x1F00 \<le> c \<and> c \<le> 0x1FFF)"

definition keep_char :: "ucd \<Rightarrow> cp \<Rightarrow> bool" where
  "keep_char u c \<longleftrightarrow> isalpha u c \<and> greek_range c"

text \<open>
  The property of the database that makes normalisation idempotent: a Greek letter
  obtained by lowercasing a starter (a non-combining code point) of an NFD
  decomposition is itself fully decomposed, not combining, and its own lowercase; and
  so is the medial sigma, which the normaliser writes for the final one.
\<close>

definition char_stable :: "ucd \<Rightarrow> cp \<Rightarrow> bool" where
  "char_stable u c \<longleftrightarrow> nfd u c = [c] \<and> \<not> combining u c \<and> lower u c = [c]"

definition ucd_normal_stable :: "ucd \<Rightarrow> bool" where
  "ucd_normal_stable u \<longleftrightarrow>
     (\<forall>x d c. d \<in> set (nfd u x) \<longrightarrow> \<not> combining u d \<longrightarrow> c \<in> set (lower u d) \<longrightarrow>
        keep_char u c \<longrightarrow> char_stable u c) \<and>
     char_stable u sigma_medial \<and> keep_char u sigma_medial"

section \<open>A fragment of the database: Greek\<close>

text \<open>
  Decompositions of the Greek and Coptic block (tonos and dialytika letters).
\<close>

definition greek_basic_decomp :: "(cp \<times> cp list) list" where
  "greek_basic_decomp =
    [(0x386, [0x391, 0x301]), (0x388, [0x395, 0x301]), (0x389, [0x397, 0x301]),
     (0x38A, [0x399, 0x301]), (0x38C, [0x39F, 0x301]), (0x38E, [0x3A5, 0x301]),
     (0x38F, [0x3A9, 0x301]), (0x390, [0x3B9, 0x308, 0x301]), (0x3AA, [0x399, 0x308]),
     (0x3AB, [0x3A5, 0x308]), (0x3AC, [0x3B1, 0x301]), (0x3AD, [0x3B5, 0x301]),
     (0x3AE, [0x3B7, 0x301]), (0x3AF, [0x3B9, 0x301]), (0x3B0, [0x3C5, 0x308, 0x301]),
     (0x3CA, [0x3B9, 0x308]), (0x3CB, [0x3C5, 0x308]), (0x3CC, [0x3BF, 0x301]),
     (0x3CD, [0x3C5, 0x301]), (0x3CE, [0x3C9, 0x301])]"

text \<open>
  Greek Extended U+1F00..U+1F6F comes in rows of eight: a vowel with psili, dasia,
  and each of them with varia, oxia and perispomeni. The row's vowel and the marks of
  each column:
\<close>

definition ext_row_base :: "cp list" where
  "ext_row_base = [0x3B1, 0x391, 0x3B5, 0x395, 0x3B7, 0x397, 0x3B9, 0x399,
                   0x3BF, 0x39F, 0x3C5, 0x3A5, 0x3C9, 0x3A9]"

definition ext_col_marks :: "nat \<Rightarrow> cp list" where
  "ext_col_marks k =
     (if even k then 0x313 else 0x314) #
     (if k div 2 = 0 then [] else if k div 2 = 1 then [0x300]
      else if k div 2 = 2 then [0x301] else [0x342])"

text \<open>Rows of epsilon and omicron have six columns; the capital upsilon row only the odd ones.\<close>

definition ext_assigned :: "cp \<Rightarrow> bool" where
  "ext_assigned c \<longleftrightarrow> 0x1F00 \<le> c \<and> c < 0x1F70 \<and>
     (let r = (c - 0x1F00) div 8; k = (c - 0x1F00) mod 8 in
      if r \<in> {2, 3, 8, 9} then k < 6 else if r = 11 then odd k else True)"

definition ext_decomp :: "cp \<Rightarrow> cp list" where
  "ext_decomp c = ext_row_base ! ((c - 0x1F00) div 8) # ext_col_marks ((c - 0x1F00) mod 8)"

text \<open>U+1F70..U+1F7D: the vowels with varia and oxia (oxia decomposes to U+0301).\<close>

definition oxia_decomp :: "cp \<Rightarrow> cp list" where
  "oxia_decomp c =
     [[0x3B1, 0x3B5, 0x3B7, 0x3B9, 0x3BF, 0x3C5, 0x3C9] ! ((c - 0x1F70) div 2),
      if even c then 0x300 else 0x301]"

text \<open>
  U+1F80..U+1FAF: the rows of alpha, eta and omega (and their capitals) again, with
  ypogegrammeni U+0345.
\<close>

definition ypo_source :: "cp \<Rightarrow> cp" where
  "ypo_source c = (if c < 0x1F90 then c - 0x80 else if c < 0x1FA0 then c - 0x70 else c - 0x40)"

text \<open>The rest of Greek Extended: long vowels with perispomeni and ypogegrammeni, rho.\<close>

definition greek_late_decomp :: "(cp \<times> cp list) list" where
  "greek_late_decomp =
    [(0x1FB2, [0x3B1, 0x300, 0x345]), (0x1FB3, [0x3B1, 0x345]), (0x1FB4, [0x3B1, 0x301, 0x345]),
     (0x1FB6, [0x3B1, 0x342]), (0x1FB7, [0x3B1, 0x342, 0x345]), (0x1FBC, [0x391, 0x345]),
     (0x1FBE, [0x3B9]),
     (0x1FC2, [0x3B7, 0x300, 0x345]), (0x1FC3, [0x3B7, 0x345]), (0x1FC4, [0x3B7, 0x301, 0x345]),
     (0x1FC6, [0x3B7, 0x342]), (0x1FC7, [0x3B7, 0x342, 0x345]), (0x1FCC, [0x397, 0x345]),
     (0x1FD2, [0x3B9, 0x308, 0x300]), (0x1FD3, [0x3B9, 0x308, 0x301]), (0x1FD6, [0x3B9, 0x342]),
     (0x1FD7, [0x3B9, 0x308, 0x342]),
     (0x1FE2, [0x3C5, 0x308, 0x300]), (0x1FE3, [0x3C5, 0x308, 0x301]), (0x1FE4, [0x3C1, 0x313]),
     (0x1FE5, [0x3C1, 0x314]), (0x1FE6, [0x3C5, 0x342]), (0x1FE7, [0x3C5, 0x308, 0x342]),
     (0x1FEC, [0x3A1, 0x314]),
     (0x1FF2, [0x3C9, 0x300, 0x345]), (0x1FF3, [0x3C9, 0x345]), (0x1FF4, [0x3C9, 0x301, 0x345]),
     (0x1FF6, [0x3C9, 0x342]), (0x1FF7, [0x3C9, 0x342, 0x345]), (0x1FFC, [0x3A9, 0x345])]"

definition greek_nfd :: "cp \<Rightarrow> cp list" where
  "greek_nfd c =
     (case map_of greek_basic_decomp c of
        Some ds \<Rightarrow> ds
      | None \<Rightarrow>
          if ext_assigned c then ext_decomp c
          else if 0x1F70 \<le> c \<and> c \<le> 0x1F7D then oxia_decomp c
          else if 0x1F80 \<le> c \<and> c < 0x1FB0 then ext_decomp (ypo_source c) @ [0x345]
          else (case map_of greek_late_decomp c of Some ds \<Rightarrow> ds | None \<Rightarrow> [c]))"

text \<open>Canonical combining classes: all of U+0300..U+036F are non-zero but U+034F.\<close>

definition greek_combining :: "cp \<Rightarrow> bool" where
  "greek_combining c \<longleftrightarrow> 0x300 \<le> c \<and> c \<le> 0x36F \<and> c \<noteq> 0x34F"

text \<open>
  Lowercase mapping of the Basic Latin and basic Greek capitals. Precomposed Greek
  capitals reach \<open>lower\<close> only after NFD has split them into these.
\<close>

definition greek_lower :: "cp \<Rightarrow> cp list" where
  "greek_lower c =
     (if 0x41 \<le> c \<and> c \<le> 0x5A then [c + 0x20]
      else if 0x391 \<le> c \<and> c \<le> 0x3A9 \<and> c \<noteq> 0x3A2 then [c + 0x20]
      else [c])"

text \<open>\<open>str.isalpha\<close> (general category L*) on ASCII and on both Greek blocks.\<close>

definition greek_isalpha :: "cp \<Rightarrow> bool" where
  "greek_isalpha c \<longleftrightarrow>
     (0x41 \<le> c \<and> c \<le> 0x5A) \<or> (0x61 \<le> c \<and> c \<le> 0x7A) \<or>
     (0x370 \<le> c \<and> c \<le> 0x374) \<or> c = 0x376 \<or> c = 0x377 \<or> (0x37A \<le> c \<and> c \<le> 0x37D) \<or>
     c = 0x37F \<or> c = 0x386 \<or> (0x388 \<le> c \<and> c \<le> 0x38A) \<or> c = 0x38C \<or>
     (0x38E \<le> c \<and> c \<le> 0x3A1) \<or> (0x3A3 \<le> c \<and> c \<le> 0x3F5) \<or> (0x3F7 \<le> c \<and> c \<le> 0x3FF) \<or>
     ext_assigned c \<or> (0x1F70 \<le> c \<and> c \<le> 0x1F7D) \<or> (0x1F80 \<le> c \<and> c \<le> 0x1FB4) \<or>
     (0x1FB6 \<le> c \<and> c \<le> 0x1FBC) \<or> c = 0x1FBE \<or> (0x1FC2 \<le> c \<and> c \<le> 0x1FC4) \<or>
     (0x1FC6 \<le> c \<and> c \<le> 0x1FCC) \<or> (0x1FD0 \<le> c \<and> c \<le> 0x1FD3) \<or>
     (0x1FD6 \<le> c \<and> c \<le> 0x1FDB) \<or> (0x1FE0 \<le> c \<and> c \<le> 0x1FEC) \<or>
     (0x1FF2 \<le> c \<and> c \<le> 0x1FF4) \<or> (0x1FF6 \<le> c \<and> c \<le> 0x1FFC)"

text \<open>\<open>str.isspace\<close> (White_Space, and the separators U+001C..U+001F Python adds).\<close>

definition greek_isspace :: "cp \<Rightarrow> bool" where
  "greek_isspace c \<longleftrightarrow>
     (0x9 \<le> c \<and> c \<le> 0xD) \<or> (0x1C \<le> c \<and> c \<le> 0x20) \<or> c = 0x85 \<or> c = 0xA0 \<or>
     c = 0x1680 \<or> (0x2000 \<le> c \<and> c \<le> 0x200A) \<or> c = 0x2028 \<or> c = 0x2029 \<or>
     c = 0x202F \<or> c = 0x205F \<or> c = 0x3000"

definition greek_ucd :: ucd where
  "greek_ucd = \<lparr>nfd = greek_nfd, combining = greek_combining, lower = greek_lower,
                isalpha = greek_isalpha, isspace = greek_isspace\<rparr>"

text \<open>The starters of the fragment's decompositions: the basic Greek letters.\<close>

definition greek_base_letter :: "cp \<Rightarrow> bool" where
  "greek_base_letter d \<longleftrightarrow> (0x391 \<le> d \<and> d \<le> 0x3A9 \<and> d \<noteq> 0x3A2) \<or> (0x3B1 \<le> d \<and> d \<le> 0x3C9)"

text \<open>
  \<open>str.strip()\<close> with no argument: leading and trailing code points for which
  \<open>str.isspace\<close> holds are removed.
\<close>

definition py_strip :: "ucd \<Rightarrow> ustr \<Rightarrow> ustr" where
  "py_strip u s = rev (dropWhile (isspace u) (rev (dropWhile (isspace u) s)))"

section \<open>The fragment satisfies the stability property\<close>
lemma nth_list_all: "list_all P xs \<Longrightarrow> i < length xs \<Longrightarrow> P (xs ! i)"
  by (simp add: list_all_iff)

lemma ext_row_base_letter: "r < 14 \<Longrightarrow> greek_base_letter (ext_row_base ! r)"
  by (rule nth_list_all) (simp_all add: ext_row_base_def greek_base_letter_def)

lemma ext_col_marks_combining: "d \<in> set (ext_col_marks k) \<Longrightarrow> greek_combining d"
  by (auto simp: ext_col_marks_def greek_combining_def split: if_splits)

lemma ext_decomp_starter:
  assumes "c < 0x1F70" and "d \<in> set (ext_decomp c)" and "\<not> greek_combining d"
  shows "greek_base_letter d"
proof -
  have "(c - 0x1F00) div 8 < 14" using assms(1) by simp
  with assms(2,3) show ?thesis
    by (auto simp: ext_decomp_def dest: ext_col_marks_combining intro: ext_row_base_letter)
qed

lemma oxia_starter:
  assumes "c \<le> 0x1F7D" and "d \<in> set (oxia_decomp c)" and "\<not> greek_combining d"
  shows "greek_base_letter d"
proof -
  have "list_all greek_base_letter [0x3B1, 0x3B5, 0x3B7, 0x3B9, 0x3BF, 0x3C5, 0x3C9]"
    by (simp add: greek_base_letter_def)
  moreover have "(c - 0x1F70) div 2 < length [0x3B1::cp, 0x3B5, 0x3B7, 0x3B9, 0x3BF, 0x3C5, 0x3C9]"
    using assms(1) by simp
  ultimately have "greek_base_letter ([0x3B1, 0x3B5, 0x3B7, 0x3B9, 0x3BF, 0x3C5, 0x3C9] ! ((c - 0x1F70) div 2))"
    by (rule nth_list_all)
  with assms(2,3) show ?thesis
    by (auto simp: oxia_decomp_def greek_combining_def split: if_splits)
qed

lemma table_starter:
  assumes "map_of tbl c = Some ds" and "d \<in> set ds" and "\<not> greek_combining d"
    and "list_all (\<lambda>(k, ds). list_all (\<lambda>d. greek_combining d \<or> greek_base_letter d) ds) tbl"
  shows "greek_base_letter d"
proof -
  from assms(1) have "(c, ds) \<in> set tbl" by (rule map_of_SomeD)
  with assms(2,3,4) show ?thesis by (fastforce simp: list_all_iff)
qed

lemma basic_decomp_ok:
  "list_all (\<lambda>(k, ds). list_all (\<lambda>d. greek_combining d \<or> greek_base_letter d) ds) greek_basic_decomp"
  by (simp add: greek_basic_decomp_def greek_combining_def greek_base_letter_def)

lemma late_decomp_ok:
  "list_all (\<lambda>(k, ds). list_all (\<lambda>d. greek_combining d \<or> greek_base_letter d) ds) greek_late_decomp"
  by (simp add: greek_late_decomp_def greek_combining_def greek_base_letter_def)

lemma greek_nfd_starter:
  assumes "d \<in> set (greek_nfd x)" and "\<not> greek_combining d"
  shows "greek_base_letter d \<or> (d = x \<and> greek_nfd x = [x])"
proof (cases "map_of greek_basic_decomp x")
  case (Some ds)
  with assms basic_decomp_ok show ?thesis by (auto simp: greek_nfd_def intro: table_starter)
next
  case None
  note defs = greek_nfd_def None
  consider (ext) "ext_assigned x" | (ox) "\<not> ext_assigned x" "0x1F70 \<le> x \<and> x \<le> 0x1F7D"
    | (ypo) "\<not> ext_assigned x" "\<not> (0x1F70 \<le> x \<and> x \<le> 0x1F7D)" "0x1F80 \<le> x \<and> x < 0x1FB0"
    | (late) "\<not> ext_assigned x" "\<not> (0x1F70 \<le> x \<and> x \<le> 0x1F7D)" "\<not> (0x1F80 \<le> x \<and> x < 0x1FB0)"
    by blast
  then show ?thesis
  proof cases
    case ext
    then have "x < 0x1F70" by (simp add: ext_assigned_def)
    moreover from ext assms have "d \<in> set (ext_decomp x)" by (simp add: defs)
    ultimately show ?thesis using assms(2) by (blast intro: ext_decomp_starter)
  next
    case ox
    with assms have "d \<in> set (oxia_decomp x)" by (simp add: defs)
    with ox assms(2) show ?thesis by (blast intro: oxia_starter)
  next
    case ypo
    then have "ypo_source x < 0x1F70" by (auto simp: ypo_source_def)
    moreover from ypo assms have "d \<in> set (ext_decomp (ypo_source x))"
      by (auto simp: defs greek_combining_def)
    ultimately show ?thesis using assms(2) by (blast intro: ext_decomp_starter)
  next
    case late
    show ?thesis
    proof (cases "map_of greek_late_decomp x")
      case None
      with late assms show ?thesis by (auto simp: defs split: if_splits)
    next
      case (Some ds)
      with late assms have "d \<in> set ds" by (auto simp: defs split: if_splits)
      with Some assms(2) late_decomp_ok show ?thesis by (blast intro: table_starter)
    qed
  qed
qed

lemma greek_nfd_base_letter:
  assumes "greek_base_letter c"
  shows "greek_nfd c = [c]"
proof -
  have r: "0x391 \<le> c" "c \<le> 0x3C9" and gap: "\<not> (0x3AA \<le> c \<and> c \<le> 0x3B0)"
    using assms by (auto simp: greek_base_letter_def)
  have "c \<notin> fst ` set greek_basic_decomp"
    using r gap by (auto simp: greek_basic_decomp_def)
  then have b: "map_of greek_basic_decomp c = None" by (simp add: map_of_eq_None_iff)
  have "c \<notin> fst ` set greek_late_decomp"
    using r by (auto simp: greek_late_decomp_def)
  then have l: "map_of greek_late_decomp c = None" by (simp add: map_of_eq_None_iff)
  have "\<not> ext_assigned c" using r by (simp add: ext_assigned_def)
  with r b l show ?thesis by (simp add: greek_nfd_def)
qed

lemma greek_lower_base_letter:
  "greek_base_letter d \<Longrightarrow> c \<in> set (greek_lower d) \<Longrightarrow> greek_base_letter c \<and> 0x3B1 \<le> c"
  by (auto simp: greek_lower_def greek_base_letter_def split: if_splits)

lemma greek_small_letter_stable:
  assumes "greek_base_letter c" and "0x3B1 \<le> c"
  shows "greek_nfd c = [c] \<and> \<not> greek_combining c \<and> greek_lower c = [c]"
  using assms by (simp add: greek_nfd_base_letter greek_combining_def greek_lower_def
      greek_base_letter_def)

lemma greek_ucd_starters_stable:
  "\<forall>x d c. d \<in> set (nfd greek_ucd x) \<longrightarrow> \<not> combining greek_ucd d \<longrightarrow>
     c \<in> set (lower greek_ucd d) \<longrightarrow> keep_char greek_ucd c \<longrightarrow> char_stable greek_ucd c"
  unfolding char_stable_def
proof (intro allI impI)
  fix x d c
  assume d: "d \<in> set (nfd greek_ucd x)" and nc: "\<not> combining greek_ucd d"
    and c: "c \<in> set (lower greek_ucd d)" and k: "keep_char greek_ucd c"
  from d nc have st: "greek_base_letter d \<or> (d = x \<and> greek_nfd x = [x])"
    by (simp add: greek_ucd_def greek_nfd_starter)
  show "nfd greek_ucd c = [c] \<and> \<not> combining greek_ucd c \<and> lower greek_ucd c = [c]"
  proof (cases "greek_base_letter d")
    case True
    with c have "greek_base_letter c \<and> 0x3B1 \<le> c"
      by (simp add: greek_ucd_def greek_lower_base_letter)
    then show ?thesis by (simp add: greek_ucd_def greek_small_letter_stable)
  next
    case False
    with st have dx: "greek_nfd d = [d]" by simp
    from False c k have "c = d"
      by (auto simp: greek_ucd_def greek_lower_def greek_base_letter_def keep_char_def
          greek_range_def split: if_splits)
    with False dx nc c show ?thesis
      by (auto simp: greek_ucd_def greek_lower_def greek_base_letter_def split: if_splits)
  qed
qed

theorem greek_ucd_normal_stable: "ucd_normal_stable greek_ucd"
proof -
  have "greek_base_letter sigma_medial" by (simp add: greek_base_letter_def)
  then have "char_stable greek_ucd sigma_medial"
    by (simp add: char_stable_def greek_ucd_def greek_small_letter_stable)
  moreover have "keep_char greek_ucd sigma_medial"
    by (simp add: keep_char_def greek_ucd_def greek_isalpha_def greek_range_def)
  ultimately show ?thesis
    using greek_ucd_starters_stable by (simp add: ucd_normal_stable_def)
qed

end
