(* ===== verification/Normalizer.thy ===== *)
theory Normalizer
  imports Unicode
begin

text \<open>
  The normalisers of \<open>src/data-prep/create_perseus_database.py\<close>: the module-level
  \<open>normalize_greek\<close> (lines 18-36, the lookup key of every table of the database; the
  same body is repeated in \<open>perseus_db_functions.py\<close>, \<open>add_adverb_mappings.py\<close>,
  \<open>build_database.py\<close> and the Wiktionary extractors), the lemmatiser's own
  \<open>GreekLemmatizer.normalize_greek\<close> (lines 384-403), which stops before the script
  filter, and \<open>normalize_line_for_search\<close> (lines 38-71), which keeps word boundaries.
  Each is a pipeline of per-code-point steps over the database \<open>u\<close>.
\<close>

definition nfd_str :: "ucd \<Rightarrow> ustr \<Rightarrow> ustr" where
  "nfd_str u s = concat (map (nfd u) s)"

definition drop_combining :: "ucd \<Rightarrow> ustr \<Rightarrow> ustr" where
  "drop_combining u s = filter (\<lambda>c. \<not> combining u c) s"

definition lower_str :: "ucd \<Rightarrow> ustr \<Rightarrow> ustr" where
  "lower_str u s = concat (map (lower u) s)"

text \<open>\<open>text.replace(...)\<close> of the final sigma U+03C2 by the medial sigma U+03C3.\<close>

definition final_sigma_to_medial :: "ustr \<Rightarrow> ustr" where
  "final_sigma_to_medial s = map (\<lambda>c. if c = sigma_final then sigma_medial else c) s"

text \<open>
  \<open>GreekLemmatizer.normalize_greek\<close>: NFD, drop the marks, lowercase, medial sigma.
  (Its \<open>if not text: return ""\<close> agrees with the pipeline on the empty string.)
\<close>

definition lemmatizer_normalize :: "ucd \<Rightarrow> ustr \<Rightarrow> ustr" where
  "lemmatizer_normalize u text =
     final_sigma_to_medial (lower_str u (drop_combining u (nfd_str u text)))"

text \<open>\<open>normalize_greek\<close>: the same, then only letters of the two Greek blocks are kept.\<close>

definition normalize_greek :: "ucd \<Rightarrow> ustr \<Rightarrow> ustr" where
  "normalize_greek u text =
     filter (keep_char u)
       (final_sigma_to_medial (lower_str u (drop_combining u (nfd_str u text))))"

text \<open>
  \<open>' '.join(s.split())\<close>: the maximal runs of non-whitespace code points, joined by
  single spaces. \<open>split_ws\<close> is \<open>str.split()\<close> with no argument.
\<close>

fun split_ws_acc :: "ucd \<Rightarrow> ustr \<Rightarrow> ustr \<Rightarrow> ustr list" where
  "split_ws_acc u cur [] = (if cur = [] then [] else [rev cur])"
| "split_ws_acc u cur (c # s) =
     (if isspace u c then (if cur = [] then split_ws_acc u [] s else rev cur # split_ws_acc u [] s)
      else split_ws_acc u (c # cur) s)"

definition split_ws :: "ucd \<Rightarrow> ustr \<Rightarrow> ustr list" where
  "split_ws u s = split_ws_acc u [] s"

definition join_space :: "ustr list \<Rightarrow> ustr" where
  "join_space ws = py_join [0x20] ws"

datatype language = Greek | OtherLanguage

text \<open>
  \<open>normalize_line_for_search\<close>: for Greek the lemmatiser's steps, every non-letter
  becomes a space, and runs of spaces collapse; for another language, lowercase and
  collapse whitespace.
\<close>

definition normalize_line_for_search :: "ucd \<Rightarrow> ustr \<Rightarrow> language \<Rightarrow> ustr" where
  "normalize_line_for_search u text lang =
     (if text = [] then []
      else case lang of
        Greek \<Rightarrow>
          join_space (split_ws u
            (map (\<lambda>c. if isalpha u c then c else 0x20) (lemmatizer_normalize u text)))
      | OtherLanguage \<Rightarrow> join_space (split_ws u (lower_str u text)))"

section \<open>Properties of the normaliser\<close>

lemma set_final_sigma_to_medial:
  "c \<in> set (final_sigma_to_medial s) \<Longrightarrow> c \<noteq> sigma_final"
  by (auto simp: final_sigma_to_medial_def)

lemma normalize_greek_lemmatizer:
  "normalize_greek u s = filter (keep_char u) (lemmatizer_normalize u s)"
  by (simp add: normalize_greek_def lemmatizer_normalize_def)

lemma normalize_greek_Nil [simp]: "normalize_greek u [] = []"
  by (simp add: normalize_greek_def nfd_str_def drop_combining_def lower_str_def
      final_sigma_to_medial_def)

lemma normalize_greek_append:
  "normalize_greek u (s @ t) = normalize_greek u s @ normalize_greek u t"
  by (simp add: normalize_greek_def nfd_str_def drop_combining_def lower_str_def
      final_sigma_to_medial_def)

text \<open>Where every code point is stable, a Greek letter and not the final sigma, nothing moves.\<close>

lemma normalize_greek_fixed:
  assumes "\<forall>c \<in> set s. char_stable u c \<and> keep_char u c \<and> c \<noteq> sigma_final"
  shows "normalize_greek u s = s"
  using assms
proof (induction s)
  case Nil
  then show ?case by simp
next
  case (Cons c s)
  then have "normalize_greek u [c] = [c]"
    by (simp add: normalize_greek_def nfd_str_def drop_combining_def lower_str_def
        final_sigma_to_medial_def char_stable_def)
  with Cons show ?case
    using normalize_greek_append [of u "[c]" s] by simp
qed

text \<open>What the pipeline produces, code point by code point, before the final filter.\<close>

lemma lower_of_starter:
  assumes "c \<in> set (lower_str u (drop_combining u (nfd_str u s)))"
  obtains x d where "d \<in> set (nfd u x)" "\<not> combining u d" "c \<in> set (lower u d)"
  using assms by (auto simp: lower_str_def drop_combining_def nfd_str_def)

lemma lemmatizer_normalize_chars:
  assumes "ucd_normal_stable u" and "c \<in> set (lemmatizer_normalize u s)" and "keep_char u c"
  shows "char_stable u c \<and> c \<noteq> sigma_final"
proof -
  from assms(2) obtain c0 where
    c0: "c0 \<in> set (lower_str u (drop_combining u (nfd_str u s)))"
    and c: "c = (if c0 = sigma_final then sigma_medial else c0)"
    by (auto simp: lemmatizer_normalize_def final_sigma_to_medial_def)
  show ?thesis
  proof (cases "c0 = sigma_final")
    case True
    with c assms(1) show ?thesis by (simp add: ucd_normal_stable_def)
  next
    case False
    from c0 obtain x d where "d \<in> set (nfd u x)" "\<not> combining u d" "c0 \<in> set (lower u d)"
      by (rule lower_of_starter)
    with False c assms(1,3) show ?thesis by (simp add: ucd_normal_stable_def)
  qed
qed

lemma lemmatizer_normalize_no_final_sigma:
  "sigma_final \<notin> set (lemmatizer_normalize u s)"
  by (auto simp: lemmatizer_normalize_def dest: set_final_sigma_to_medial)

lemma normalize_greek_chars:
  assumes "ucd_normal_stable u" and "c \<in> set (normalize_greek u s)"
  shows "char_stable u c \<and> keep_char u c \<and> c \<noteq> sigma_final"
proof -
  from assms(2) have "c \<in> set (lemmatizer_normalize u s)" and k: "keep_char u c"
    by (simp_all add: normalize_greek_lemmatizer)
  with assms(1) k show ?thesis by (simp add: lemmatizer_normalize_chars)
qed

lemma normalize_greek_chars_kept:
  "c \<in> set (normalize_greek u s) \<Longrightarrow> keep_char u c \<and> c \<noteq> sigma_final"
  by (auto simp: normalize_greek_def dest: set_final_sigma_to_medial)

text \<open>
  C20: normalising twice is normalising once, for every
  character database with the stability property of the real one.
\<close>

theorem normalize_greek_idempotent:
  assumes "ucd_normal_stable u"
  shows "normalize_greek u (normalize_greek u s) = normalize_greek u s"
  using assms by (blast intro: normalize_greek_fixed dest: normalize_greek_chars)

theorem normalize_greek_idempotent_witness:
  "ucd_normal_stable greek_ucd \<and>
   normalize_greek greek_ucd (normalize_greek greek_ucd [0x1F08, 0x3C2, 0x301]) =
   normalize_greek greek_ucd [0x1F08, 0x3C2, 0x301]"
  using normalize_greek_idempotent [OF greek_ucd_normal_stable] greek_ucd_normal_stable
  by simp

text \<open>
  C21: the key holds only letters of the two Greek
  blocks, never a combining mark and never the final sigma.
\<close>

theorem normalize_greek_range_closure:
  assumes "ucd_normal_stable u"
  shows "set (normalize_greek u s) \<subseteq>
           {c. greek_range c \<and> isalpha u c \<and> \<not> combining u c \<and> c \<noteq> sigma_final}"
  using normalize_greek_chars [OF assms]
  by (auto simp: keep_char_def char_stable_def)

theorem normalize_greek_range_closure_witness:
  "ucd_normal_stable greek_ucd \<and>
   set (normalize_greek greek_ucd [0x1F08, 0x3C2, 0x301]) \<subseteq>
     {c. greek_range c \<and> isalpha greek_ucd c \<and> \<not> combining greek_ucd c \<and> c \<noteq> sigma_final}"
  using normalize_greek_range_closure [OF greek_ucd_normal_stable] greek_ucd_normal_stable
  by simp

text \<open>
  The first word of the Iliad, with its capital and its
  circumflex (U+039C U+1FC6 U+03BD U+03B9 U+03BD), normalises to \<open>\<mu>\<eta>\<nu>\<iota>\<nu>\<close>.
\<close>

theorem normalize_greek_menin:
  "normalize_greek greek_ucd [0x39C, 0x1FC6, 0x3BD, 0x3B9, 0x3BD] = gk ''mhnin''"
  by (simp add: normalize_greek_def nfd_str_def drop_combining_def lower_str_def
      final_sigma_to_medial_def keep_char_def greek_ucd_def greek_nfd_def greek_basic_decomp_def
      ext_assigned_def greek_late_decomp_def greek_combining_def greek_lower_def greek_isalpha_def
      greek_range_def greek_lit)

end
