(* ===== verification/Lemma_Table.thy ===== *)
theory Lemma_Table
  imports Prelude
begin

text \<open>
  The SQLite table \<open>lemma_map\<close> that every stage of the index build writes
  (\<open>create_perseus_database.py\<close>, lines 2751-2761):
  \<^verbatim>\<open>
  CREATE TABLE lemma_map (word_form TEXT NOT NULL, word_normalized TEXT NOT NULL,
      lemma TEXT NOT NULL, confidence REAL DEFAULT 1.0, source TEXT,
      morph_info TEXT, PRIMARY KEY (word_form, lemma))
  \<close>
  A row is a record; the table is a finite map from the primary key to the row (the column \<open>lemma\<close> is
  the field \<open>lemma_col\<close>, \<open>lemma\<close> being a keyword of Isabelle), so
  that a second row with the same key cannot exist. The SQL statements the code issues
  are operations on it: \<open>INSERT OR IGNORE\<close> keeps the table when the key is present
  and reports the row count SQLite gives \<open>cursor.rowcount\<close>; a plain \<open>INSERT\<close> on a
  present key raises \<open>sqlite3.IntegrityError\<close>, an \<open>Inl\<close> of the model; \<open>DELETE
  ... WHERE\<close> removes the rows a predicate selects. Confidences are Python floats;
  the model reads them as reals (the literals the code writes, 0.5 to 1.0, compare as
  the floats do). Source tags and morphology strings are opaque text.
\<close>

record lemma_row =
  word_form :: ustr
  word_normalized :: ustr
  lemma_col :: ustr
  confidence :: real
  source :: string
  morph_info :: "string option"

type_synonym lemma_key = "ustr \<times> ustr"
type_synonym lemma_table = "lemma_key \<rightharpoonup> lemma_row"

datatype sql_error = IntegrityError

definition key_of :: "lemma_row \<Rightarrow> lemma_key" where
  "key_of r = (word_form r, lemma_col r)"

text \<open>\<open>INSERT OR IGNORE\<close>: the table and \<open>cursor.rowcount\<close> (1 if inserted, 0 if ignored).\<close>

definition insert_or_ignore :: "lemma_row \<Rightarrow> lemma_table \<Rightarrow> lemma_table \<times> nat" where
  "insert_or_ignore r t =
     (if key_of r \<in> dom t then (t, 0) else (t(key_of r \<mapsto> r), 1))"

definition insert_or_ignore_t :: "lemma_row \<Rightarrow> lemma_table \<Rightarrow> lemma_table" where
  "insert_or_ignore_t r t = fst (insert_or_ignore r t)"

text \<open>A plain \<open>INSERT\<close>: the primary key constraint fails on a present key.\<close>

definition sql_insert :: "lemma_row \<Rightarrow> lemma_table \<Rightarrow> sql_error + lemma_table" where
  "sql_insert r t = (if key_of r \<in> dom t then Inl IntegrityError else Inr (t(key_of r \<mapsto> r)))"

text \<open>\<open>DELETE FROM lemma_map WHERE P\<close>.\<close>

definition delete_where :: "(lemma_row \<Rightarrow> bool) \<Rightarrow> lemma_table \<Rightarrow> lemma_table" where
  "delete_where P t = (\<lambda>k. case t k of Some r \<Rightarrow> if P r then None else Some r | None \<Rightarrow> None)"

text \<open>\<open>SELECT 1 FROM lemma_map WHERE P\<close> returns a row.\<close>

definition exists_row :: "(lemma_row \<Rightarrow> bool) \<Rightarrow> lemma_table \<Rightarrow> bool" where
  "exists_row P t \<longleftrightarrow> (\<exists>r \<in> ran t. P r)"

text \<open>The rows of the table, as a set (the table is finite in every reachable state).\<close>

definition rows :: "lemma_table \<Rightarrow> lemma_row set" where
  "rows t = ran t"

text \<open>Well-formedness: each row is stored under its own primary key.\<close>

definition table_wf :: "lemma_table \<Rightarrow> bool" where
  "table_wf t \<longleftrightarrow> (\<forall>k r. t k = Some r \<longrightarrow> key_of r = k)"

section \<open>Lemmas on the table operations\<close>

named_theorems table_simps "rewriting the SQL operations of the lemma table"

lemma insert_or_ignore_t_eq [table_simps]:
  "insert_or_ignore_t r t = (if key_of r \<in> dom t then t else t(key_of r \<mapsto> r))"
  by (simp add: insert_or_ignore_t_def insert_or_ignore_def)

lemma insert_or_ignore_eq [table_simps]:
  "insert_or_ignore r t = (insert_or_ignore_t r t, if key_of r \<in> dom t then 0 else 1)"
  by (simp add: insert_or_ignore_t_def insert_or_ignore_def)

lemma dom_insert_or_ignore_t [simp]:
  "dom (insert_or_ignore_t r t) = insert (key_of r) (dom t)"
  by (auto simp: insert_or_ignore_t_eq)

lemma insert_or_ignore_t_present [simp]:
  "t k = Some r0 \<Longrightarrow> insert_or_ignore_t r t k = Some r0"
  by (auto simp: insert_or_ignore_t_eq)

lemma insert_or_ignore_t_wf [intro]: "table_wf t \<Longrightarrow> table_wf (insert_or_ignore_t r t)"
  by (auto simp: table_wf_def insert_or_ignore_t_eq)

lemma delete_where_Some [simp]:
  "delete_where P t k = Some r \<longleftrightarrow> t k = Some r \<and> \<not> P r"
  by (auto simp: delete_where_def split: option.splits)

lemma delete_where_wf [intro]: "table_wf t \<Longrightarrow> table_wf (delete_where P t)"
  by (simp add: table_wf_def)

lemma sql_insert_wf:
  "table_wf t \<Longrightarrow> sql_insert r t = Inr t' \<Longrightarrow> table_wf t'"
  by (auto simp: table_wf_def sql_insert_def split: if_splits)

lemma table_wf_empty [simp, intro]: "table_wf Map.empty"
  by (simp add: table_wf_def)

lemma ran_delete_where: "ran (delete_where P t) = {r \<in> ran t. \<not> P r}"
  by (auto simp: ran_def)

end
