(* ===== verification/Synthesizer.thy ===== *)
theory Synthesizer
  imports Normalizer Lemma_Table
begin

text \<open>
  The paradigm synthesiser: class \<open>GreekLemmatizer\<close> of
  \<open>src/data-prep/create_perseus_database.py\<close> (lines 313-573) and its caller
  \<open>create_lemma_mappings\<close> (lines 575-609). The ending tables of \<open>__init__\<close> are
  transcribed code point by code point: the nominal tables write the final sigma
  U+03C2 (\<open>gk ''j''\<close>) and the contract and irregular tables keep their accents and
  breathings as precomposed code points. The eight nominal patterns of the merged
  dictionary \<open>{**first, **second, **third}\<close> are a datatype with one constructor per
  key. A Python set the code fills is the \<open>set\<close> of the list the model builds, in the
  code's order.
\<close>

section \<open>Ending tables\<close>

datatype noun_pattern =
  AlphaLong | AlphaShort | EtaStem | SecondOs | SecondOn
  | ThirdConsonant | ThirdSigma | ThirdNeuterT

text \<open>Nine cells each: nominative, genitive, dative, accusative, vocative singular; then plural.\<close>

primrec noun_endings :: "noun_pattern \<Rightarrow> ustr list" where
  "noun_endings AlphaLong =
     [gk ''a'', gk ''aj'', [0x1FB3], gk ''an'', gk ''a'', gk ''ai'', gk ''wn'', gk ''aij'', gk ''aj'']"
| "noun_endings AlphaShort =
     [gk ''a'', gk ''hj'', [0x1FC3], gk ''an'', gk ''a'', gk ''ai'', gk ''wn'', gk ''aij'', gk ''aj'']"
| "noun_endings EtaStem =
     [gk ''h'', gk ''hj'', [0x1FC3], gk ''hn'', gk ''h'', gk ''ai'', gk ''wn'', gk ''aij'', gk ''aj'']"
| "noun_endings SecondOs =
     [gk ''oj'', gk ''ou'', [0x1FF3], gk ''on'', gk ''e'', gk ''oi'', gk ''wn'', gk ''oij'', gk ''ouj'']"
| "noun_endings SecondOn =
     [gk ''on'', gk ''ou'', [0x1FF3], gk ''on'', gk ''on'', gk ''a'', gk ''wn'', gk ''oij'', gk ''a'']"
| "noun_endings ThirdConsonant =
     [[], gk ''oj'', gk ''i'', gk ''a'', [], gk ''ej'', gk ''wn'', gk ''si'', gk ''aj'']"
| "noun_endings ThirdSigma =
     [gk ''j'', gk ''ouj'', gk ''ei'', gk ''h'', gk ''ej'', gk ''h'', gk ''wn'', gk ''esi'', gk ''aj'']"
| "noun_endings ThirdNeuterT =
     [[], gk ''toj'', gk ''ti'', [], [], gk ''ta'', gk ''twn'', gk ''si'', gk ''ta'']"

definition noun_patterns :: "noun_pattern list" where
  "noun_patterns = [AlphaLong, AlphaShort, EtaStem, SecondOs, SecondOn,
                    ThirdConsonant, ThirdSigma, ThirdNeuterT]"

text \<open>\<open>present_endings\<close>, \<open>imperfect_endings\<close> and \<open>aorist_endings\<close>, six persons each.\<close>

definition omega_active :: "ustr list" where
  "omega_active = [gk ''w'', gk ''eij'', gk ''ei'', gk ''omen'', gk ''ete'', gk ''ousi'']"

definition omega_middle :: "ustr list" where
  "omega_middle = [gk ''omai'', [0x1FC3], gk ''etai'', gk ''omeqa'', gk ''esqe'', gk ''ontai'']"

definition mi_active :: "ustr list" where
  "mi_active = [gk ''mi'', gk ''j'', gk ''si'', gk ''men'', gk ''te'', gk ''asi'']"

definition contract_alpha :: "ustr list" where
  "contract_alpha = [[0x1FF6], [0x1FB7, 0x3C2], [0x1FB7], 0x1FF6 # gk ''men'', 0x1FB6 # gk ''te'',
                     0x1FF6 # gk ''si'']"

definition contract_epsilon :: "ustr list" where
  "contract_epsilon = [[0x1FF6], [0x3B5, 0x1FD6, 0x3C2], [0x3B5, 0x1FD6], 0x3BF # 0x1FE6 # gk ''men'',
                       0x3B5 # 0x1FD6 # gk ''te'', 0x3BF # 0x1FE6 # gk ''si'']"

definition contract_omicron :: "ustr list" where
  "contract_omicron = [[0x1FF6], [0x3BF, 0x1FD6, 0x3C2], [0x3BF, 0x1FD6], 0x3BF # 0x1FE6 # gk ''men'',
                       0x3BF # 0x1FE6 # gk ''te'', 0x3BF # 0x1FE6 # gk ''si'']"

definition imperfect_active :: "ustr list" where
  "imperfect_active = [gk ''on'', gk ''ej'', gk ''e'', gk ''omen'', gk ''ete'', gk ''on'']"

definition imperfect_middle :: "ustr list" where
  "imperfect_middle = [gk ''omhn'', gk ''ou'', gk ''eto'', gk ''omeqa'', gk ''esqe'', gk ''onto'']"

definition aorist_weak_active :: "ustr list" where
  "aorist_weak_active = [gk ''a'', gk ''aj'', gk ''e'', gk ''amen'', gk ''ate'', gk ''an'']"

definition aorist_strong_active :: "ustr list" where
  "aorist_strong_active = [gk ''on'', gk ''ej'', gk ''e'', gk ''omen'', gk ''ete'', gk ''on'']"

text \<open>
  \<open>irregular_verbs\<close>: the dictionary keys and forms as the source writes them, with
  breathings and circumflexes (U+1F10, U+1F26, U+1F30, U+1F34, U+1F36, U+1FC3).
\<close>

definition irregular_verbs :: "(ustr \<times> ustr list) list" where
  "irregular_verbs =
    [([0x3B5, 0x1F30, 0x3BC, 0x3B9],
      [[0x3B5, 0x1F30, 0x3BC, 0x3B9], [0x3B5, 0x1F36], 0x1F10 # gk ''sti'', 0x1F10 # gk ''smen'',
       0x1F10 # gk ''ste'', [0x3B5, 0x1F30, 0x3C3, 0x3B9], 0x1F26 # gk ''n'', [0x1F26, 0x3C2],
       0x1F26 # gk ''n'', 0x1F26 # gk ''men'', 0x1F26 # gk ''te'', 0x1F26 # gk ''san'']),
     (gk ''fhmi'',
      [gk ''fhmi'', [0x3C6, 0x1FC3, 0x3C2], gk ''fhsi'', gk ''famen'', gk ''fate'', gk ''fasi'']),
     ([0x3BF, 0x1F36, 0x3B4, 0x3B1],
      [[0x3BF, 0x1F36, 0x3B4, 0x3B1], 0x3BF # 0x1F36 # gk ''sqa'', [0x3BF, 0x1F36, 0x3B4, 0x3B5],
       0x1F34 # gk ''smen'', 0x1F34 # gk ''ste'', 0x1F34 # gk ''sasi'']),
     ([0x3B5, 0x1F36, 0x3BC, 0x3B9],
      [[0x3B5, 0x1F36, 0x3BC, 0x3B9], [0x3B5, 0x1F36], 0x3B5 # 0x1F36 # gk ''si'',
       0x1F34 # gk ''men'', 0x1F34 # gk ''te'', 0x1F34 # gk ''asi''])]"

section \<open>Nouns\<close>

text \<open>
  The candidate stems of \<open>generate_noun_forms\<close>: the normalised lemma, and the lemma
  without one nominative ending, tested in the code's \<open>elif\<close> order. The first test
  is \<open>endswith('o\<sigma>')\<close> with the final sigma U+03C2.
\<close>

definition noun_stems :: "ustr \<Rightarrow> ustr list" where
  "noun_stems nl =
     nl # (if py_endswith nl (gk ''oj'') then [py_drop_end 2 nl]
           else if py_endswith nl (gk ''h'') then [py_drop_end 1 nl]
           else if py_endswith nl (gk ''a'') then [py_drop_end 1 nl]
           else if py_endswith nl (gk ''on'') then [py_drop_end 2 nl]
           else [])"

text \<open>Every pattern, every stem of at least two code points, every ending of the pattern.\<close>

definition generate_noun_forms :: "ucd \<Rightarrow> ustr \<Rightarrow> ustr list" where
  "generate_noun_forms u lemma_raw =
     (let nl = lemmatizer_normalize u lemma_raw in
      concat (map (\<lambda>p. concat (map (\<lambda>stem.
          if 2 \<le> length stem then map (\<lambda>e. stem @ e) (noun_endings p) else [])
        (noun_stems nl))) noun_patterns))"

section \<open>Verbs\<close>

datatype verb_type = OmegaVerb | MiVerb

text \<open>The stem and verb type: \<open>-\<omega>\<close>, else \<open>-\<mu>\<iota>\<close>, else the infinitive \<open>-\<epsilon>\<iota>\<nu>\<close>.\<close>

definition verb_stem :: "ustr \<Rightarrow> ustr \<times> verb_type option" where
  "verb_stem nl =
     (if py_endswith nl (gk ''w'') then (py_drop_end 1 nl, Some OmegaVerb)
      else if py_endswith nl (gk ''mi'') then (py_drop_end 2 nl, Some MiVerb)
      else if py_endswith nl (gk ''ein'') then (py_drop_end 3 nl, Some OmegaVerb)
      else (nl, None))"

definition contract_forms :: "ustr \<Rightarrow> ustr list" where
  "contract_forms stem =
     (if py_endswith stem (gk ''a'') then map (\<lambda>e. py_drop_end 1 stem @ e) contract_alpha
      else if py_endswith stem (gk ''e'') then map (\<lambda>e. py_drop_end 1 stem @ e) contract_epsilon
      else if py_endswith stem (gk ''o'') then map (\<lambda>e. py_drop_end 1 stem @ e) contract_omicron
      else [])"

definition present_forms :: "verb_type \<Rightarrow> ustr \<Rightarrow> ustr list" where
  "present_forms vt stem =
     (case vt of
        OmegaVerb \<Rightarrow> map (\<lambda>e. stem @ e) omega_active @ map (\<lambda>e. stem @ e) omega_middle
                     @ contract_forms stem
      | MiVerb \<Rightarrow> map (\<lambda>e. stem @ e) mi_active)"

text \<open>The schematic augment: \<open>\<epsilon>\<close> before a stem that does not start with a vowel.\<close>

definition augment :: "ustr \<Rightarrow> ustr" where
  "augment stem =
     (if list_ex (py_startswith stem) [gk ''a'', gk ''e'', gk ''h'', gk ''i'', gk ''o'', gk ''u'', gk ''w'']
      then stem else gk ''e'' @ stem)"

definition past_forms :: "ustr \<Rightarrow> ustr list" where
  "past_forms stem =
     (let a = augment stem in
      map (\<lambda>e. a @ e) imperfect_active @ map (\<lambda>e. a @ e) imperfect_middle
      @ map (\<lambda>e. a @ gk ''s'' @ e) aorist_weak_active @ map (\<lambda>e. a @ e) aorist_strong_active)"

definition generate_verb_forms :: "ucd \<Rightarrow> ustr \<Rightarrow> ustr list" where
  "generate_verb_forms u lemma_raw =
     (let nl = lemmatizer_normalize u lemma_raw in
      case map_of irregular_verbs nl of
        Some fs \<Rightarrow> map (lemmatizer_normalize u) fs
      | None \<Rightarrow>
          (case verb_stem nl of
             (stem, None) \<Rightarrow> []
           | (stem, Some vt) \<Rightarrow>
               if length stem < 2 then [] else present_forms vt stem @ past_forms stem))"

section \<open>All forms\<close>

datatype pos_hint = PosNoun | PosVerb | PosAdjective | PosOther

text \<open>
  The filter \<open>len(form) >= 2 and re.match(r'^[\<alpha>-\<omega>\<dots>]+$', form)\<close>: the class holds
  U+03B1..U+03C9 and the seven tonos vowels; \<open>$\<close> also matches before one final
  newline.
\<close>

definition form_class_char :: "cp \<Rightarrow> bool" where
  "form_class_char c \<longleftrightarrow> (0x3B1 \<le> c \<and> c \<le> 0x3C9) \<or>
     c \<in> {0x3AC, 0x3AD, 0x3AE, 0x3AF, 0x3CC, 0x3CD, 0x3CE}"

definition regex_form_match :: "ustr \<Rightarrow> bool" where
  "regex_form_match f \<longleftrightarrow>
     (let body = (if f \<noteq> [] \<and> last f = 0x0A then butlast f else f) in
      body \<noteq> [] \<and> list_all form_class_char body)"

definition valid_form :: "ustr \<Rightarrow> bool" where
  "valid_form f \<longleftrightarrow> 2 \<le> length f \<and> regex_form_match f"

definition generate_all_forms :: "ucd \<Rightarrow> ustr \<Rightarrow> pos_hint option \<Rightarrow> ustr list" where
  "generate_all_forms u lemma_raw hint =
     filter valid_form
       (lemmatizer_normalize u lemma_raw #
        (if hint = Some PosVerb \<or> hint = None then generate_verb_forms u lemma_raw else []) @
        (if hint = Some PosNoun \<or> hint = Some PosAdjective \<or> hint = None
         then generate_noun_forms u lemma_raw else []))"

section \<open>Generated mappings\<close>

text \<open>An LSJ entry as \<open>create_lemma_mappings\<close> reads it.\<close>

record lsj_entry =
  headword :: ustr
  headword_normalized :: ustr

text \<open>
  \<open>create_lemma_mappings\<close>: one row per generated form other than the normalised
  headword, confidence 0.8, source \<open>generated\<close>; each form once per entry, as the
  iteration over the set gives it.
\<close>

definition entry_mappings :: "ucd \<Rightarrow> 'e lsj_entry_scheme \<Rightarrow> lemma_row list" where
  "entry_mappings u e =
     map (\<lambda>f. \<lparr>word_form = f, word_normalized = f, lemma_col = headword_normalized e,
               confidence = 0.8, source = ''generated'', morph_info = None\<rparr>)
       (filter (\<lambda>f. f \<noteq> headword_normalized e) (remdups (generate_all_forms u (headword e) None)))"

definition create_lemma_mappings :: "ucd \<Rightarrow> 'e lsj_entry_scheme list \<Rightarrow> lemma_row list" where
  "create_lemma_mappings u es = concat (map (entry_mappings u) es)"

section \<open>Properties of the synthesiser\<close>

lemma noun_stems_on: "noun_stems (s @ gk ''on'') = [s @ gk ''on'', s]"
  by (simp add: noun_stems_def py_simps greek_lit)

lemma valid_form_append:
  assumes "list_all form_class_char s" and "list_all form_class_char e" and "e \<noteq> []"
    and "2 \<le> length (s @ e)"
  shows "valid_form (s @ e)"
proof -
  have "last e \<in> set e" using assms(3) by (rule last_in_set)
  then have "form_class_char (last e)" using assms(2) by (simp add: list_all_iff)
  then have "last (s @ e) \<noteq> 0x0A" using assms(3) by (auto simp: form_class_char_def)
  with assms show ?thesis by (simp add: valid_form_def regex_form_match_def)
qed

lemma generate_noun_forms_mem:
  assumes "stem \<in> set (noun_stems (lemmatizer_normalize u raw))" and "2 \<le> length stem"
    and "p \<in> set noun_patterns" and "e \<in> set (noun_endings p)"
  shows "stem @ e \<in> set (generate_noun_forms u raw)"
  using assms by (auto simp: generate_noun_forms_def)

lemma generate_all_forms_noun:
  "f \<in> set (generate_noun_forms u raw) \<Longrightarrow> valid_form f \<Longrightarrow> f \<in> set (generate_all_forms u raw None)"
  by (simp add: generate_all_forms_def)

lemma irregular_keys:
  "map_of irregular_verbs k = Some fs \<Longrightarrow>
     k = [0x3B5, 0x1F30, 0x3BC, 0x3B9] \<or> k = gk ''fhmi'' \<or> k = [0x3BF, 0x1F36, 0x3B4, 0x3B1] \<or>
     k = [0x3B5, 0x1F36, 0x3BC, 0x3B9]"
  by (auto simp: irregular_verbs_def split: if_splits)

lemma unstable_not_in_lemmatizer:
  assumes "ucd_normal_stable u" and "keep_char u c" and "nfd u c \<noteq> [c]"
  shows "c \<notin> set (lemmatizer_normalize u s)"
  using assms lemmatizer_normalize_chars by (auto simp: char_stable_def)

lemma accented_ending_invalid:
  assumes "c \<in> set e" and "\<not> form_class_char c" and "e \<noteq> []" and "last e \<noteq> 0x0A"
  shows "\<not> valid_form (s @ e)"
  using assms by (auto simp: valid_form_def regex_form_match_def list_all_iff)

lemma accented_endings_char:
  "e \<in> set (contract_alpha @ contract_epsilon @ contract_omicron @ [[0x1FB3], [0x1FC3], [0x1FF3]]) \<Longrightarrow>
     (\<exists>c \<in> set e. \<not> form_class_char c) \<and> e \<noteq> [] \<and> last e \<noteq> 0x0A"
  by (auto simp: contract_alpha_def contract_epsilon_def contract_omicron_def form_class_char_def
      greek_lit)

lemma entry_mappings_rows:
  "r \<in> set (entry_mappings u e) \<Longrightarrow>
     word_form r \<in> set (generate_all_forms u (headword e) None) \<and>
     word_form r \<noteq> headword_normalized e \<and> lemma_col r = headword_normalized e \<and>
     word_normalized r = word_form r \<and> confidence r = 0.8 \<and> source r = ''generated''"
  by (auto simp: entry_mappings_def)

lemma create_lemma_mappings_rows:
  "r \<in> set (create_lemma_mappings u es) \<Longrightarrow>
     \<exists>e \<in> set es. word_form r \<in> set (generate_all_forms u (headword e) None) \<and>
       word_form r \<noteq> headword_normalized e \<and> lemma_col r = headword_normalized e \<and>
       word_normalized r = word_form r \<and> confidence r = 0.8 \<and> source r = ''generated''"
proof -
  assume "r \<in> set (create_lemma_mappings u es)"
  then obtain e where "e \<in> set es" and "r \<in> set (entry_mappings u e)"
    by (auto simp: create_lemma_mappings_def)
  then show ?thesis using entry_mappings_rows by blast
qed

lemmas synth_eval = generate_all_forms_def generate_noun_forms_def generate_verb_forms_def
  noun_stems_def noun_patterns_def verb_stem_def irregular_verbs_def lemmatizer_normalize_def
  nfd_str_def drop_combining_def lower_str_def final_sigma_to_medial_def greek_ucd_def greek_nfd_def
  greek_basic_decomp_def ext_assigned_def greek_late_decomp_def greek_combining_def greek_lower_def
  py_simps greek_lit Let_def

text \<open>
  The first stem rule of \<open>generate_noun_forms\<close>,
  \<open>endswith('o\<sigma>')\<close> with the final sigma, never fires: the lemmatiser's normaliser has
  already turned every final sigma into a medial one, so second-declension lemmas in
  \<open>-o\<sigma>\<close> are never stripped to their stem.
\<close>

theorem synth_os_branch_dead: "\<not> py_endswith (lemmatizer_normalize u raw) (gk ''oj'')"
proof
  assume "py_endswith (lemmatizer_normalize u raw) (gk ''oj'')"
  then have "last (gk ''oj'') \<in> set (lemmatizer_normalize u raw)"
    by (rule py_endswith_last) (simp add: greek_lit)
  then have "sigma_final \<in> set (lemmatizer_normalize u raw)" by (simp add: greek_lit)
  then show False by (simp add: lemmatizer_normalize_no_final_sigma)
qed

text \<open>
  Consequently the genitive \<open>\<lambda>o\<gamma>o\<upsilon>\<close> is not among the
  forms synthesised for the headword \<open>\<lambda>\<acute>o\<gamma>o\<sigma>\<close> (U+03BB U+03CC U+03B3 U+03BF U+03C2),
  which the specification's second scenario requires.
\<close>

theorem synth_logou_missing:
  "gk ''logou'' \<notin> set (generate_all_forms greek_ucd [0x3BB, 0x3CC, 0x3B3, 0x3BF, 0x3C2] None)"
  by (simp add: synth_eval)

text \<open>
  The keys of \<open>irregular_verbs\<close> keep their
  breathings and circumflexes, while the looked-up lemma is normalised; for a character
  database that decomposes U+1F30 and U+1F36, as Unicode does, only \<open>\<phi>\<eta>\<mu>\<iota>\<close> can ever be
  found, and the verbs "to be", "to know" and "to go" are synthesised as regular verbs.
\<close>

theorem synth_irregular_unreachable:
  assumes "ucd_normal_stable u"
    and "isalpha u 0x1F30" and "nfd u 0x1F30 \<noteq> [0x1F30]"
    and "isalpha u 0x1F36" and "nfd u 0x1F36 \<noteq> [0x1F36]"
  shows "map_of irregular_verbs (lemmatizer_normalize u raw) = None \<or>
         lemmatizer_normalize u raw = gk ''fhmi''"
proof (cases "map_of irregular_verbs (lemmatizer_normalize u raw)")
  case None
  then show ?thesis by simp
next
  case (Some fs)
  have k: "keep_char u 0x1F30" "keep_char u 0x1F36"
    using assms(2,4) by (simp_all add: keep_char_def greek_range_def)
  have "0x1F30 \<notin> set (lemmatizer_normalize u raw)"
    by (rule unstable_not_in_lemmatizer [OF assms(1) k(1) assms(3)])
  moreover have "0x1F36 \<notin> set (lemmatizer_normalize u raw)"
    by (rule unstable_not_in_lemmatizer [OF assms(1) k(2) assms(5)])
  ultimately show ?thesis using irregular_keys [OF Some] by auto
qed

theorem synth_irregular_unreachable_witness:
  "map_of irregular_verbs (lemmatizer_normalize greek_ucd [0x3B5, 0x1F30, 0x3BC, 0x3B9]) = None \<or>
   lemmatizer_normalize greek_ucd [0x3B5, 0x1F30, 0x3BC, 0x3B9] = gk ''fhmi''"
proof -
  have "isalpha greek_ucd 0x1F30" "nfd greek_ucd 0x1F30 \<noteq> [0x1F30]"
       "isalpha greek_ucd 0x1F36" "nfd greek_ucd 0x1F36 \<noteq> [0x1F36]"
    by (simp_all add: greek_ucd_def greek_isalpha_def ext_assigned_def greek_nfd_def
        greek_basic_decomp_def ext_decomp_def ext_col_marks_def)
  then show ?thesis using synth_irregular_unreachable [OF greek_ucd_normal_stable] by blast
qed

text \<open>
  Every contract-verb ending and every dative cell
  with iota subscript is written with a precomposed accented code point outside the
  filter's class, so no form built with one survives \<open>generate_all_forms\<close>.
\<close>

theorem synth_accented_cells_dropped:
  assumes "e \<in> set (contract_alpha @ contract_epsilon @ contract_omicron @ [[0x1FB3], [0x1FC3], [0x1FF3]])"
  shows "s @ e \<notin> set (generate_all_forms u raw h)"
proof -
  from accented_endings_char [OF assms] obtain c where
    "c \<in> set e" "\<not> form_class_char c" "e \<noteq> []" "last e \<noteq> 0x0A" by blast
  then have "\<not> valid_form (s @ e)" by (rule accented_ending_invalid)
  then show ?thesis by (auto simp: generate_all_forms_def)
qed

theorem synth_accented_cells_dropped_witness:
  "[0x3B5, 0x1FD6] \<in> set (contract_alpha @ contract_epsilon @ contract_omicron @ [[0x1FB3], [0x1FC3], [0x1FF3]]) \<and>
   gk ''poi'' @ [0x3B5, 0x1FD6] \<notin> set (generate_all_forms greek_ucd (gk ''poiew'') None)"
proof -
  have m: "[0x3B5, 0x1FD6] \<in> set (contract_alpha @ contract_epsilon @ contract_omicron @ [[0x1FB3], [0x1FC3], [0x1FF3]])"
    by (simp add: contract_epsilon_def)
  show ?thesis using m synth_accented_cells_dropped [OF m] by blast
qed

text \<open>
  A generated row whose form keeps a final
  sigma (every form built with an ending such as \<open>-\<alpha>\<sigma>\<close> or \<open>-o\<iota>\<sigma>\<close>) can never be
  found: no normalised word, the key every lookup uses, equals its form.
\<close>

theorem synth_final_sigma_rows_unreachable:
  assumes "r \<in> set (create_lemma_mappings u es)" and "sigma_final \<in> set (word_form r)"
  shows "normalize_greek u' raw \<noteq> word_form r"
  using assms(2) normalize_greek_chars_kept [of sigma_final u' raw] by auto

theorem synth_final_sigma_rows_unreachable_witness:
  "\<lparr>word_form = gk ''ghaj'', word_normalized = gk ''ghaj'', lemma_col = gk ''gh'', confidence = 0.8,
     source = ''generated'', morph_info = None\<rparr>
     \<in> set (create_lemma_mappings greek_ucd
              [\<lparr>headword = [0x3B3, 0x1FC6], headword_normalized = gk ''gh''\<rparr>]) \<and>
   sigma_final \<in> set (gk ''ghaj'') \<and>
   normalize_greek greek_ucd (gk ''ghaj'') \<noteq> gk ''ghaj''"
proof -
  let ?r = "\<lparr>word_form = gk ''ghaj'', word_normalized = gk ''ghaj'', lemma_col = gk ''gh'',
             confidence = 0.8, source = ''generated'', morph_info = None\<rparr>"
  have m: "?r \<in> set (create_lemma_mappings greek_ucd
                        [\<lparr>headword = [0x3B3, 0x1FC6], headword_normalized = gk ''gh''\<rparr>])"
    by (simp add: create_lemma_mappings_def entry_mappings_def synth_eval valid_form_def
        regex_form_match_def form_class_char_def)
  have f: "sigma_final \<in> set (word_form ?r)" by (simp add: greek_lit)
  show ?thesis using m f synth_final_sigma_rows_unreachable [OF m f, of greek_ucd "gk ''ghaj''"]
    by (simp add: greek_lit)
qed

end
