(* ===== verification/Resolver.thy ===== *)
theory Resolver
  imports Synthesizer
begin

text \<open>
  The candidate resolver: the body of the loop over words in
  \<open>generate_comprehensive_lemmatization\<close> (\<open>src/data-prep/create_perseus_database.py\<close>,
  lines 2230-2436). For a normalised word and the set \<open>valid_lemmas\<close> of normalised
  headwords it collects \<open>found_lemmas\<close> by seven rules, all of them tried, and gives
  each found lemma a confidence computed afterwards from the word and the lemma alone.
  Each rule is a function returning the lemmas it adds, in the code's order; the set
  \<open>found_lemmas\<close> is the \<open>set\<close> of their concatenation. All endings here are written
  with the medial sigma (\<open>gk ''s''\<close>), as the source writes them.
\<close>

section \<open>Tables\<close>

definition endings_to_remove :: "ustr list" where
  "endings_to_remove = map gk
    [''wn'', ''ou'', ''w'', ''on'', ''e'', ''a'', ''as'', ''hs'', ''h'', ''an'', ''hn'',
     ''oi'', ''wn'', ''ois'', ''ous'', ''ai'', ''wn'', ''ais'', ''as'',
     ''os'', ''es'', ''i'', ''si'', ''twn'', ''tos'', ''ths'', ''ton'', ''thn'', ''ta'', ''tai'',
     ''ei'', ''eis'', ''omen'', ''ete'', ''ousi'', ''ousin'',
     ''omai'', ''etai'', ''omeqa'', ''esqe'', ''ontai'',
     ''sw'', ''seis'', ''sei'', ''somen'', ''sete'', ''sousi'',
     ''sa'', ''sas'', ''se'', ''samen'', ''sate'', ''san'',
     ''ka'', ''kas'', ''ke'', ''kamen'', ''kate'', ''kasi'',
     ''menos'', ''menh'', ''menon'', ''menou'', ''menhs'', ''menw'',
     ''ntos'', ''nti'', ''nta'', ''ntes'', ''ntwn'',
     ''qeis'', ''qentos'', ''qenti'', ''qenta'', ''qentes'', ''qentwn'',
     ''qeisa'', ''qeisan'', ''qen'', ''qenta'']"

definition dict_endings :: "ustr list" where
  "dict_endings = map gk [''os'', ''h'', ''on'', ''a'', ''w'', ''hmi'', ''mi'']"

definition patronymic_endings :: "(ustr \<times> ustr) list" where
  "patronymic_endings = map (\<lambda>(p, n). (gk p, gk n))
    [(''idhs'', ''eus''), (''iadhs'', ''eus''), (''idou'', ''eus''), (''iadew'', ''eus''),
     (''idh'', ''eus''), (''iadh'', ''eus''), (''ida'', ''eus''), (''iada'', ''eus''),
     (''idhs'', ''os''), (''iadhs'', ''os''), (''idhs'', ''hs''), (''iadhs'', ''hs'')]"

section \<open>The rules\<close>

text \<open>Rule 1, the word itself; rule 2, the word with a dictionary ending (elided forms).\<close>

definition rule_exact :: "ustr set \<Rightarrow> ustr \<Rightarrow> ustr list" where
  "rule_exact valid w = (if w \<in> valid then [w] else [])"

definition rule_suffix_add :: "ustr set \<Rightarrow> ustr \<Rightarrow> ustr list" where
  "rule_suffix_add valid w = filter (\<lambda>c. c \<in> valid) (map (\<lambda>d. w @ d) dict_endings)"

text \<open>
  Rule 3: strip an inflectional ending when the word is longer than the ending by more
  than two code points; try the stem and the stem with each dictionary ending.
\<close>

definition strip_candidates :: "ustr \<Rightarrow> ustr \<Rightarrow> ustr list" where
  "strip_candidates w e =
     (if py_endswith w e \<and> length w > length e + 2
      then (let stem = py_drop_end (length e) w in stem # map (\<lambda>d. stem @ d) dict_endings)
      else [])"

definition rule_stem_strip :: "ustr set \<Rightarrow> ustr \<Rightarrow> ustr list" where
  "rule_stem_strip valid w =
     filter (\<lambda>c. c \<in> valid) (concat (map (strip_candidates w) endings_to_remove))"

text \<open>Rule 4: drop the augment \<open>\<epsilon>\<close>; \<open>\<epsilon>\<theta>-\<close> also proposes \<open>\<tau>\<iota>\<theta>\<eta>\<mu>\<iota>\<close>.\<close>

definition rule_augment :: "ustr set \<Rightarrow> ustr \<Rightarrow> ustr list" where
  "rule_augment valid w =
     (if py_startswith w (gk ''e'') \<and> length w > 3
      then (if drop 1 w \<in> valid then [drop 1 w] else []) @
           (if py_startswith w (gk ''eq'') \<and> gk ''tiqhmi'' \<in> valid then [gk ''tiqhmi''] else [])
      else [])"

text \<open>Rule 5: aorist passive participles in \<open>-\<theta>\<epsilon>\<iota>\<sigma>\<close>.\<close>

definition rule_theta_participle :: "ustr set \<Rightarrow> ustr \<Rightarrow> ustr list" where
  "rule_theta_participle valid w =
     (if py_endswith w (gk ''qeis'') \<and> length w > 4
      then (let stem = py_drop_end 4 w in
            filter (\<lambda>c. c \<in> valid)
              ((if py_endswith stem (gk ''w'') then [py_drop_end 1 stem @ gk ''ow''] else []) @
               map (\<lambda>v. stem @ v) (map gk [''w'', ''ew'', ''aw'', ''ow'', ''uw''])))
      else [])"

text \<open>
  Rule 6, patronymics, one table row at a time: the vowel rule (\<open>\<eta>\<close> dropped or
  turned into \<open>\<epsilon>\<close>), the base with the name ending, and the patronymic itself with
  its genitive ending \<open>-\<upsilon>\<close>/\<open>-\<omega>\<close> turned into \<open>-\<sigma>\<close>. The code's further rewrite
  of a final \<open>-\<eta>\<sigma>\<close> replaces the last code point by itself and is the identity.
\<close>

definition patronymic_vowel_candidate :: "ustr \<Rightarrow> ustr \<Rightarrow> ustr list" where
  "patronymic_vowel_candidate base name =
     (if py_endswith base (gk ''h'') \<and> name = gk ''eus'' then [py_drop_end 1 base @ name]
      else if py_endswith base (gk ''e'') \<and> name = gk ''eus'' then [base @ gk ''us'']
      else if py_endswith base (gk ''h'') then [py_drop_end 1 base @ gk ''e'' @ name]
      else [])"

definition patronymic_nominative :: "ustr \<Rightarrow> ustr" where
  "patronymic_nominative w =
     (let n = (if py_endswith w (gk ''ou'') \<or> py_endswith w (gk ''ew'') then py_drop_end 1 w @ gk ''s''
               else w)
      in if py_endswith n (gk ''hs'') then py_drop_end 1 n @ gk ''s'' else n)"

definition patronymic_candidates :: "ustr \<Rightarrow> ustr \<times> ustr \<Rightarrow> ustr list" where
  "patronymic_candidates w pn =
     (case pn of (pat, name) \<Rightarrow>
        if py_endswith w pat \<and> length w > length pat + 2
        then (let base = py_drop_end (length pat) w in
              patronymic_vowel_candidate base name @ [base @ name, patronymic_nominative w])
        else [])"

definition rule_patronymic :: "ustr set \<Rightarrow> ustr \<Rightarrow> ustr list" where
  "rule_patronymic valid w =
     filter (\<lambda>c. c \<in> valid) (concat (map (patronymic_candidates w) patronymic_endings))"

text \<open>Rule 7: epic genitives in \<open>-\<eta>\<omicron>\<sigma>\<close> of names in \<open>-\<epsilon>\<upsilon>\<sigma>\<close>, with a doubled liquid.\<close>

definition rule_eta_os :: "ustr set \<Rightarrow> ustr \<Rightarrow> ustr list" where
  "rule_eta_os valid w =
     (if py_endswith w (gk ''hos'')
      then (let base = py_drop_end 3 w in
            filter (\<lambda>c. c \<in> valid)
              ([base @ gk ''eus''] @
               (if base \<noteq> [] \<and> last base \<in> set (gk ''lmnr'') then [base @ [last base] @ gk ''eus''] else [])))
      else [])"

definition found_lemmas :: "ustr set \<Rightarrow> ustr \<Rightarrow> ustr list" where
  "found_lemmas valid w =
     rule_exact valid w @ rule_suffix_add valid w @ rule_stem_strip valid w @ rule_augment valid w @
     rule_theta_participle valid w @ rule_patronymic valid w @ rule_eta_os valid w"

section \<open>Confidence\<close>

text \<open>The confidence policy, applied to each found lemma in this order.\<close>

definition lemma_confidence :: "ustr \<Rightarrow> ustr \<Rightarrow> real" where
  "lemma_confidence w l =
     (if l = w then 0.9
      else if w @ gk ''os'' = l \<or> w @ gk ''h'' = l \<or> w @ gk ''on'' = l then 0.7
      else if py_endswith l (gk ''eus'') \<and> list_ex (\<lambda>(p, n). py_endswith w p) patronymic_endings
      then 0.75
      else if length l < length w then 0.6
      else 0.5)"

text \<open>The resolver's answer for one word: each distinct found lemma with its confidence.\<close>

definition resolve :: "ustr set \<Rightarrow> ustr \<Rightarrow> (ustr \<times> real) list" where
  "resolve valid w = map (\<lambda>l. (l, lemma_confidence w l)) (remdups (found_lemmas valid w))"

text \<open>The rows the loop inserts for one word (source \<open>algorithmic\<close>).\<close>

definition resolver_rows :: "ustr set \<Rightarrow> ustr \<Rightarrow> lemma_row list" where
  "resolver_rows valid w =
     map (\<lambda>(l, c). \<lparr>word_form = w, word_normalized = w, lemma_col = l, confidence = c,
                    source = ''algorithmic'', morph_info = None\<rparr>) (resolve valid w)"

section \<open>Properties of the resolver\<close>

text \<open>The tables as code points, so that concrete words evaluate quickly.\<close>

lemma endings_to_remove_cps:
  "endings_to_remove =
    [[969, 957], [959, 965], [969], [959, 957], [949], [945], [945, 963], [951, 963], [951], 
     [945, 957], [951, 957], [959, 953], [969, 957], [959, 953, 963], [959, 965, 963], 
     [945, 953], [969, 957], [945, 953, 963], [945, 963], [959, 963], [949, 963], [953], 
     [963, 953], [964, 969, 957], [964, 959, 963], [964, 951, 963], [964, 959, 957], 
     [964, 951, 957], [964, 945], [964, 945, 953], [949, 953], [949, 953, 963], 
     [959, 956, 949, 957], [949, 964, 949], [959, 965, 963, 953], [959, 965, 963, 953, 957], 
     [959, 956, 945, 953], [949, 964, 945, 953], [959, 956, 949, 952, 945], 
     [949, 963, 952, 949], [959, 957, 964, 945, 953], [963, 969], [963, 949, 953, 963], 
     [963, 949, 953], [963, 959, 956, 949, 957], [963, 949, 964, 949], 
     [963, 959, 965, 963, 953], [963, 945], [963, 945, 963], [963, 949], 
     [963, 945, 956, 949, 957], [963, 945, 964, 949], [963, 945, 957], [954, 945], 
     [954, 945, 963], [954, 949], [954, 945, 956, 949, 957], [954, 945, 964, 949], 
     [954, 945, 963, 953], [956, 949, 957, 959, 963], [956, 949, 957, 951], 
     [956, 949, 957, 959, 957], [956, 949, 957, 959, 965], [956, 949, 957, 951, 963], 
     [956, 949, 957, 969], [957, 964, 959, 963], [957, 964, 953], [957, 964, 945], 
     [957, 964, 949, 963], [957, 964, 969, 957], [952, 949, 953, 963], 
     [952, 949, 957, 964, 959, 963], [952, 949, 957, 964, 953], [952, 949, 957, 964, 945], 
     [952, 949, 957, 964, 949, 963], [952, 949, 957, 964, 969, 957], 
     [952, 949, 953, 963, 945], [952, 949, 953, 963, 945, 957], [952, 949, 957], 
     [952, 949, 957, 964, 945]]"
  by (simp add: endings_to_remove_def greek_lit)

lemma dict_endings_cps: "dict_endings = [[959, 963], [951], [959, 957], [945], [969], [951, 956, 953], [956, 953]]"
  by (simp add: dict_endings_def greek_lit)

lemma patronymic_endings_cps:
  "patronymic_endings =
    [([953, 948, 951, 963], [949, 965, 963]), ([953, 945, 948, 951, 963], [949, 965, 963]), 
     ([953, 948, 959, 965], [949, 965, 963]), ([953, 945, 948, 949, 969], [949, 965, 963]), 
     ([953, 948, 951], [949, 965, 963]), ([953, 945, 948, 951], [949, 965, 963]), 
     ([953, 948, 945], [949, 965, 963]), ([953, 945, 948, 945], [949, 965, 963]), 
     ([953, 948, 951, 963], [959, 963]), ([953, 945, 948, 951, 963], [959, 963]), 
     ([953, 948, 951, 963], [951, 963]), ([953, 945, 948, 951, 963], [951, 963])]"
  by (simp add: patronymic_endings_def greek_lit)

lemmas resolver_eval = resolve_def found_lemmas_def rule_exact_def rule_suffix_add_def
  rule_stem_strip_def strip_candidates_def endings_to_remove_cps dict_endings_cps rule_augment_def
  rule_theta_participle_def rule_patronymic_def patronymic_endings_cps patronymic_candidates_def
  patronymic_vowel_candidate_def patronymic_nominative_def rule_eta_os_def lemma_confidence_def
  resolver_rows_def py_simps greek_lit

lemma found_lemmas_valid: "set (found_lemmas valid w) \<subseteq> valid"
  by (auto simp: found_lemmas_def rule_exact_def rule_suffix_add_def rule_stem_strip_def
      rule_augment_def rule_theta_participle_def rule_patronymic_def rule_eta_os_def Let_def
      split: if_splits)

lemma lemma_confidence_cases:
  "lemma_confidence w l \<in> {0.5, 0.6, 0.7, 0.75, 0.9}"
  by (simp add: lemma_confidence_def)

lemma set_resolve:
  "set (resolve valid w) = (\<lambda>l. (l, lemma_confidence w l)) ` set (found_lemmas valid w)"
  by (simp add: resolve_def)

lemma endings_to_remove_nonempty: "e \<in> set endings_to_remove \<Longrightarrow> e \<noteq> []"
  by (auto simp: endings_to_remove_cps)

lemma strip_candidates_stem:
  assumes "e \<noteq> []" and "3 \<le> length s"
  shows "set (strip_candidates (s @ e) e) = set (s # map (\<lambda>d. s @ d) dict_endings)"
  using assms by (simp add: strip_candidates_def)

lemma rule_stem_strip_complete:
  assumes "e \<in> set endings_to_remove" and "3 \<le> length s"
    and "c \<in> set (s # map (\<lambda>d. s @ d) dict_endings)" and "c \<in> valid"
  shows "c \<in> set (found_lemmas valid (s @ e))"
proof -
  have "c \<in> set (strip_candidates (s @ e) e)"
    using assms strip_candidates_stem [OF endings_to_remove_nonempty [OF assms(1)] assms(2)] by simp
  with assms(1,4) have "c \<in> set (rule_stem_strip valid (s @ e))"
    by (auto simp: rule_stem_strip_def)
  then show ?thesis by (simp add: found_lemmas_def)
qed

lemma resolver_rows_sound:
  "r \<in> set (resolver_rows valid w) \<Longrightarrow>
     word_form r = w \<and> lemma_col r \<in> set (found_lemmas valid w) \<and>
     confidence r = lemma_confidence w (lemma_col r) \<and> source r = ''algorithmic''"
  by (auto simp: resolver_rows_def resolve_def)

lemma resolver_rows_exact:
  "w \<in> valid \<Longrightarrow> (w, w) \<in> key_of ` set (resolver_rows valid w)"
proof -
  assume "w \<in> valid"
  then have "w \<in> set (found_lemmas valid w)" by (simp add: found_lemmas_def rule_exact_def)
  then show ?thesis by (force simp: resolver_rows_def resolve_def key_of_def)
qed

lemma second_on_resolvable_endings:
  "e \<in> set (noun_endings SecondOn) \<Longrightarrow> e \<in> set endings_to_remove \<Longrightarrow>
     e \<noteq> [] \<and> list_all form_class_char e"
  by (auto simp: endings_to_remove_cps greek_lit form_class_char_def)

lemma dwron_normal:
  "lemmatizer_normalize greek_ucd [0x3B4, 0x1FF6, 0x3C1, 0x3BF, 0x3BD] = gk ''dwr'' @ gk ''on''"
  by (simp add: lemmatizer_normalize_def nfd_str_def drop_combining_def lower_str_def
      final_sigma_to_medial_def greek_ucd_def greek_nfd_def greek_basic_decomp_def
      ext_assigned_def greek_late_decomp_def greek_combining_def greek_lower_def greek_lit)

text \<open>
  C22: every candidate the resolver returns is a headword: the
  transformations that produce a string outside the headword set are discarded.
\<close>

theorem resolve_sound:
  assumes "(l, c) \<in> set (resolve valid w)"
  shows "l \<in> valid"
  using assms found_lemmas_valid by (auto simp: set_resolve)

theorem resolve_sound_witness:
  "(gk ''logos'', 0.5) \<in> set (resolve {gk ''logos''} (gk ''logou'')) \<and> gk ''logos'' \<in> {gk ''logos''}"
proof -
  have m: "(gk ''logos'', 0.5) \<in> set (resolve {gk ''logos''} (gk ''logou''))"
    by (simp add: resolver_eval)
  show ?thesis using m resolve_sound [OF m] by blast
qed

text \<open>
  A headword resolves to itself with confidence 0.9, whatever else
  it resolves to.
\<close>

theorem resolve_exact:
  assumes "w \<in> valid"
  shows "(w, 0.9) \<in> set (resolve valid w)"
proof -
  from assms have "w \<in> set (found_lemmas valid w)" by (simp add: found_lemmas_def rule_exact_def)
  moreover have "lemma_confidence w w = 0.9" by (simp add: lemma_confidence_def)
  ultimately show ?thesis by (force simp: set_resolve)
qed

theorem resolve_exact_witness:
  "gk ''mala'' \<in> {gk ''mala'', gk ''malista''} \<and>
   (gk ''mala'', 0.9) \<in> set (resolve {gk ''mala'', gk ''malista''} (gk ''mala''))"
  using resolve_exact [of "gk ''mala''" "{gk ''mala'', gk ''malista''}"] by simp

text \<open>
  For the genitive \<open>\<lambda>o\<gamma>o\<upsilon>\<close> and the headword \<open>\<lambda>o\<gamma>o\<sigma>\<close> the
  resolver strips \<open>-o\<upsilon>\<close> and finds \<open>\<lambda>o\<gamma>o\<sigma>\<close>, but with confidence 0.5, not the 0.6 the
  specification's second scenario states: the policy gives 0.6 only to a lemma shorter
  than the word, and \<open>\<lambda>o\<gamma>o\<sigma>\<close> is as long as \<open>\<lambda>o\<gamma>o\<upsilon>\<close>.
\<close>

theorem resolve_logou:
  "resolve {gk ''logos''} (gk ''logou'') = [(gk ''logos'', 0.5)]"
  by (simp add: resolver_eval)

text \<open>
  A string that is no Greek word, \<open>\<xi>\<psi>\<zeta>\<close>, yields the
  empty list, not an error, unless the headwords contain it or one of its seven
  dictionary-ending extensions.
\<close>

theorem resolve_nonword_empty:
  "resolve valid (gk ''cyz'') = [] \<longleftrightarrow>
     set (gk ''cyz'' # map (\<lambda>d. gk ''cyz'' @ d) dict_endings) \<inter> valid = {}"
  by (auto simp: resolver_eval filter_empty_conv)

text \<open>
  Stem stripping inverts inflection: a word made of a
  stem of at least three code points and one of the inflectional endings resolves to
  the stem, and to the stem with any dictionary ending, whenever that is a headword.
\<close>

theorem resolve_strip_complete:
  assumes "e \<in> set endings_to_remove" and "3 \<le> length s"
    and "c \<in> set (s # map (\<lambda>d. s @ d) dict_endings)" and "c \<in> valid"
  shows "(c, lemma_confidence (s @ e) c) \<in> set (resolve valid (s @ e))"
  using rule_stem_strip_complete [OF assms] by (simp add: set_resolve)

theorem resolve_strip_complete_witness:
  "gk ''omen'' \<in> set endings_to_remove \<and> 3 \<le> length (gk ''paideu'') \<and>
   gk ''paideuw'' \<in> set (gk ''paideu'' # map (\<lambda>d. gk ''paideu'' @ d) dict_endings) \<and> gk ''paideuw'' \<in> {gk ''paideuw''} \<and>
   (gk ''paideuw'', lemma_confidence (gk ''paideu'' @ gk ''omen'') (gk ''paideuw''))
     \<in> set (resolve {gk ''paideuw''} (gk ''paideu'' @ gk ''omen''))"
proof -
  have h: "gk ''omen'' \<in> set endings_to_remove" "3 \<le> length (gk ''paideu'')"
    "gk ''paideuw'' \<in> set (gk ''paideu'' # map (\<lambda>d. gk ''paideu'' @ d) dict_endings)" "gk ''paideuw'' \<in> {gk ''paideuw''}"
    by (simp_all add: endings_to_remove_cps dict_endings_cps greek_lit)
  show ?thesis using h resolve_strip_complete [OF h] by blast
qed

text \<open>
  C24: the round trip of a regular paradigm, for a
  neuter in \<open>-o\<nu>\<close> with a stem of at least three Greek letters: every form the
  synthesiser builds with a case ending the resolver also knows is produced, and
  resolves back to the headword with confidence at least 0.5.
\<close>

theorem synth_resolve_roundtrip_neuter:
  assumes nl: "lemmatizer_normalize u raw = s @ gk ''on''" and len: "3 \<le> length s"
    and cls: "list_all form_class_char s" and hw: "s @ gk ''on'' \<in> valid"
    and e: "e \<in> set (noun_endings SecondOn)" and strip: "e \<in> set endings_to_remove"
  shows "s @ e \<in> set (generate_all_forms u raw None) \<and>
         (s @ gk ''on'', lemma_confidence (s @ e) (s @ gk ''on'')) \<in> set (resolve valid (s @ e)) \<and>
         0.5 \<le> lemma_confidence (s @ e) (s @ gk ''on'')"
proof (intro conjI)
  have ee: "e \<noteq> [] \<and> list_all form_class_char e"
    using e strip by (rule second_on_resolvable_endings)
  have "s \<in> set (noun_stems (lemmatizer_normalize u raw))" by (simp add: nl noun_stems_on)
  moreover have "SecondOn \<in> set noun_patterns" by (simp add: noun_patterns_def)
  ultimately have "s @ e \<in> set (generate_noun_forms u raw)"
    using len e by (intro generate_noun_forms_mem) auto
  moreover have "valid_form (s @ e)" using cls ee len by (intro valid_form_append) auto
  ultimately show "s @ e \<in> set (generate_all_forms u raw None)" by (rule generate_all_forms_noun)
  have "gk ''on'' \<in> set dict_endings" by (simp add: dict_endings_def)
  then have "s @ gk ''on'' \<in> set (found_lemmas valid (s @ e))"
    using strip len hw by (intro rule_stem_strip_complete) auto
  then show "(s @ gk ''on'', lemma_confidence (s @ e) (s @ gk ''on'')) \<in> set (resolve valid (s @ e))"
    by (simp add: set_resolve)
  show "0.5 \<le> lemma_confidence (s @ e) (s @ gk ''on'')"
    using lemma_confidence_cases [of "s @ e" "s @ gk ''on''"] by auto
qed

theorem synth_resolve_roundtrip_neuter_witness:
  "gk ''dwr'' @ gk ''ou'' \<in> set (generate_all_forms greek_ucd [0x3B4, 0x1FF6, 0x3C1, 0x3BF, 0x3BD] None) \<and>
   (gk ''dwr'' @ gk ''on'', lemma_confidence (gk ''dwr'' @ gk ''ou'') (gk ''dwr'' @ gk ''on''))
     \<in> set (resolve {gk ''dwron''} (gk ''dwr'' @ gk ''ou'')) \<and>
   0.5 \<le> lemma_confidence (gk ''dwr'' @ gk ''ou'') (gk ''dwr'' @ gk ''on'')"
proof -
  have "3 \<le> length (gk ''dwr'')" "list_all form_class_char (gk ''dwr'')"
    "gk ''dwr'' @ gk ''on'' \<in> {gk ''dwron''}" "gk ''ou'' \<in> set (noun_endings SecondOn)"
    "gk ''ou'' \<in> set endings_to_remove"
    by (simp_all add: greek_lit form_class_char_def endings_to_remove_cps)
  then show ?thesis using synth_resolve_roundtrip_neuter [OF dwron_normal] by blast
qed

text \<open>
  The round trip fails for the cells written with
  a final sigma: the dative plural \<open>\<delta>\<omega>\<rho>o\<iota>\<sigma>\<close> (final U+03C2) is synthesised for
  \<open>\<delta>\<tilde>\<omega>\<rho>o\<nu>\<close>, and the resolver, whose endings carry the medial sigma, finds nothing for
  it, not even the headword.
\<close>

theorem synth_resolve_final_sigma_gap:
  "gk ''dwroij'' \<in> set (generate_all_forms greek_ucd [0x3B4, 0x1FF6, 0x3C1, 0x3BF, 0x3BD] None) \<and>
   resolve {gk ''dwron''} (gk ''dwroij'') = []"
proof
  show "gk ''dwroij'' \<in> set (generate_all_forms greek_ucd [0x3B4, 0x1FF6, 0x3C1, 0x3BF, 0x3BD] None)"
  proof -
    have "gk ''dwr'' \<in> set (noun_stems (lemmatizer_normalize greek_ucd [0x3B4, 0x1FF6, 0x3C1, 0x3BF, 0x3BD]))"
      by (simp add: dwron_normal noun_stems_on)
    moreover have "2 \<le> length (gk ''dwr'')" by (simp add: greek_lit)
    moreover have "SecondOn \<in> set noun_patterns" by (simp add: noun_patterns_def)
    moreover have "gk ''oij'' \<in> set (noun_endings SecondOn)" by simp
    ultimately have "gk ''dwr'' @ gk ''oij'' \<in> set (generate_noun_forms greek_ucd [0x3B4, 0x1FF6, 0x3C1, 0x3BF, 0x3BD])"
      by (rule generate_noun_forms_mem)
    moreover have "valid_form (gk ''dwr'' @ gk ''oij'')"
      by (simp add: valid_form_def regex_form_match_def form_class_char_def greek_lit)
    ultimately show ?thesis using generate_all_forms_noun by (simp add: greek_lit)
  qed
  show "resolve {gk ''dwron''} (gk ''dwroij'') = []"
    by (simp add: resolver_eval)
qed

end
