(* ===== verification/Index_Builder.thy ===== *)
theory Index_Builder
  imports Resolver
begin

text \<open>
  The index builder of \<open>src/data-prep/create_perseus_database.py\<close>: the lemma phase of
  \<open>create_database\<close> (lines 2795-2858) runs, on a freshly created \<open>lemma_map\<close>,
  \<^enum> the import of the synthesiser's rows (\<open>create_lemma_mappings\<close>, then
    \<open>INSERT OR IGNORE\<close> row by row, lines 2817-2835);
  \<^enum> \<open>load_wiktionary_mappings\<close> (lines 2114-2228): the Wiktionary files in a fixed
    order, each mapping checked against the headwords and inserted or ignored, with the
    counters the code prints;
  \<^enum> \<open>generate_comprehensive_lemmatization\<close> (lines 2230-2436): the resolver's rows for
    every headword, again \<open>INSERT OR IGNORE\<close>;
  \<^enum> \<open>optimize_lemma_map\<close> (lines 2438-2471): delete every row whose lemma is no
    headword.
  The pruning to the corpus vocabulary is the \<open>optimize_lemma_map\<close> of the earlier
  version \<open>backup/create_perseus_database_all_authors.py\<close> (lines 2347-2417), whose
  resolver ran over the corpus words instead of the headwords (lines 2137-2160).
  Every stage is a function from the table to the table.
\<close>

section \<open>Ingestion\<close>

text \<open>\<open>for mapping in lemma_mappings: INSERT OR IGNORE ...\<close>\<close>

definition import_rows :: "lemma_row list \<Rightarrow> lemma_table \<Rightarrow> lemma_table" where
  "import_rows rs t = fold insert_or_ignore_t rs t"

text \<open>
  A record of a Wiktionary mapping file, as the loader reads it with \<open>mapping[...]\<close>
  and \<open>mapping.get(...)\<close>: a key the record lacks is \<open>None\<close>.
\<close>

record wikt_mapping =
  wm_word_form :: "ustr option"
  wm_lemma :: "ustr option"
  wm_confidence :: "real option"
  wm_source :: "string option"
  wm_morph_info :: "string option"
  wm_morph_type :: "string option"

text \<open>\<open>mapping.get('morph_info') or mapping.get('morph_type')\<close>: the empty string is falsy.\<close>

definition wm_morph :: "wikt_mapping \<Rightarrow> string option" where
  "wm_morph m =
     (case wm_morph_info m of Some x \<Rightarrow> if x = [] then wm_morph_type m else Some x
      | None \<Rightarrow> wm_morph_type m)"

text \<open>
  The row of the \<open>INSERT OR IGNORE\<close> statement; \<open>None\<close> when one of the keys it reads
  with \<open>mapping[...]\<close> is missing (a \<open>KeyError\<close> that the inner \<open>try\<close> turns into a
  warning).
\<close>

definition wikt_row :: "wikt_mapping \<Rightarrow> lemma_row option" where
  "wikt_row m =
     (case (wm_word_form m, wm_lemma m, wm_confidence m, wm_source m) of
        (Some w, Some l, Some c, Some s) \<Rightarrow>
          Some \<lparr>word_form = w, word_normalized = w, lemma_col = l, confidence = c,
                source = s, morph_info = wm_morph m\<rparr>
      | _ \<Rightarrow> None)"

record load_stats =
  inserted :: nat
  skipped_duplicate :: nat
  skipped_no_lemma :: nat
  warnings :: nat

definition stats0 :: load_stats where
  "stats0 = \<lparr>inserted = 0, skipped_duplicate = 0, skipped_no_lemma = 0, warnings = 0\<rparr>"

text \<open>
  One iteration of the loop over a file's mappings, and the loop.
  \<open>mapping['lemma']\<close> is read outside the inner
  \<open>try\<close>: a mapping without it raises a \<open>KeyError\<close> that the outer handler catches,
  abandoning the rest of the file; the rows inserted so far stay in the table, which is
  committed at the end of \<open>create_database\<close>. That is the \<open>Inl\<close> result, with the table.
\<close>

definition load_step :: "ustr set \<Rightarrow> wikt_mapping \<Rightarrow> lemma_table \<times> load_stats \<Rightarrow>
                         (lemma_table \<times> load_stats) option" where
  "load_step valid m ts =
     (case ts of (t, s) \<Rightarrow>
       case wm_lemma m of
         None \<Rightarrow> None
       | Some l \<Rightarrow>
           if l \<notin> valid then Some (t, s\<lparr>skipped_no_lemma := Suc (skipped_no_lemma s)\<rparr>)
           else (case wikt_row m of
                   None \<Rightarrow> Some (t, s\<lparr>warnings := Suc (warnings s)\<rparr>)
                 | Some r \<Rightarrow>
                     (case insert_or_ignore r t of
                        (t', rc) \<Rightarrow>
                          Some (t', if 0 < rc then s\<lparr>inserted := Suc (inserted s)\<rparr>
                                    else s\<lparr>skipped_duplicate := Suc (skipped_duplicate s)\<rparr>))))"

fun load_file :: "ustr set \<Rightarrow> wikt_mapping list \<Rightarrow> lemma_table \<Rightarrow> load_stats \<Rightarrow>
                  lemma_table + (lemma_table \<times> load_stats)" where
  "load_file valid [] t s = Inr (t, s)"
| "load_file valid (m # ms) t s =
     (case load_step valid m (t, s) of
        None \<Rightarrow> Inl t
      | Some (t', s') \<Rightarrow> load_file valid ms t' s')"

text \<open>
  \<open>load_wiktionary_mappings\<close>: the four files in order; \<open>None\<close> is a file that does not
  exist (a warning, then the next file). The headword set it validates against is read
  from \<open>dictionary_entries\<close>, which no stage of this phase writes, so it is the
  parameter \<open>valid\<close>. The second component is \<open>total_loaded\<close>, to which only files
  read to the end contribute.
\<close>

fun load_wiktionary_mappings :: "ustr set \<Rightarrow> wikt_mapping list option list \<Rightarrow>
                                 lemma_table \<Rightarrow> nat \<Rightarrow> lemma_table \<times> nat" where
  "load_wiktionary_mappings valid [] t n = (t, n)"
| "load_wiktionary_mappings valid (None # fs) t n = load_wiktionary_mappings valid fs t n"
| "load_wiktionary_mappings valid (Some ms # fs) t n =
     (if ms = [] then load_wiktionary_mappings valid fs t n
      else case load_file valid ms t stats0 of
             Inl t' \<Rightarrow> load_wiktionary_mappings valid fs t' n
           | Inr (t', s) \<Rightarrow> load_wiktionary_mappings valid fs t' (n + inserted s))"

text \<open>
  What one mapping contributes when it is read: its row if its lemma is a headword and
  the row can be built, nothing otherwise; and the number of mappings the counters (with
  the model's count of warnings) have seen.
\<close>

definition step_rows :: "ustr set \<Rightarrow> wikt_mapping \<Rightarrow> lemma_row list" where
  "step_rows valid m =
     (case wm_lemma m of
        Some l \<Rightarrow> if l \<in> valid then (case wikt_row m of Some r \<Rightarrow> [r] | None \<Rightarrow> []) else []
      | None \<Rightarrow> [])"

definition stats_total :: "load_stats \<Rightarrow> nat" where
  "stats_total s = inserted s + skipped_duplicate s + skipped_no_lemma s + warnings s"

section \<open>The resolver pass\<close>

text \<open>
  \<open>generate_comprehensive_lemmatization\<close>: for every word (the distinct headwords,
  \<open>ORDER BY headword_normalized\<close>) the resolver's rows, \<open>INSERT OR IGNORE\<close>.
\<close>

definition generate_comprehensive_lemmatization ::
  "ustr set \<Rightarrow> ustr list \<Rightarrow> lemma_table \<Rightarrow> lemma_table" where
  "generate_comprehensive_lemmatization valid words t =
     fold (\<lambda>w. import_rows (resolver_rows valid w)) words t"

section \<open>Validation and pruning\<close>

text \<open>\<open>DELETE FROM lemma_map WHERE NOT EXISTS (... headword_normalized = lemma_map.lemma ...)\<close>\<close>

definition optimize_lemma_map :: "ustr set \<Rightarrow> lemma_table \<Rightarrow> lemma_table" where
  "optimize_lemma_map valid t = delete_where (\<lambda>r. lemma_col r \<notin> valid) t"

text \<open>
  The corpus pruning of the earlier version: the rows whose \<open>word_form\<close> is a word of
  the texts (\<open>INNER JOIN unique_text_words\<close>) are copied into a fresh table with the
  same primary key, which then replaces \<open>lemma_map\<close>.
\<close>

definition prune_to_corpus :: "ustr set \<Rightarrow> lemma_table \<Rightarrow> lemma_table" where
  "prune_to_corpus corpus t = delete_where (\<lambda>r. word_form r \<notin> corpus) t"

section \<open>The lemma phase of create_database\<close>

text \<open>
  On a new database: the generated rows of the LSJ entries, the Wiktionary files, the
  resolver's rows for the headwords, the validation. \<open>valid\<close> is the set of the
  entries' normalised headwords and \<open>words\<close> the same headwords as the sorted list the
  resolver query returns.
\<close>

definition build_lemma_index ::
  "ucd \<Rightarrow> 'e lsj_entry_scheme list \<Rightarrow> ustr list \<Rightarrow> wikt_mapping list option list \<Rightarrow> lemma_table" where
  "build_lemma_index u entries words files =
     (let valid = set (map headword_normalized entries);
          t1 = import_rows (create_lemma_mappings u entries) Map.empty;
          t2 = fst (load_wiktionary_mappings valid files t1 0);
          t3 = generate_comprehensive_lemmatization valid words t2
      in optimize_lemma_map valid t3)"

section \<open>The rows of the phase, in the order they are offered\<close>

text \<open>
  The rows a file contributes: those of the mappings before the first one without a
  lemma; the rows of the Wiktionary files in order; and the rows of the whole phase:
  the synthesiser's, the Wiktionary files', the resolver's for each word.
\<close>

definition loaded_rows :: "ustr set \<Rightarrow> wikt_mapping list \<Rightarrow> lemma_row list" where
  "loaded_rows valid ms = concat (map (step_rows valid) (takeWhile (\<lambda>m. wm_lemma m \<noteq> None) ms))"

definition wikt_rows :: "ustr set \<Rightarrow> wikt_mapping list option list \<Rightarrow> lemma_row list" where
  "wikt_rows valid fs =
     concat (map (\<lambda>f. case f of None \<Rightarrow> [] | Some ms \<Rightarrow> loaded_rows valid ms) fs)"

definition index_rows ::
  "ucd \<Rightarrow> 'e lsj_entry_scheme list \<Rightarrow> ustr list \<Rightarrow> wikt_mapping list option list \<Rightarrow> lemma_row list" where
  "index_rows u entries words files =
     (let valid = set (map headword_normalized entries)
      in create_lemma_mappings u entries @ wikt_rows valid files @
         concat (map (resolver_rows valid) words))"

section \<open>Lemmas on ingestion and loading\<close>

lemma import_rows_lookup:
  "import_rows rs t k = (case t k of Some r \<Rightarrow> Some r | None \<Rightarrow> find (\<lambda>r. key_of r = k) rs)"
proof (induction rs arbitrary: t)
  case Nil
  then show ?case by (simp add: import_rows_def split: option.split)
next
  case (Cons r rs)
  have "import_rows (r # rs) t = import_rows rs (insert_or_ignore_t r t)"
    by (simp add: import_rows_def)
  with Cons.IH show ?case
    by (auto simp: insert_or_ignore_t_eq split: option.split)
qed

lemma import_rows_Nil [simp]: "import_rows [] t = t"
  and import_rows_Cons [simp]: "import_rows (r # rs) t = import_rows rs (insert_or_ignore_t r t)"
  and import_rows_append: "import_rows (rs @ rs') t = import_rows rs' (import_rows rs t)"
  by (simp_all add: import_rows_def)

lemma dom_import_rows: "dom (import_rows rs t) = dom t \<union> key_of ` set rs"
  by (induction rs arbitrary: t) auto

lemma import_rows_wf: "table_wf t \<Longrightarrow> table_wf (import_rows rs t)"
  by (induction rs arbitrary: t) auto

lemma ran_import_rows: "ran (import_rows rs t) \<subseteq> ran t \<union> set rs"
proof
  fix r assume "r \<in> ran (import_rows rs t)"
  then obtain k where "import_rows rs t k = Some r" by (auto simp: ran_def)
  then show "r \<in> ran t \<union> set rs"
    by (auto simp: import_rows_lookup intro: ranI split: option.splits
        dest: find_Some_iff[THEN iffD1] nth_mem)
qed

lemma load_step_None: "load_step valid m ts = None \<longleftrightarrow> wm_lemma m = None"
  by (auto simp: load_step_def insert_or_ignore_eq split: prod.splits option.splits)

lemma load_step_Some:
  assumes "load_step valid m (t, s) = Some (t', s')"
  shows "t' = import_rows (step_rows valid m) t" and "stats_total s' = Suc (stats_total s)"
    and "finite (dom t) \<Longrightarrow> finite (dom t')"
  using assms
  by (auto simp: load_step_def step_rows_def stats_total_def insert_or_ignore_eq
      split: option.splits if_splits)

lemma load_step_inserted:
  assumes "load_step valid m (t, s) = Some (t', s')" and "finite (dom t)"
  shows "inserted s' = inserted s + card (dom t') - card (dom t)"
  using assms
  by (auto simp: load_step_def insert_or_ignore_eq card_insert_if domIff
      split: option.splits if_splits)

lemma load_file_Inr:
  "load_file valid ms t s = Inr (t', s') \<Longrightarrow> finite (dom t) \<Longrightarrow>
     t' = import_rows (concat (map (step_rows valid) ms)) t \<and>
     stats_total s' = stats_total s + length ms \<and>
     inserted s' = inserted s + card (dom t') - card (dom t)"
proof (induction ms arbitrary: t s)
  case Nil
  then show ?case by simp
next
  case (Cons m ms)
  from Cons.prems obtain t1 s1 where st: "load_step valid m (t, s) = Some (t1, s1)"
    and rest: "load_file valid ms t1 s1 = Inr (t', s')"
    by (auto split: option.splits)
  note one = load_step_Some [OF st]
  have fin1: "finite (dom t1)" by (rule one(3) [OF Cons.prems(2)])
  from Cons.IH [OF rest fin1] have
    ih: "t' = import_rows (concat (map (step_rows valid) ms)) t1"
        "stats_total s' = stats_total s1 + length ms"
        "inserted s' = inserted s1 + card (dom t') - card (dom t1)" by blast+
  have "card (dom t) \<le> card (dom t1)" "card (dom t1) \<le> card (dom t')"
    using one(1) ih(1) fin1 by (auto simp: dom_import_rows intro: card_mono)
  with one ih load_step_inserted [OF st Cons.prems(2)] show ?case
    by (simp add: import_rows_append)
qed

lemma load_file_total:
  "(\<forall>m \<in> set ms. wm_lemma m \<noteq> None) \<Longrightarrow> \<exists>t' s'. load_file valid ms t s = Inr (t', s')"
proof (induction ms arbitrary: t s)
  case Nil
  then show ?case by simp
next
  case (Cons m ms)
  then obtain t1 s1 where "load_step valid m (t, s) = Some (t1, s1)"
    by (cases "load_step valid m (t, s)") (auto simp: load_step_None)
  with Cons show ?case by simp
qed

lemma load_file_Inl:
  "load_file valid ms t s = Inl t' \<Longrightarrow>
     t' = import_rows (concat (map (step_rows valid) (takeWhile (\<lambda>m. wm_lemma m \<noteq> None) ms))) t"
proof (induction ms arbitrary: t s)
  case Nil
  then show ?case by simp
next
  case (Cons m ms)
  show ?case
  proof (cases "load_step valid m (t, s)")
    case None
    with Cons.prems show ?thesis by (simp add: load_step_None)
  next
    case (Some ts1)
    then obtain t1 s1 where st: "load_step valid m (t, s) = Some (t1, s1)" by (cases ts1) auto
    with Cons.prems have "load_file valid ms t1 s1 = Inl t'" by simp
    then have ih: "t' = import_rows (concat (map (step_rows valid)
                          (takeWhile (\<lambda>m. wm_lemma m \<noteq> None) ms))) t1"
      by (rule Cons.IH)
    from st have "wm_lemma m \<noteq> None" using load_step_None [of valid m "(t, s)"] by auto
    with ih load_step_Some(1) [OF st] show ?thesis by (simp add: import_rows_append)
  qed
qed

lemma load_file_table:
  "(case load_file valid ms t s of Inl t' \<Rightarrow> t' | Inr (t', s') \<Rightarrow> t') =
     import_rows (loaded_rows valid ms) t"
proof (induction ms arbitrary: t s)
  case Nil
  then show ?case by (simp add: loaded_rows_def)
next
  case (Cons m ms)
  show ?case
  proof (cases "load_step valid m (t, s)")
    case None
    moreover from None have "wm_lemma m = None" by (simp add: load_step_None)
    ultimately show ?thesis by (simp add: loaded_rows_def)
  next
    case (Some ts1)
    then obtain t1 s1 where st: "load_step valid m (t, s) = Some (t1, s1)" by (cases ts1) auto
    then have "wm_lemma m \<noteq> None" using load_step_None [of valid m "(t, s)"] by auto
    with st Cons.IH [of t1 s1] load_step_Some(1) [OF st] show ?thesis
      by (simp add: loaded_rows_def import_rows_append)
  qed
qed
lemma load_wiktionary_table:
  "fst (load_wiktionary_mappings valid fs t n) = import_rows (wikt_rows valid fs) t"
proof (induction valid fs t n rule: load_wiktionary_mappings.induct)
  case (1 valid t n)
  then show ?case by (simp add: wikt_rows_def)
next
  case (2 valid fs t n)
  then show ?case by (simp add: wikt_rows_def)
next
  case (3 valid ms fs t n)
  have "wikt_rows valid (Some ms # fs) = loaded_rows valid ms @ wikt_rows valid fs"
    by (simp add: wikt_rows_def)
  with 3 load_file_table [of valid ms t stats0] show ?case
    by (auto simp: import_rows_append loaded_rows_def split: sum.splits)
qed

lemma generate_comprehensive_rows:
  "generate_comprehensive_lemmatization valid words t =
     import_rows (concat (map (resolver_rows valid) words)) t"
  by (induction words arbitrary: t)
    (simp_all add: generate_comprehensive_lemmatization_def import_rows_append)

lemma find_key: "find (\<lambda>r. key_of r = k) rs = Some r \<Longrightarrow> key_of r = k \<and> r \<in> set rs"
  by (auto simp: find_Some_iff)

lemma build_lemma_index_rows:
  "build_lemma_index u entries words files =
     optimize_lemma_map (set (map headword_normalized entries))
       (import_rows (index_rows u entries words files) Map.empty)"
  unfolding build_lemma_index_def index_rows_def Let_def load_wiktionary_table
    generate_comprehensive_rows import_rows_append ..

lemma optimize_import_lookup:
  "optimize_lemma_map valid (import_rows rs Map.empty) k =
     (if snd k \<in> valid then find (\<lambda>r. key_of r = k) rs else None)"
proof -
  have e: "import_rows rs Map.empty k = find (\<lambda>r. key_of r = k) rs"
    by (simp add: import_rows_lookup)
  show ?thesis
  proof (cases "find (\<lambda>r. key_of r = k) rs")
    case None
    with e show ?thesis by (simp add: optimize_lemma_map_def delete_where_def)
  next
    case (Some r)
    then have "key_of r = k" by (rule find_key [THEN conjunct1])
    then have "lemma_col r = snd k" by (auto simp: key_of_def)
    with Some e show ?thesis by (simp add: optimize_lemma_map_def delete_where_def)
  qed
qed

lemma build_lemma_index_lookup:
  "build_lemma_index u entries words files k =
     (if snd k \<in> set (map headword_normalized entries)
      then find (\<lambda>r. key_of r = k) (index_rows u entries words files) else None)"
  unfolding build_lemma_index_rows by (rule optimize_import_lookup)

lemma ran_build_lemma_index:
  assumes "r \<in> ran (build_lemma_index u entries words files)"
  shows "r \<in> set (index_rows u entries words files) \<and>
         lemma_col r \<in> set (map headword_normalized entries)"
proof -
  from assms obtain k where k: "build_lemma_index u entries words files k = Some r"
    by (auto simp: ran_def)
  then have v: "snd k \<in> set (map headword_normalized entries)"
    and f: "find (\<lambda>r. key_of r = k) (index_rows u entries words files) = Some r"
    by (simp_all add: build_lemma_index_lookup split: if_splits)
  from f have "key_of r = k \<and> r \<in> set (index_rows u entries words files)" by (rule find_key)
  with v show ?thesis by (auto simp: key_of_def)
qed

lemma wikt_row_confidence: "wikt_row m = Some r \<Longrightarrow> wm_confidence m = Some (confidence r)"
  by (auto simp: wikt_row_def split: option.splits)

lemma step_rows_row:
  assumes x: "x \<in> set (step_rows valid m)"
  shows "wikt_row m = Some x"
proof (cases "wm_lemma m")
  case None
  then have "step_rows valid m = []" by (simp add: step_rows_def)
  with x show ?thesis by simp
next
  case (Some l)
  show ?thesis
  proof (cases "wikt_row m")
    case None
    with Some have "step_rows valid m = []" by (simp add: step_rows_def)
    with x show ?thesis by simp
  next
    case (Some r)
    with \<open>wm_lemma m = Some l\<close> have "step_rows valid m = (if l \<in> valid then [r] else [])"
      by (simp add: step_rows_def)
    with x Some show ?thesis by (simp split: if_splits)
  qed
qed

lemma wikt_rows_from:
  assumes "r \<in> set (wikt_rows valid fs)"
  shows "\<exists>ms m. Some ms \<in> set fs \<and> m \<in> set ms \<and> wikt_row m = Some r"
proof -
  from assms obtain ms where f: "Some ms \<in> set fs" and "r \<in> set (loaded_rows valid ms)"
    by (auto simp: wikt_rows_def split: option.splits)
  then obtain m where "m \<in> set ms" "r \<in> set (step_rows valid m)"
    by (auto simp: loaded_rows_def dest: set_takeWhileD)
  with f show ?thesis by (blast dest: step_rows_row)
qed

text \<open>
  C18: the index the lemma phase builds holds, for a
  word form and a headword, the first row offered for that pair in the order of the
  phase (generated forms, then the Wiktionary files in order, then the resolver), and
  nothing for a lemma that is no headword.
\<close>

theorem build_lemma_index_first_writer:
  "build_lemma_index u entries words files (w, l) =
     (if l \<in> set (map headword_normalized entries)
      then find (\<lambda>r. word_form r = w \<and> lemma_col r = l) (index_rows u entries words files)
      else None)"
  using build_lemma_index_lookup [of u entries words files "(w, l)"] by (simp add: key_of_def)


text \<open>
  A pair the synthesiser generated keeps its generated
  row (confidence 0.8, source \<open>generated\<close>): no Wiktionary mapping for the same pair,
  whatever its confidence, replaces it.
\<close>

theorem build_generated_precedence:
  assumes "r \<in> set (create_lemma_mappings u entries)"
  shows "\<exists>r'. build_lemma_index u entries words files (key_of r) = Some r' \<and>
           r' \<in> set (create_lemma_mappings u entries) \<and>
           source r' = ''generated'' \<and> confidence r' = 0.8"
proof -
  from create_lemma_mappings_rows [OF assms] have v: "snd (key_of r) \<in> set (map headword_normalized entries)"
    by (auto simp: key_of_def)
  from find_append_mem [OF assms, of "\<lambda>x. key_of x = key_of r"] obtain r' where
    f: "find (\<lambda>x. key_of x = key_of r) (create_lemma_mappings u entries @
          wikt_rows (set (map headword_normalized entries)) files @
          concat (map (resolver_rows (set (map headword_normalized entries))) words)) = Some r'"
    and m: "r' \<in> set (create_lemma_mappings u entries)" by blast
  from f v have "build_lemma_index u entries words files (key_of r) = Some r'"
    by (simp add: build_lemma_index_lookup index_rows_def)
  with m create_lemma_mappings_rows [OF m] show ?thesis by blast
qed

text \<open>
  A headword the resolver pass visits maps to itself: the
  pair (headword, headword) is in the index.
\<close>

theorem build_headword_self:
  assumes "h \<in> set (map headword_normalized entries)" and "h \<in> set words"
  shows "(h, h) \<in> dom (build_lemma_index u entries words files)"
proof -
  from resolver_rows_exact [OF assms(1)] obtain r where
    k: "(h, h) = key_of r" and r: "r \<in> set (resolver_rows (set (map headword_normalized entries)) h)"
    by (rule imageE)
  then have "r \<in> set (concat (map (resolver_rows (set (map headword_normalized entries))) words))"
    using assms(2) by (simp only: set_concat_map_iff) blast
  then have "r \<in> set (index_rows u entries words files)"
    by (simp only: index_rows_def Let_def set_append Un_iff) blast
  with k obtain r' where "find (\<lambda>x. key_of x = (h, h)) (index_rows u entries words files) = Some r'"
    using find_mem [of r _ "\<lambda>x. key_of x = (h, h)"] by auto
  with assms(1) have "build_lemma_index u entries words files (h, h) = Some r'"
    by (simp add: build_lemma_index_lookup)
  then show ?thesis by (rule domI)
qed

text \<open>
  If the Wiktionary files give confidences in [0, 1], every
  confidence in the index lies in [0, 1]: the generated rows carry 0.8 and the resolver
  only 0.5, 0.6, 0.7, 0.75 or 0.9.
\<close>

theorem build_confidence_bounds:
  assumes "list_all (\<lambda>f. case f of None \<Rightarrow> True
             | Some ms \<Rightarrow> list_all (\<lambda>m. case wm_confidence m of None \<Rightarrow> True
                                        | Some c \<Rightarrow> 0 \<le> c \<and> c \<le> 1) ms) files"
  shows "confidence ` ran (build_lemma_index u entries words files) \<subseteq> {0..1}"
proof
  fix c assume "c \<in> confidence ` ran (build_lemma_index u entries words files)"
  then obtain r where c: "c = confidence r" and "r \<in> ran (build_lemma_index u entries words files)"
    by blast
  then have "r \<in> set (index_rows u entries words files)" using ran_build_lemma_index by blast
  then consider "r \<in> set (create_lemma_mappings u entries)"
    | "r \<in> set (wikt_rows (set (map headword_normalized entries)) files)"
    | w where "r \<in> set (resolver_rows (set (map headword_normalized entries)) w)"
    by (auto simp: index_rows_def)
  then show "c \<in> {0..1}"
  proof cases
    case 1
    then show ?thesis using create_lemma_mappings_rows c by fastforce
  next
    case 2
    then obtain ms m where "Some ms \<in> set files" "m \<in> set ms" "wikt_row m = Some r"
      by (blast dest: wikt_rows_from)
    then have "wm_confidence m = Some c" using c by (blast dest: wikt_row_confidence)
    with assms \<open>Some ms \<in> set files\<close> \<open>m \<in> set ms\<close> show ?thesis
      by (fastforce simp: list_all_iff)
  next
    case 3
    then have "c = lemma_confidence w (lemma_col r)" using resolver_rows_sound c by blast
    then show ?thesis using lemma_confidence_cases [of w "lemma_col r"] by auto
  qed
qed

lemma dwrou_generated:
  "gk ''dwr'' @ gk ''ou'' \<in> set (generate_all_forms greek_ucd [0x3B4, 0x1FF6, 0x3C1, 0x3BF, 0x3BD] None)"
proof -
  have "gk ''dwr'' \<in> set (noun_stems (lemmatizer_normalize greek_ucd [0x3B4, 0x1FF6, 0x3C1, 0x3BF, 0x3BD]))"
    by (simp add: dwron_normal noun_stems_on)
  moreover have "2 \<le> length (gk ''dwr'')" by (simp add: greek_lit)
  moreover have "SecondOn \<in> set noun_patterns" by (simp add: noun_patterns_def)
  moreover have "gk ''ou'' \<in> set (noun_endings SecondOn)" by simp
  ultimately have "gk ''dwr'' @ gk ''ou'' \<in> set (generate_noun_forms greek_ucd [0x3B4, 0x1FF6, 0x3C1, 0x3BF, 0x3BD])"
    by (rule generate_noun_forms_mem)
  moreover have "valid_form (gk ''dwr'' @ gk ''ou'')"
    by (simp add: valid_form_def regex_form_match_def form_class_char_def greek_lit)
  ultimately show ?thesis by (rule generate_all_forms_noun)
qed

lemma dwrou_row:
  "\<lparr>word_form = gk ''dwrou'', word_normalized = gk ''dwrou'', lemma_col = gk ''dwron'',
    confidence = 0.8, source = ''generated'', morph_info = None\<rparr>
   \<in> set (create_lemma_mappings greek_ucd
            [\<lparr>headword = [0x3B4, 0x1FF6, 0x3C1, 0x3BF, 0x3BD], headword_normalized = gk ''dwron''\<rparr>])"
proof -
  have "gk ''dwrou'' \<in> set (filter (\<lambda>f. f \<noteq> gk ''dwron'')
          (remdups (generate_all_forms greek_ucd [0x3B4, 0x1FF6, 0x3C1, 0x3BF, 0x3BD] None)))"
    using dwrou_generated by (simp add: greek_lit)
  then show ?thesis
    unfolding create_lemma_mappings_def entry_mappings_def
    by (simp only: concat.simps list.map lsj_entry.simps append_Nil2 set_map) (rule imageI)
qed

theorem build_generated_precedence_witness:
  "\<lparr>word_form = gk ''dwrou'', word_normalized = gk ''dwrou'', lemma_col = gk ''dwron'',
    confidence = 0.8, source = ''generated'', morph_info = None\<rparr>
   \<in> set (create_lemma_mappings greek_ucd
            [\<lparr>headword = [0x3B4, 0x1FF6, 0x3C1, 0x3BF, 0x3BD], headword_normalized = gk ''dwron''\<rparr>]) \<and>
   (\<exists>r'. build_lemma_index greek_ucd
           [\<lparr>headword = [0x3B4, 0x1FF6, 0x3C1, 0x3BF, 0x3BD], headword_normalized = gk ''dwron''\<rparr>]
           [gk ''dwron'']
           [Some [\<lparr>wm_word_form = Some (gk ''dwrou''), wm_lemma = Some (gk ''dwron''),
                   wm_confidence = Some 0.95, wm_source = Some ''wiktionary_en'',
                   wm_morph_info = Some ''genitive singular'', wm_morph_type = None\<rparr>]]
           (gk ''dwrou'', gk ''dwron'') = Some r' \<and>
         r' \<in> set (create_lemma_mappings greek_ucd
            [\<lparr>headword = [0x3B4, 0x1FF6, 0x3C1, 0x3BF, 0x3BD], headword_normalized = gk ''dwron''\<rparr>]) \<and>
         source r' = ''generated'' \<and> confidence r' = 0.8)"
  using dwrou_row build_generated_precedence [OF dwrou_row] by (simp add: key_of_def)

theorem build_headword_self_witness:
  "gk ''logos'' \<in> set (map headword_normalized
      [\<lparr>headword = [0x3BB, 0x1F79, 0x3B3, 0x3BF, 0x3C2], headword_normalized = gk ''logos''\<rparr>]) \<and>
   gk ''logos'' \<in> set [gk ''logos''] \<and>
   (gk ''logos'', gk ''logos'') \<in> dom (build_lemma_index greek_ucd
      [\<lparr>headword = [0x3BB, 0x1F79, 0x3B3, 0x3BF, 0x3C2], headword_normalized = gk ''logos''\<rparr>]
      [gk ''logos''] [])"
  using build_headword_self [of "gk ''logos''"
      "[\<lparr>headword = [0x3BB, 0x1F79, 0x3B3, 0x3BF, 0x3C2], headword_normalized = gk ''logos''\<rparr>]"
      "[gk ''logos'']" greek_ucd "[]"]
  by simp

theorem build_confidence_bounds_witness:
  "list_all (\<lambda>f. case f of None \<Rightarrow> True
      | Some ms \<Rightarrow> list_all (\<lambda>m. case wm_confidence m of None \<Rightarrow> True
                                 | Some c \<Rightarrow> 0 \<le> c \<and> c \<le> 1) ms)
     [Some [\<lparr>wm_word_form = Some (gk ''malista''), wm_lemma = Some (gk ''mala''),
             wm_confidence = Some 0.9, wm_source = Some ''wiktionary_en'',
             wm_morph_info = None, wm_morph_type = None\<rparr>]] \<and>
   confidence ` ran (build_lemma_index greek_ucd
      [\<lparr>headword = [0x3BC, 0x3AC, 0x3BB, 0x3B1], headword_normalized = gk ''mala''\<rparr>] [gk ''mala'']
      [Some [\<lparr>wm_word_form = Some (gk ''malista''), wm_lemma = Some (gk ''mala''),
              wm_confidence = Some 0.9, wm_source = Some ''wiktionary_en'',
              wm_morph_info = None, wm_morph_type = None\<rparr>]]) \<subseteq> {0..1}"
proof -
  have h: "list_all (\<lambda>f. case f of None \<Rightarrow> True
      | Some ms \<Rightarrow> list_all (\<lambda>m. case wm_confidence m of None \<Rightarrow> True
                                 | Some c \<Rightarrow> 0 \<le> c \<and> c \<le> (1::real)) ms)
     [Some [\<lparr>wm_word_form = Some (gk ''malista''), wm_lemma = Some (gk ''mala''),
             wm_confidence = Some 0.9, wm_source = Some ''wiktionary_en'',
             wm_morph_info = None, wm_morph_type = None\<rparr>]]"
    by simp
  show ?thesis using h build_confidence_bounds [OF h] by blast
qed

text \<open>
  First writer wins across the Wiktionary files: the
  superlative \<open>\<mu>\<alpha>\<lambda>\<iota>\<sigma>\<tau>\<alpha>\<close> of \<open>\<mu>\<alpha>\<lambda>\<alpha>\<close>, given with confidence 0.9 by the first file and 0.5 by
  the third (the second is missing), keeps the row of the first file; one row is counted.
\<close>

theorem load_wiktionary_first_writer:
  "load_wiktionary_mappings {gk ''mala''}
     [Some [\<lparr>wm_word_form = Some (gk ''malista''), wm_lemma = Some (gk ''mala''),
             wm_confidence = Some 0.9, wm_source = Some ''wiktionary_en'',
             wm_morph_info = Some ''superlative'', wm_morph_type = None\<rparr>],
      None,
      Some [\<lparr>wm_word_form = Some (gk ''malista''), wm_lemma = Some (gk ''mala''),
             wm_confidence = Some 0.5, wm_source = Some ''wiktionary_el'',
             wm_morph_info = Some [], wm_morph_type = Some ''adverb''\<rparr>]]
     Map.empty 0 =
   ([(gk ''malista'', gk ''mala'') \<mapsto>
      \<lparr>word_form = gk ''malista'', word_normalized = gk ''malista'', lemma_col = gk ''mala'',
       confidence = 0.9, source = ''wiktionary_en'', morph_info = Some ''superlative''\<rparr>], 1)"
  by (simp add: load_step_def wikt_row_def wm_morph_def insert_or_ignore_eq insert_or_ignore_t_eq key_of_def stats0_def)

lemma load_file_append:
  "load_file valid (pre @ ms) t s =
     (case load_file valid pre t s of Inl t' \<Rightarrow> Inl t' | Inr (t', s') \<Rightarrow> load_file valid ms t' s')"
  by (induction pre arbitrary: t s) (auto split: option.splits)

text \<open>
  C23: a mapping without a \<open>lemma\<close> key abandons the rest of its file: the
  table keeps the rows of the mappings read before it, the mappings after it are lost,
  the next files are still read, and \<open>total_loaded\<close> gets nothing from that file.
\<close>

theorem load_wiktionary_abort:
  assumes "wm_lemma m = None" and "load_file valid pre t stats0 = Inr (t1, s1)"
  shows "load_wiktionary_mappings valid (Some (pre @ m # post) # fs) t n =
         load_wiktionary_mappings valid fs t1 n"
proof -
  have "load_step valid m (t1, s1) = None" using assms(1) by (simp add: load_step_None)
  then have "load_file valid (pre @ m # post) t stats0 = Inl t1"
    using assms(2) by (simp add: load_file_append)
  then show ?thesis by simp
qed

theorem load_wiktionary_abort_witness:
  "load_wiktionary_mappings {gk ''logos''}
     [Some [\<lparr>wm_word_form = Some (gk ''logou''), wm_lemma = Some (gk ''logos''),
             wm_confidence = Some 0.9, wm_source = Some ''wiktionary_en'',
             wm_morph_info = None, wm_morph_type = None\<rparr>,
            \<lparr>wm_word_form = Some (gk ''logw''), wm_lemma = None,
             wm_confidence = Some 0.9, wm_source = Some ''wiktionary_en'',
             wm_morph_info = None, wm_morph_type = None\<rparr>,
            \<lparr>wm_word_form = Some (gk ''logoi''), wm_lemma = Some (gk ''logos''),
             wm_confidence = Some 0.9, wm_source = Some ''wiktionary_en'',
             wm_morph_info = None, wm_morph_type = None\<rparr>]]
     Map.empty 0 =
   ([(gk ''logou'', gk ''logos'') \<mapsto>
      \<lparr>word_form = gk ''logou'', word_normalized = gk ''logou'', lemma_col = gk ''logos'',
       confidence = 0.9, source = ''wiktionary_en'', morph_info = None\<rparr>], 0)"
proof -
  let ?m1 = "\<lparr>wm_word_form = Some (gk ''logou''), wm_lemma = Some (gk ''logos''),
             wm_confidence = Some 0.9, wm_source = Some ''wiktionary_en'',
             wm_morph_info = None, wm_morph_type = None\<rparr>"
  let ?r1 = "\<lparr>word_form = gk ''logou'', word_normalized = gk ''logou'', lemma_col = gk ''logos'',
       confidence = 0.9, source = ''wiktionary_en'', morph_info = None\<rparr>"
  have "load_file {gk ''logos''} [?m1] Map.empty stats0 =
        Inr ([(gk ''logou'', gk ''logos'') \<mapsto> ?r1], stats0\<lparr>inserted := 1\<rparr>)"
    by (simp add: load_step_def wikt_row_def wm_morph_def insert_or_ignore_eq insert_or_ignore_t_eq
        key_of_def stats0_def)
  from load_wiktionary_abort [OF _ this, where m = "\<lparr>wm_word_form = Some (gk ''logw''), wm_lemma = None,
             wm_confidence = Some 0.9, wm_source = Some ''wiktionary_en'',
             wm_morph_info = None, wm_morph_type = None\<rparr>"]
  show ?thesis by simp
qed

text \<open>
  For a file read to its end, the four counters of the loop
  (inserted, duplicates, no dictionary entry, warnings) add up to the number of
  mappings, and the inserted count is the number of new keys of the table.
\<close>

theorem load_file_counters:
  assumes "load_file valid ms t stats0 = Inr (t', s)" and "finite (dom t)"
  shows "inserted s + skipped_duplicate s + skipped_no_lemma s + warnings s = length ms \<and>
         inserted s = card (dom t') - card (dom t)"
proof -
  from load_file_Inr [OF assms] have "stats_total s = stats_total stats0 + length ms"
    and "inserted s = inserted stats0 + card (dom t') - card (dom t)" by blast+
  then show ?thesis by (simp add: stats_total_def stats0_def)
qed

theorem load_file_counters_witness:
  "load_file {gk ''mala''}
     [\<lparr>wm_word_form = Some (gk ''malista''), wm_lemma = Some (gk ''mala''),
       wm_confidence = Some 0.9, wm_source = Some ''wiktionary_en'',
       wm_morph_info = None, wm_morph_type = None\<rparr>,
      \<lparr>wm_word_form = Some (gk ''malista''), wm_lemma = Some (gk ''mala''),
       wm_confidence = Some 0.5, wm_source = Some ''wiktionary_el'',
       wm_morph_info = None, wm_morph_type = None\<rparr>,
      \<lparr>wm_word_form = Some (gk ''logou''), wm_lemma = Some (gk ''logos''),
       wm_confidence = Some 0.9, wm_source = Some ''wiktionary_en'',
       wm_morph_info = None, wm_morph_type = None\<rparr>,
      \<lparr>wm_word_form = Some (gk ''mallon''), wm_lemma = Some (gk ''mala''),
       wm_confidence = None, wm_source = Some ''wiktionary_en'',
       wm_morph_info = None, wm_morph_type = None\<rparr>]
     Map.empty stats0 =
   Inr ([(gk ''malista'', gk ''mala'') \<mapsto>
      \<lparr>word_form = gk ''malista'', word_normalized = gk ''malista'', lemma_col = gk ''mala'',
       confidence = 0.9, source = ''wiktionary_en'', morph_info = None\<rparr>],
     \<lparr>inserted = 1, skipped_duplicate = 1, skipped_no_lemma = 1, warnings = 1\<rparr>) \<and>
   finite (dom (Map.empty :: lemma_table)) \<and>
   1 + 1 + 1 + 1 = length
     [\<lparr>wm_word_form = Some (gk ''malista''), wm_lemma = Some (gk ''mala''),
       wm_confidence = Some 0.9, wm_source = Some ''wiktionary_en'',
       wm_morph_info = None, wm_morph_type = None\<rparr>,
      \<lparr>wm_word_form = Some (gk ''malista''), wm_lemma = Some (gk ''mala''),
       wm_confidence = Some 0.5, wm_source = Some ''wiktionary_el'',
       wm_morph_info = None, wm_morph_type = None\<rparr>,
      \<lparr>wm_word_form = Some (gk ''logou''), wm_lemma = Some (gk ''logos''),
       wm_confidence = Some 0.9, wm_source = Some ''wiktionary_en'',
       wm_morph_info = None, wm_morph_type = None\<rparr>,
      \<lparr>wm_word_form = Some (gk ''mallon''), wm_lemma = Some (gk ''mala''),
       wm_confidence = None, wm_source = Some ''wiktionary_en'',
       wm_morph_info = None, wm_morph_type = None\<rparr>] \<and>
   (1::nat) = card (dom [(gk ''malista'', gk ''mala'') \<mapsto>
      \<lparr>word_form = gk ''malista'', word_normalized = gk ''malista'', lemma_col = gk ''mala'',
       confidence = 0.9, source = ''wiktionary_en'', morph_info = None\<rparr>]) - card (dom (Map.empty :: lemma_table))"
proof -
  have run: "load_file {gk ''mala''}
     [\<lparr>wm_word_form = Some (gk ''malista''), wm_lemma = Some (gk ''mala''),
       wm_confidence = Some 0.9, wm_source = Some ''wiktionary_en'',
       wm_morph_info = None, wm_morph_type = None\<rparr>,
      \<lparr>wm_word_form = Some (gk ''malista''), wm_lemma = Some (gk ''mala''),
       wm_confidence = Some 0.5, wm_source = Some ''wiktionary_el'',
       wm_morph_info = None, wm_morph_type = None\<rparr>,
      \<lparr>wm_word_form = Some (gk ''logou''), wm_lemma = Some (gk ''logos''),
       wm_confidence = Some 0.9, wm_source = Some ''wiktionary_en'',
       wm_morph_info = None, wm_morph_type = None\<rparr>,
      \<lparr>wm_word_form = Some (gk ''mallon''), wm_lemma = Some (gk ''mala''),
       wm_confidence = None, wm_source = Some ''wiktionary_en'',
       wm_morph_info = None, wm_morph_type = None\<rparr>]
     Map.empty stats0 =
   Inr ([(gk ''malista'', gk ''mala'') \<mapsto>
      \<lparr>word_form = gk ''malista'', word_normalized = gk ''malista'', lemma_col = gk ''mala'',
       confidence = 0.9, source = ''wiktionary_en'', morph_info = None\<rparr>],
     \<lparr>inserted = 1, skipped_duplicate = 1, skipped_no_lemma = 1, warnings = 1\<rparr>)"
    by (simp add: load_step_def wikt_row_def wm_morph_def insert_or_ignore_eq insert_or_ignore_t_eq key_of_def stats0_def
        greek_lit)
  from load_file_counters [OF run] run show ?thesis by simp
qed

end
