(* ===== verification/Xml.thy ===== *)
theory Xml
  imports Unicode
begin

text \<open>
  The part of Python's \<open>xml.etree.ElementTree\<close> the build scripts use, and the text
  extractor the TEI readers share. An element has a tag (with an optional
  \<open>{namespace}\<close> prefix), its attributes in document order, the text before its first
  child, its children, and the tail text that follows its end tag inside the parent.
  ElementTree gives \<open>None\<close> for an absent text or tail; every use in the code tests
  them for truth, so the empty string stands for both. \<open>elem.iter()\<close> is the preorder
  traversal, \<open>findall('.//t')\<close> the descendants (the element itself excluded) in
  document order, and the path steps \<open>t1/t2\<close> and \<open>[@k="v"]\<close> are filters over them.
\<close>

datatype xml =
  Element (xml_tag: string) (xml_attrs: "(string \<times> ustr) list") (xml_text: ustr)
    (xml_children: "xml list") (xml_tail: ustr)

text \<open>\<open>elem.get(k)\<close> and \<open>elem.get(k, default)\<close>.\<close>

definition attr_get :: "xml \<Rightarrow> string \<Rightarrow> ustr option" where
  "attr_get e k = map_of (xml_attrs e) k"

definition attr_or :: "xml \<Rightarrow> string \<Rightarrow> ustr \<Rightarrow> ustr" where
  "attr_or e k d = (case attr_get e k of Some v \<Rightarrow> v | None \<Rightarrow> d)"

text \<open>\<open>elem.iter()\<close>: the element, then the traversal of each child in order.\<close>

fun xml_iter :: "xml \<Rightarrow> xml list" where
  "xml_iter (Element t a x cs y) = Element t a x cs y # concat (map xml_iter cs)"

definition descendants :: "xml \<Rightarrow> xml list" where
  "descendants e = concat (map xml_iter (xml_children e))"

text \<open>\<open>findall('.//t')\<close>, \<open>findall('.//t[@k="v"]')\<close>, \<open>findall('.//t1/t2')\<close>, \<open>find(...)\<close>.\<close>

definition find_all_tag :: "string \<Rightarrow> xml \<Rightarrow> xml list" where
  "find_all_tag t e = filter (\<lambda>d. xml_tag d = t) (descendants e)"

definition find_all_tag_attr :: "string \<Rightarrow> string \<Rightarrow> ustr \<Rightarrow> xml \<Rightarrow> xml list" where
  "find_all_tag_attr t k v e = filter (\<lambda>d. attr_get d k = Some v) (find_all_tag t e)"

definition find_all_child_path :: "string \<Rightarrow> string \<Rightarrow> xml \<Rightarrow> xml list" where
  "find_all_child_path t1 t2 e =
     concat (map (\<lambda>d. filter (\<lambda>c. xml_tag c = t2) (xml_children d)) (find_all_tag t1 e))"

definition find_first :: "xml list \<Rightarrow> xml option" where
  "find_first xs = (case xs of [] \<Rightarrow> None | x # _ \<Rightarrow> Some x)"

text \<open>\<open>''.join(elem.itertext())\<close>: all the text inside the element, tails of children included.\<close>

fun xml_itertext :: "xml \<Rightarrow> ustr" where
  "xml_itertext (Element t a x cs y) = x @ concat (map (\<lambda>c. xml_itertext c @ xml_tail c) cs)"

text \<open>\<open>elem.tag.endswith(s)\<close>.\<close>

definition tag_ends :: "xml \<Rightarrow> string \<Rightarrow> bool" where
  "tag_ends e s = py_endswith (xml_tag e) s"

text \<open>\<open>tag.split('}')[-1]\<close>: the local name, after the last closing brace.\<close>

definition local_name :: "string \<Rightarrow> string" where
  "local_name t = rev (takeWhile (\<lambda>c. c \<noteq> CHR ''}'') (rev t))"

text \<open>
  \<open>get_text_content\<close> (\<open>create_perseus_database.py\<close>, lines 662-688): the text of an
  element and its children, each stripped, with the tails; the editorial elements
  \<open>note\<close>, \<open>foreign\<close>, \<open>ref\<close> and \<open>bibl\<close> contribute nothing but their tails.
\<close>

definition excluded_tags :: "string list" where
  "excluded_tags = [''note'', ''foreign'', ''ref'', ''bibl'']"

fun get_text_content :: "ucd \<Rightarrow> xml \<Rightarrow> ustr" where
  "get_text_content u (Element t a x cs y) =
     (if local_name t \<in> set excluded_tags then []
      else py_strip u (x @ concat (map (\<lambda>c.
             (if local_name (xml_tag c) \<notin> set excluded_tags then get_text_content u c else []) @
             xml_tail c) cs)))"

section \<open>Lemmas on the element tree\<close>

lemma xml_iter_self: "e \<in> set (xml_iter e)"
  by (cases e) simp

lemma xml_iter_hd: "xml_iter e = e # concat (map xml_iter (xml_children e))"
  by (cases e) simp

lemma descendants_iter: "xml_iter e = e # descendants e"
  by (simp add: descendants_def xml_iter_hd)

lemma find_all_tag_sub: "set (find_all_tag t e) \<subseteq> set (descendants e)"
  by (auto simp: find_all_tag_def)

lemma py_strip_ends:
  "py_strip u s = [] \<or> (\<not> isspace u (hd (py_strip u s)) \<and> \<not> isspace u (last (py_strip u s)))"
proof -
  let ?a = "dropWhile (isspace u) s"
  let ?b = "dropWhile (isspace u) (rev ?a)"
  have b: "?b = [] \<or> \<not> isspace u (hd ?b)" by (cases ?b) (auto dest: dropWhile_eq_Cons_conv [THEN iffD1])
  have a: "?a = [] \<or> \<not> isspace u (hd ?a)" by (cases ?a) (auto dest: dropWhile_eq_Cons_conv [THEN iffD1])
  show ?thesis
  proof (cases "?b = []")
    case True
    then show ?thesis by (simp add: py_strip_def)
  next
    case False
    have l: "last (rev ?b) = hd ?b" using False by (simp add: last_rev)
    have h: "hd (rev ?b) = hd ?a"
    proof -
      obtain n where "?b = drop n (rev ?a)" by (metis dropWhile_eq_drop)
      then have "rev ?b = take (length ?a - n) ?a" by (simp add: rev_drop)
      moreover have "length ?a - n \<noteq> 0" using False \<open>?b = drop n (rev ?a)\<close> by auto
      ultimately show ?thesis by (cases ?a) auto
    qed
    have "?a \<noteq> []"
    proof
      assume "?a = []"
      then have "?b = []" by (simp only: rev.simps dropWhile.simps)
      with False show False by simp
    qed
    with a have ha: "\<not> isspace u (hd ?a)" by blast
    from b False have hb: "\<not> isspace u (hd ?b)" by blast
    have "py_strip u s = rev ?b" by (simp add: py_strip_def)
    with l h ha hb show ?thesis by metis
  qed
qed

lemma py_strip_fixed:
  assumes "s = [] \<or> (\<not> isspace u (hd s) \<and> \<not> isspace u (last s))"
  shows "py_strip u s = s"
proof (cases s rule: rev_cases)
  case Nil
  then show ?thesis by (simp add: py_strip_def)
next
  case (snoc s' c)
  with assms have "\<not> isspace u c" and h: "\<not> isspace u (hd s)" by auto
  from h have "dropWhile (isspace u) s = s" by (cases s) simp_all
  with snoc \<open>\<not> isspace u c\<close> show ?thesis by (simp add: py_strip_def)
qed

lemma py_strip_idem: "py_strip u (py_strip u s) = py_strip u s"
  by (rule py_strip_fixed) (rule py_strip_ends)

end
