(* ===== verification/Lsj_Parser.thy ===== *)
theory Lsj_Parser
  imports Xml Synthesizer
begin

text \<open>
  The LSJ dictionary reader, class \<open>LSJParser\<close> of
  \<open>src/data-prep/create_perseus_database.py\<close> (lines 73-311). The XML file is read,
  thirteen entity references the DTD lacks are replaced by their characters, and the
  text is parsed by ElementTree (the parser is the parameter \<open>parse\<close>, \<open>None\<close> for a
  \<open>ParseError\<close>; \<open>ET.tostring\<close> is the parameter \<open>tostring\<close>). Each
  \<open>entry[@type="main"]\<close> becomes a row of \<open>dictionary_entries\<close>: its Greek headword
  (from \<open>form/orth[@lang="greek"]\<close>, else from the Beta-Code \<open>key\<close>), its senses with a
  translation, and the HTML and plain-text renderings. The row is an extension of the
  record \<open>lsj_entry\<close> the synthesiser reads.
\<close>

text \<open>\<open>extract_text_content\<close> (lines 85-107): text, each child's stripped text, tails.\<close>

fun extract_text_content :: "ucd \<Rightarrow> xml \<Rightarrow> ustr" where
  "extract_text_content u (Element t a x cs y) =
     py_strip u (x @ concat (map (\<lambda>c. extract_text_content u c @ xml_tail c) cs))"

text \<open>\<open>parse_entry_key\<close> (lines 109-122): six successive \<open>str.replace\<close> calls.\<close>

definition parse_entry_key :: "ustr \<Rightarrow> ustr" where
  "parse_entry_key key =
     (let k1 = py_replace key [0x29] [0x1FFE];
          k2 = py_replace k1 [0x28] [0x1FBF];
          k3 = py_replace k2 [0x2F] [0x301];
          k4 = py_replace k3 [0x5C] [0x300];
          k5 = py_replace k4 [0x3D] [0x342]
      in py_replace k5 [0x7C] [0x3B9])"

text \<open>
  What the six replacements do to one code point; the reference the chain is checked
  against.
\<close>

definition beta_key_char :: "cp \<Rightarrow> cp" where
  "beta_key_char c =
     (if c = 0x29 then 0x1FFE else if c = 0x28 then 0x1FBF else if c = 0x2F then 0x301
      else if c = 0x5C then 0x300 else if c = 0x3D then 0x342 else if c = 0x7C then 0x3B9
      else c)"

record sense_data =
  sense_level :: ustr
  sense_n :: ustr
  translation :: ustr
  usage :: ustr
  examples :: ustr

text \<open>The non-empty extracted texts of a list of elements, joined by \<open>sep\<close>.\<close>

definition joined_texts :: "ucd \<Rightarrow> ustr \<Rightarrow> xml list \<Rightarrow> ustr" where
  "joined_texts u sep es = py_join sep (filter (\<lambda>s. s \<noteq> []) (map (extract_text_content u) es))"

text \<open>\<open>parse_sense\<close> (lines 124-161).\<close>

definition parse_sense :: "ucd \<Rightarrow> xml \<Rightarrow> sense_data" where
  "parse_sense u e =
     \<lparr>sense_level = attr_or e ''level'' (asc ''0''), sense_n = attr_or e ''n'' [],
      translation = joined_texts u (asc ''; '') (find_all_child_path ''trans'' ''tr'' e),
      usage = joined_texts u (asc '', '') (find_all_tag ''usg'' e),
      examples = joined_texts u (asc '' | '') (find_all_tag_attr ''foreign'' ''lang'' (asc ''greek'') e)\<rparr>"

text \<open>One \<open>sense_html\<close> of \<open>format_entry_html\<close> (lines 176-196), for \<open>n\<close> senses.\<close>

definition sense_html :: "nat \<Rightarrow> sense_data \<Rightarrow> ustr" where
  "sense_html n s =
     asc ''<div class=\"sense\">'' @
     (if 1 < n \<and> sense_n s \<noteq> [] then asc ''<span class=\"sense-number\">'' @ sense_n s @ asc ''.</span> ''
      else []) @
     (if translation s \<noteq> [] then asc ''<span class=\"translation\">'' @ translation s @ asc ''</span>''
      else []) @
     (if usage s \<noteq> [] then asc '' <span class=\"usage\">('' @ usage s @ asc '')</span>'' else []) @
     (if examples s \<noteq> [] then asc ''<div class=\"examples\">'' @ examples s @ asc ''</div>'' else []) @
     asc ''</div>''"

text \<open>\<open>format_entry_html\<close> (lines 163-198): the parts joined by newlines.\<close>

definition format_entry_html :: "ustr \<Rightarrow> sense_data list \<Rightarrow> ustr \<Rightarrow> ustr" where
  "format_entry_html hw senses etym =
     py_join [0x0A]
       ([asc ''<div class=\"headword\"><strong>'' @ hw @ asc ''</strong></div>''] @
        (if etym \<noteq> [] then [asc ''<div class=\"etymology\"><em>'' @ etym @ asc ''</em></div>''] else []) @
        map (sense_html (length senses)) senses)"

text \<open>\<open>format_entry_plain\<close> (lines 200-216): the non-empty parts joined by spaces.\<close>

definition format_entry_plain :: "ustr \<Rightarrow> sense_data list \<Rightarrow> ustr \<Rightarrow> ustr" where
  "format_entry_plain hw senses etym =
     py_join [0x20]
       ([hw] @ (if etym \<noteq> [] then [etym] else []) @
        concat (map (\<lambda>s. (if translation s \<noteq> [] then [translation s] else []) @
                         (if usage s \<noteq> [] then [usage s] else []) @
                         (if examples s \<noteq> [] then [examples s] else [])) senses))"

text \<open>The entity table of \<open>parse_lsj_xml\<close> (lines 228-245), replaced in this order.\<close>

definition entity_replacements :: "(ustr \<times> ustr) list" where
  "entity_replacements =
     [(asc ''&lpar;'', [0x28]), (asc ''&rpar;'', [0x29]), (asc ''&mdash;'', [0x2014]),
      (asc ''&equals;'', [0x3D]), (asc ''&ast;'', [0x2A]), (asc ''&dagger;'', [0x2020]),
      (asc ''&colon;'', [0x3A]), (asc ''&agrave;'', [0xE0]), (asc ''&eacute;'', [0xE9]),
      (asc ''&breve;'', [0x2D8]), (asc ''&macr;'', [0xAF]), (asc ''&quest;'', [0x3F]),
      (asc ''&plus;'', [0x2B])]"

definition replace_entities :: "ustr \<Rightarrow> ustr" where
  "replace_entities s = fold (\<lambda>(e, r) s. py_replace s e r) entity_replacements s"

record dict_entry = lsj_entry +
  language_col :: ustr
  entry_xml :: ustr
  entry_html :: ustr
  entry_plain :: ustr
  entry_source :: ustr

text \<open>
  The body of the loop over \<open>entry[@type="main"]\<close> (lines 257-304): \<open>None\<close> for the
  two \<open>continue\<close>s, an entry without headword and one without a translated sense.
\<close>

definition lsj_entry_of :: "ucd \<Rightarrow> (xml \<Rightarrow> ustr) \<Rightarrow> xml \<Rightarrow> dict_entry option" where
  "lsj_entry_of u tostring e =
     (let key = attr_or e ''key'' [];
          hw0 = (case find_first (filter (\<lambda>d. attr_get d ''lang'' = Some (asc ''greek''))
                                   (find_all_child_path ''form'' ''orth'' e)) of
                   Some f \<Rightarrow> extract_text_content u f | None \<Rightarrow> []);
          hw = (if hw0 = [] \<and> key \<noteq> [] then parse_entry_key key else hw0)
      in if hw = [] then None
         else
           (let etym = (case find_first (find_all_tag ''etym'' e) of
                          Some x \<Rightarrow> extract_text_content u x | None \<Rightarrow> []);
                senses = filter (\<lambda>s. translation s \<noteq> []) (map (parse_sense u) (find_all_tag ''sense'' e))
            in if senses = [] then None
               else Some \<lparr>headword = hw, headword_normalized = normalize_greek u hw,
                          language_col = asc ''greek'', entry_xml = tostring e,
                          entry_html = format_entry_html hw senses etym,
                          entry_plain = format_entry_plain hw senses etym,
                          entry_source = asc ''LSJ''\<rparr>))"

text \<open>
  \<open>parse_lsj_xml\<close> (lines 218-311). \<open>content\<close> is the file's text, \<open>None\<close> when
  it cannot be read (\<open>FileNotFoundError\<close>, \<open>UnicodeDecodeError\<close>); both that and a
  parse error give the empty list.
\<close>

definition parse_lsj_xml ::
  "ucd \<Rightarrow> (ustr \<Rightarrow> xml option) \<Rightarrow> (xml \<Rightarrow> ustr) \<Rightarrow> ustr option \<Rightarrow> dict_entry list" where
  "parse_lsj_xml u parse tostring content =
     (case content of
        None \<Rightarrow> []
      | Some c \<Rightarrow>
          (case parse (replace_entities c) of
             None \<Rightarrow> []
           | Some r \<Rightarrow>
               List.map_filter (lsj_entry_of u tostring)
                 (find_all_tag_attr ''entry'' ''type'' (asc ''main'') r)))"

section \<open>Properties of the dictionary reader\<close>

lemma py_replace_single: "py_replace s [a] [b] = map (\<lambda>c. if c = a then b else c) s"
  by (induction s "[a]" "[b]" rule: py_replace.induct) (simp_all add: py_startswith_def)

text \<open>
  The six \<open>str.replace\<close> calls of \<open>parse_entry_key\<close> act code point by
  code point: the key is mapped through \<open>beta_key_char\<close>, no replacement feeding a later one.
\<close>

theorem parse_entry_key_map: "parse_entry_key k = map beta_key_char k"
  by (simp add: parse_entry_key_def py_replace_single beta_key_char_def)

text \<open>
  \<open>parse_entry_key\<close> turns the Beta-Code smooth breathing \<open>)\<close> into the
  rough breathing U+1FFE (dasia) and the rough breathing \<open>(\<close> into the smooth breathing
  U+1FBF (psili): the two are swapped.
\<close>

theorem parse_entry_key_breathings:
  "parse_entry_key (asc ''a)'') = [0x61, 0x1FFE] \<and> parse_entry_key (asc ''a('') = [0x61, 0x1FBF]"
  by (simp add: parse_entry_key_map beta_key_char_def asc_def)

lemma greek_nfd_ascii: "c < 0x80 \<Longrightarrow> greek_nfd c = [c]"
proof -
  assume c: "c < 0x80"
  have "map_of greek_basic_decomp c = None"
    using c by (auto simp: map_of_eq_None_iff greek_basic_decomp_def)
  moreover have "map_of greek_late_decomp c = None"
    using c by (auto simp: map_of_eq_None_iff greek_late_decomp_def)
  moreover have "\<not> ext_assigned c" using c by (simp add: ext_assigned_def)
  ultimately show ?thesis using c by (simp add: greek_nfd_def)
qed

lemma normalize_greek_ascii:
  assumes "c < 0x80"
  shows "normalize_greek greek_ucd [c] = []"
proof -
  have "greek_lower c = [c] \<or> greek_lower c = [c + 0x20]" by (simp add: greek_lower_def)
  then obtain d where "greek_lower c = [d]" "d < 0x100" using assms by auto
  with assms show ?thesis
    by (simp add: normalize_greek_def nfd_str_def drop_combining_def lower_str_def
        final_sigma_to_medial_def keep_char_def greek_range_def greek_ucd_def greek_nfd_ascii
        greek_combining_def)
qed

lemma normalize_greek_key_char:
  assumes "c < 0x80"
  shows "normalize_greek greek_ucd [beta_key_char c] = (if c = 0x7C then [0x3B9] else [])"
proof -
  consider "c = 0x29" | "c = 0x28" | "c = 0x2F" | "c = 0x5C" | "c = 0x3D" | "c = 0x7C"
    | "c \<notin> {0x29, 0x28, 0x2F, 0x5C, 0x3D, 0x7C}" by blast
  then show ?thesis
  proof cases
    case 7
    then have "beta_key_char c = c" by (auto simp: beta_key_char_def)
    with 7 assms normalize_greek_ascii show ?thesis by auto
  qed (simp_all add: beta_key_char_def normalize_greek_def nfd_str_def drop_combining_def
        lower_str_def final_sigma_to_medial_def keep_char_def greek_range_def greek_ucd_def
        greek_nfd_def greek_basic_decomp_def ext_assigned_def greek_late_decomp_def
        greek_combining_def greek_lower_def greek_isalpha_def)
qed

text \<open>
  A headword taken from an ASCII Beta-Code key keeps its Latin letters, and
  \<open>normalize_greek\<close> drops them with the spacing breathings and the accents: the
  normalised headword is one iota per iota-subscript sign \<open>|\<close> of the key, and empty
  for most keys.
\<close>

theorem key_headword_iotas:
  assumes "list_all (\<lambda>c. c < 0x80) k"
  shows "normalize_greek greek_ucd (parse_entry_key k) = replicate (count_list k 0x7C) 0x3B9"
  using assms
proof (induction k)
  case Nil
  then show ?case by (simp add: parse_entry_key_map)
next
  case (Cons c k)
  have "normalize_greek greek_ucd (parse_entry_key (c # k)) =
        normalize_greek greek_ucd [beta_key_char c] @ normalize_greek greek_ucd (parse_entry_key k)"
    using normalize_greek_append [of greek_ucd "[beta_key_char c]" "map beta_key_char k"]
    by (simp add: parse_entry_key_map)
  with Cons show ?case by (simp add: normalize_greek_key_char)
qed

lemma py_startswith_join: "py_startswith (py_join sep (x # xs)) x"
  by (cases xs) (simp_all add: py_startswith_def)

lemma lsj_entry_of_Some:
  assumes "lsj_entry_of u ts e = Some d"
  shows "headword d \<noteq> [] \<and> headword_normalized d = normalize_greek u (headword d) \<and>
         language_col d = asc ''greek'' \<and> entry_source d = asc ''LSJ'' \<and>
         py_startswith (entry_plain d) (headword d)"
  using assms
  by (auto simp: lsj_entry_of_def Let_def format_entry_plain_def py_startswith_join
      split: if_splits)

lemma set_parse_lsj_xml:
  "d \<in> set (parse_lsj_xml u p ts c) \<Longrightarrow> \<exists>e. lsj_entry_of u ts e = Some d"
  by (auto simp: parse_lsj_xml_def map_filter_def split: option.splits)

text \<open>
  The reader produces at most one row per \<open>entry[@type="main"]\<close> element.
\<close>

theorem parse_lsj_bound:
  "p (replace_entities s) = Some r \<Longrightarrow>
   length (parse_lsj_xml u p ts (Some s)) \<le> length (find_all_tag_attr ''entry'' ''type'' (asc ''main'') r)"
  by (simp add: parse_lsj_xml_def map_filter_def)

theorem key_headword_iotas_witness:
  "list_all (\<lambda>c. c < 0x80) (asc ''lo/gos'') \<and>
   normalize_greek greek_ucd (parse_entry_key (asc ''lo/gos'')) = []"
proof -
  have a: "list_all (\<lambda>c. c < 0x80) (asc ''lo/gos'')" by (simp add: asc_def)
  from key_headword_iotas [OF a] a show ?thesis by (simp add: asc_def)
qed

theorem parse_lsj_bound_witness:
  "(\<lambda>_ :: ustr. Some (Element ''TEI'' [] [] [] [])) (replace_entities []) = Some (Element ''TEI'' [] [] [] []) \<and>
   length (parse_lsj_xml greek_ucd (\<lambda>_. Some (Element ''TEI'' [] [] [] [])) (\<lambda>_. []) (Some [])) \<le>
     length (find_all_tag_attr ''entry'' ''type'' (asc ''main'') (Element ''TEI'' [] [] [] []))"
  using parse_lsj_bound [of "\<lambda>_ :: ustr. Some (Element ''TEI'' [] [] [] [])" "[]"] by simp

text \<open>
  Translations are put into the HTML of an entry without escaping: a
  translation containing markup such as \<open><b>\<close> appears verbatim in \<open>entry_html\<close>.
\<close>

theorem entry_html_unescaped:
  "py_contains
     (format_entry_html (gk ''logos'')
        [\<lparr>sense_level = asc ''0'', sense_n = [], translation = asc ''<b>word</b>'', usage = [],
          examples = []\<rparr>] [])
     (asc ''<b>'')"
proof -
  have "format_entry_html (gk ''logos'')
        [\<lparr>sense_level = asc ''0'', sense_n = [], translation = asc ''<b>word</b>'', usage = [],
          examples = []\<rparr>] [] =
     (asc ''<div class=\"headword\"><strong>'' @ gk ''logos'' @ asc ''</strong></div>'' @ [0x0A] @
      asc ''<div class=\"sense\"><span class=\"translation\">'') @ asc ''<b>'' @ asc ''word</b></span></div>''"
    by (simp add: format_entry_html_def sense_html_def asc_def)
  then show ?thesis unfolding py_contains_iff by blast
qed

end
