(* ===== verification/Py_Float.thy ===== *)
theory Py_Float
  imports Prelude
begin

text \<open>
  Python floats, for the few operations the alignment code performs on them: the
  quotient of two integers (\<open>max_line / max_section\<close>), the product of an integer and
  a float (\<open>section_num * lines_per_section\<close>), comparisons with integers, and
  \<open>int(x)\<close>, which truncates toward zero. A float is a pair \<open>(m, e)\<close> for the value
  \<open>m * 2 ^ e\<close>; every result is rounded to a 53-bit significand, to nearest with ties to
  even, as IEEE 754 binary64 does. Overflow and subnormal numbers are not modelled: the
  operands are line and section counts, far from either. The model is exact where
  Python is exact and rounds where Python rounds, so that the line ranges computed
  below are the ones the code computes, including the off-by-one ranges that rounding
  produces.
\<close>

type_synonym pyfloat = "int \<times> int"

text \<open>The number of binary digits of \<open>n\<close>.\<close>

fun nbits :: "nat \<Rightarrow> nat" where
  "nbits n = (if n = 0 then 0 else Suc (nbits (n div 2)))"

declare nbits.simps [simp del]

text \<open>
  Rounding of \<open>(m + \<epsilon>) * 2 ^ e\<close> to 53 bits, where \<open>0 \<le> \<epsilon> < 1\<close> and \<open>st\<close> says
  whether \<open>\<epsilon>\<close> is positive (the sticky bit of a division remainder).
\<close>

definition round53 :: "nat \<Rightarrow> int \<Rightarrow> bool \<Rightarrow> nat \<times> int" where
  "round53 m e st =
     (let k = nbits m - 53
      in if k = 0 then (m, e)
         else (let q = m div 2 ^ k; r = m mod 2 ^ k; h = 2 ^ (k - 1)
               in (if h < r \<or> (r = h \<and> (st \<or> odd q)) then q + 1 else q, e + int k)))"

definition fsigned :: "bool \<Rightarrow> nat \<times> int \<Rightarrow> pyfloat" where
  "fsigned neg f = ((if neg then - int (fst f) else int (fst f)), snd f)"

text \<open>
  \<open>n / d\<close> for integers: the quotient is computed with at least 54 significant bits and
  the remainder as sticky bit, then rounded.
\<close>

definition fdiv_int :: "int \<Rightarrow> int \<Rightarrow> pyfloat" where
  "fdiv_int n d =
     (if n = 0 then (0, 0)
      else (let a = nat \<bar>n\<bar>; b = nat \<bar>d\<bar>; k = 54 + nbits b - nbits a
            in fsigned ((n < 0) \<noteq> (d < 0))
                 (round53 ((a * 2 ^ k) div b) (- int k) ((a * 2 ^ k) mod b \<noteq> 0))))"

text \<open>\<open>n / x\<close> for an integer and a float: scaling by a power of two is exact.\<close>

definition fdiv_int_float :: "int \<Rightarrow> pyfloat \<Rightarrow> pyfloat" where
  "fdiv_int_float n f = (let q = fdiv_int n (fst f) in (fst q, snd q - snd f))"

text \<open>\<open>s * x\<close> for an integer and a float, and the product of two floats.\<close>

definition fmul_int :: "int \<Rightarrow> pyfloat \<Rightarrow> pyfloat" where
  "fmul_int s f = (let p = s * fst f in fsigned (p < 0) (round53 (nat \<bar>p\<bar>) (snd f) False))"

text \<open>\<open>int(x)\<close>: truncation toward zero.\<close>

definition ftrunc :: "pyfloat \<Rightarrow> int" where
  "ftrunc f =
     (if 0 \<le> snd f then fst f * 2 ^ nat (snd f)
      else sgn (fst f) * (\<bar>fst f\<bar> div 2 ^ nat (- snd f)))"

text \<open>\<open>a < x\<close> for an integer and a float, and \<open>x < y\<close> for two floats.\<close>

definition flt_int :: "int \<Rightarrow> pyfloat \<Rightarrow> bool" where
  "flt_int a f =
     (if 0 \<le> snd f then a < fst f * 2 ^ nat (snd f) else a * 2 ^ nat (- snd f) < fst f)"

definition flt :: "pyfloat \<Rightarrow> pyfloat \<Rightarrow> bool" where
  "flt f g =
     (let e = min (snd f) (snd g)
      in fst f * 2 ^ nat (snd f - e) < fst g * 2 ^ nat (snd g - e))"

text \<open>The float of a Python integer literal or count (exact below \<open>2 ^ 53\<close>).\<close>

definition float_of_int :: "int \<Rightarrow> pyfloat" where
  "float_of_int n = (n, 0)"

section \<open>Evaluation and basic facts\<close>

lemma nbits_0 [simp]: "nbits 0 = 0"
  and nbits_1 [simp]: "nbits 1 = 1"
  and nbits_Suc_0 [simp]: "nbits (Suc 0) = 1"
  and nbits_One [simp]: "nbits (numeral num.One) = 1"
  and nbits_Bit0 [simp]: "nbits (numeral (num.Bit0 k)) = Suc (nbits (numeral k))"
  and nbits_Bit1 [simp]: "nbits (numeral (num.Bit1 k)) = Suc (nbits (numeral k))"
  by (simp_all add: nbits.simps)

lemmas float_eval = round53_def fsigned_def fdiv_int_def fdiv_int_float_def fmul_int_def
  ftrunc_def flt_int_def flt_def float_of_int_def

lemma round53_0 [simp]: "round53 0 e st = (0, e)"
  by (simp add: round53_def)

lemma fmul_int_0 [simp]: "fmul_int 0 f = (0, snd f)"
  by (simp add: fmul_int_def fsigned_def)

lemma ftrunc_zero [simp]: "ftrunc (0, e) = 0"
  by (simp add: ftrunc_def)

end
