(* ===== verification/Section_Mapping.thy ===== *)
theory Section_Mapping
  imports Py_Float
begin

text \<open>
  Section-to-line mapping. Prose translations number their segments by section while
  the Greek text numbers lines; several versions of the build spread \<open>S\<close> sections
  evenly over the \<open>L\<close> lines of a book, section \<open>s\<close> getting the lines from
  \<open>int((s-1) * L/S) + 1\<close> to \<open>int(s * L/S)\<close> (clamped to \<open>L\<close>), all in float arithmetic:
  \<^item> \<open>get_section_line_mapping\<close> of \<open>create_perseus_database.py\<close> (lines 691-734), with
    two tests for when the numbers are sections;
  \<^item> its earlier version in \<open>backup/create_perseus_database_all_authors.py\<close>
    (lines 652-681), with one test;
  \<^item> \<open>create_section_to_line_mapping\<close> of \<open>create_perseus_database_fixed.py\<close>
    (lines 11-61), which divides the number of lines rather than the largest line number;
  \<^item> \<open>insert_translation_segment_with_alignment\<close> of \<open>translation_alignment_patch.py\<close>
    (lines 29-75), which estimates the number of sections from each section number.
  A mapping is the dictionary the code builds, as the list of its items in insertion
  order; \<open>map_of\<close> looks a section up. The database queries are parameters: the line
  count, the largest line number (\<open>None\<close> for SQL \<open>NULL\<close>) and the largest section.
\<close>

text \<open>The loop shared by the versions (lines 709-718 and 723-732 of the current one).\<close>

definition proportional_map :: "int \<Rightarrow> int \<Rightarrow> (int \<times> (int \<times> int)) list" where
  "proportional_map max_line max_section =
     (let lps = fdiv_int max_line max_section
      in map (\<lambda>s. (s, (ftrunc (fmul_int (s - 1) lps) + 1, min (ftrunc (fmul_int s lps)) max_line)))
             [1..max_section])"

text \<open>
  \<open>get_section_line_mapping(cursor, book_id, max_section, segment_count)\<close>; Python's
  truth tests: \<open>not x\<close> holds for \<open>0\<close> and \<open>None\<close>.
\<close>

definition get_section_line_mapping ::
  "int \<Rightarrow> int option \<Rightarrow> int \<Rightarrow> int \<Rightarrow> (int \<times> (int \<times> int)) list" where
  "get_section_line_mapping line_count max_line max_section segment_count =
     (case max_line of
        None \<Rightarrow> []
      | Some ml \<Rightarrow>
          if line_count = 0 \<or> ml = 0 \<or> max_section = 0 then []
          else if segment_count \<noteq> 0 \<and> max_section = segment_count \<and>
                  flt_int max_section (fdiv_int ml 2)
          then proportional_map ml max_section
          else if flt_int max_section (fdiv_int ml 3) \<and> max_section < 200
          then proportional_map ml max_section
          else [])"

text \<open>The earlier version: a single test, \<open>max_section < max_line / 2\<close>.\<close>

definition get_section_line_mapping_v1 :: "int \<Rightarrow> int option \<Rightarrow> int \<Rightarrow> (int \<times> (int \<times> int)) list" where
  "get_section_line_mapping_v1 line_count max_line max_section =
     (case max_line of
        None \<Rightarrow> []
      | Some ml \<Rightarrow>
          if line_count = 0 \<or> ml = 0 \<or> max_section = 0 then []
          else if flt_int max_section (fdiv_int ml 2) then proportional_map ml max_section
          else [])"

text \<open>
  \<open>create_section_to_line_mapping\<close>: the number of lines \<open>total_lines\<close> (the length of
  the fetched line list) and \<open>MAX(start_line)\<close> of the single-line segments.
\<close>

definition create_section_to_line_mapping :: "int \<Rightarrow> int option \<Rightarrow> (int \<times> (int \<times> int)) list" where
  "create_section_to_line_mapping total_lines max_section =
     (if total_lines = 0 then []
      else case max_section of
             None \<Rightarrow> []
           | Some ms \<Rightarrow> if ms = 0 then [] else proportional_map total_lines ms)"

text \<open>
  \<open>insert_translation_segment_with_alignment\<close>: the line range given to one segment
  numbered \<open>section_num\<close>; \<open>line_count\<close> and \<open>max_line\<close> come from the patch's
  \<open>get_section_line_mapping\<close>, \<open>(None, None)\<close> for a book without lines.
\<close>

definition patch_segment_lines :: "int option \<Rightarrow> int option \<Rightarrow> int \<Rightarrow> int \<times> int" where
  "patch_segment_lines line_count max_line section_num =
     (case (line_count, max_line) of
        (Some lc, Some ml) \<Rightarrow>
          if lc \<noteq> 0 \<and> ml \<noteq> 0 \<and> flt_int section_num (fdiv_int ml 2) then
            (let est = fmul_int section_num (3, -1)
             in if flt est (fdiv_int ml 2) then
                  (let lps = fdiv_int_float ml est
                   in (ftrunc (fmul_int (section_num - 1) lps) + 1,
                       min (ftrunc (fmul_int section_num lps)) ml))
                else (section_num, section_num))
          else (section_num, section_num)
      | _ \<Rightarrow> (section_num, section_num))"

text \<open>The patch's \<open>get_section_line_mapping(cursor, book_id)\<close> (lines 9-27).\<close>

definition patch_line_info :: "int \<Rightarrow> int option \<Rightarrow> int option \<times> int option" where
  "patch_line_info line_count max_line =
     (if line_count = 0 then (None, None) else (Some line_count, max_line))"

section \<open>Properties of the section mappings\<close>

text \<open>
  Whatever the float rounding, the proportional mapping has one entry
  per section \<open>1..S\<close> in order, the first range starts at line 1, each range starts
  right after the previous one ends (unless that one was clamped to the last line), and
  no range ends after the last line.
\<close>

theorem proportional_map_contiguous:
  assumes "0 < S"
  shows "map fst (proportional_map L S) = [1..S] \<and>
         fst (snd (hd (proportional_map L S))) = 1 \<and>
         successively (\<lambda>(_, (_, b)) (_, (a', _)). a' = b + 1 \<or> b = L) (proportional_map L S) \<and>
         list_all (\<lambda>(_, (_, b)). b \<le> L) (proportional_map L S)"
proof (intro conjI)
  let ?lps = "fdiv_int L S"
  let ?f = "\<lambda>s. (s, (ftrunc (fmul_int (s - 1) ?lps) + 1, min (ftrunc (fmul_int s ?lps)) L))"
  have pm: "proportional_map L S = map ?f [1..S]" by (simp add: proportional_map_def Let_def)
  show "map fst (proportional_map L S) = [1..S]" by (simp add: pm comp_def)
  have "[1..S] = 1 # [2..S]" using assms by (simp add: upto_rec1)
  then show "fst (snd (hd (proportional_map L S))) = 1" by (simp add: pm)
  have "successively (\<lambda>x y. (\<lambda>(_, (_, b)) (_, (a', _)). a' = b + 1 \<or> b = L) (?f x) (?f y)) [1..S]"
    by (rule successively_mono [OF successively_upto]) (auto simp: min_def)
  then show "successively (\<lambda>(_, (_, b)) (_, (a', _)). a' = b + 1 \<or> b = L) (proportional_map L S)"
    by (simp add: pm successively_map_conv)
  show "list_all (\<lambda>(_, (_, b)). b \<le> L) (proportional_map L S)"
    by (simp add: pm list_all_iff)
qed

theorem proportional_map_contiguous_witness:
  "(0::int) < 2 \<and> map fst (proportional_map 5 2) = [1..2] \<and>
   fst (snd (hd (proportional_map 5 2))) = 1 \<and>
   successively (\<lambda>(_, (_, b)) (_, (a', _)). a' = b + 1 \<or> b = 5) (proportional_map 5 2) \<and>
   list_all (\<lambda>(_, (_, b)). b \<le> 5) (proportional_map 5 2)"
  using proportional_map_contiguous [of 2 5] by simp

text \<open>
  The alignment patch estimates the number of sections as
  \<open>1.5 * section_num\<close>, so \<open>section_num * lines_per_section\<close> is about \<open>2/3\<close> of the
  line count for every section: in a book of 866 lines, sections 1 and 196 both end at
  line 577 and their ranges overlap.
\<close>

theorem patch_segments_same_end:
  "patch_segment_lines (Some 866) (Some 866) 1 = (1, 577) \<and>
   patch_segment_lines (Some 866) (Some 866) 196 = (575, 577)"
  by (simp add: patch_segment_lines_def float_eval)

text \<open>
  The fixed build divides the number of lines, not the largest line
  number: six lines in two sections are mapped to lines 1-3 and 4-6 even when the book
  numbers its lines 1-3 and 101-103.
\<close>

theorem fixed_mapping_counts_lines:
  "create_section_to_line_mapping 6 (Some 2) = [(1, (1, 3)), (2, (4, 6))]"
  by (simp add: create_section_to_line_mapping_def proportional_map_def float_eval upto.simps)

text \<open>
  The current mapping refuses 250 sections over 600 lines (at least
  200 sections, and their number differs from the segment count), which the earlier
  version maps.
\<close>

theorem section_map_versions_differ:
  "get_section_line_mapping 600 (Some 600) 250 240 = [] \<and>
   get_section_line_mapping_v1 600 (Some 600) 250 \<noteq> []"
proof
  show "get_section_line_mapping 600 (Some 600) 250 240 = []"
    by (simp add: get_section_line_mapping_def float_eval)
  have "get_section_line_mapping_v1 600 (Some 600) 250 = proportional_map 600 250"
    by (simp add: get_section_line_mapping_v1_def float_eval)
  moreover have "proportional_map 600 250 \<noteq> []"
    unfolding proportional_map_def Let_def by (simp only: map_is_Nil_conv upto_Nil not_less)
  ultimately show "get_section_line_mapping_v1 600 (Some 600) 250 \<noteq> []" by simp
qed

end
