(* ===== verification/Tei_Text.thy ===== *)
theory Tei_Text
  imports Xml Normalizer
begin

text \<open>
  The TEI text reader of \<open>src/data-prep/create_perseus_database.py\<close>:
  \<open>process_text_file\<close> (lines 1465-1688) and the two prose readers it calls,
  \<open>process_prose_with_books\<close> (lines 1227-1312) and \<open>process_prose_text\<close>
  (lines 1314-1463). A parsed TEI file becomes rows of three tables of the database:
  \<open>books\<close> (primary key \<open>id\<close>), \<open>text_lines\<close> and \<open>words\<close> (both keyed by an
  \<open>AUTOINCREMENT\<close> id, so that \<open>INSERT OR IGNORE\<close> always inserts). The tables are
  the fields of the record \<open>corpus_db\<close>: \<open>books\<close> a map from the id, the other two
  lists in insertion order. \<open>ET.tostring\<close> is the parameter \<open>ts\<close>; the parse of the
  file is an \<open>xml option\<close>, \<open>None\<close> for the exception the reader catches.
\<close>

record book_row =
  book_id :: ustr
  book_work_id :: ustr
  book_number :: int
  book_label :: ustr
  book_start_line :: int
  book_end_line :: int
  book_line_count :: int

record line_row =
  line_book_id :: ustr
  line_number :: int
  line_text :: ustr
  line_xml :: ustr
  line_speaker :: "ustr option"

record word_row =
  word :: ustr
  word_normalized :: ustr
  word_book_id :: ustr
  word_line_number :: int
  word_position :: nat

record corpus_db =
  books :: "ustr \<rightharpoonup> book_row"
  text_lines :: "line_row list"
  words :: "word_row list"

text \<open>The tables as \<open>create_database\<close> creates them (lines 2554-2599), empty.\<close>

definition empty_corpus :: corpus_db where
  "empty_corpus = \<lparr>books = Map.empty, text_lines = [], words = []\<rparr>"

text \<open>A line collected before insertion: the dictionaries \<open>{'number', 'text', 'xml', 'speaker'}\<close>.\<close>

record tei_line =
  tl_number :: int
  tl_text :: ustr
  tl_xml :: ustr
  tl_speaker :: "ustr option"

section \<open>Insertion of a book\<close>

text \<open>\<open>INSERT OR IGNORE INTO books\<close> and \<open>INSERT OR REPLACE INTO books\<close>.\<close>

definition insert_book_ignore :: "book_row \<Rightarrow> corpus_db \<Rightarrow> corpus_db" where
  "insert_book_ignore b db =
     (if books db (book_id b) = None then db\<lparr>books := (books db)(book_id b \<mapsto> b)\<rparr> else db)"

definition insert_book_replace :: "book_row \<Rightarrow> corpus_db \<Rightarrow> corpus_db" where
  "insert_book_replace b db = db\<lparr>books := (books db)(book_id b \<mapsto> b)\<rparr>"

text \<open>The normalised form of a word: \<open>normalize_greek\<close> for Greek, \<open>word.lower()\<close> otherwise.\<close>

definition word_norm :: "ucd \<Rightarrow> language \<Rightarrow> ustr \<Rightarrow> ustr" where
  "word_norm u lang w = (case lang of Greek \<Rightarrow> normalize_greek u w | OtherLanguage \<Rightarrow> lower_str u w)"

text \<open>
  The rows \<open>INSERT INTO words\<close> adds for one line: the words of \<open>text.split()\<close>,
  numbered from 1 by \<open>enumerate\<close>, except those whose normalised form is empty.
\<close>

definition line_words :: "ucd \<Rightarrow> language \<Rightarrow> ustr \<Rightarrow> int \<Rightarrow> ustr \<Rightarrow> word_row list" where
  "line_words u lang bid n t =
     concat (map (\<lambda>(pos, w).
               if word_norm u lang w = [] then []
               else [\<lparr>word = w, word_normalized = word_norm u lang w, word_book_id = bid,
                      word_line_number = n, word_position = pos\<rparr>])
             (zip [1..<Suc (length (split_ws u t))] (split_ws u t)))"

text \<open>One iteration of the insertion loop: the line, then its words.\<close>

definition store_line :: "ucd \<Rightarrow> language \<Rightarrow> ustr \<Rightarrow> corpus_db \<Rightarrow> tei_line \<Rightarrow> corpus_db" where
  "store_line u lang bid db l =
     db\<lparr>text_lines := text_lines db @
          [\<lparr>line_book_id = bid, line_number = tl_number l, line_text = tl_text l,
            line_xml = tl_xml l, line_speaker = tl_speaker l\<rparr>],
        words := words db @ line_words u lang bid (tl_number l) (tl_text l)\<rparr>"

text \<open>
  A book with its lines, as every branch of \<open>process_text_file\<close> and
  \<open>process_prose_text\<close> inserts it: the book row (\<open>start_line\<close> 1, \<open>end_line\<close> and
  \<open>line_count\<close> the number of lines), then each line with its words; nothing when
  there are no lines.
\<close>

definition store_book ::
  "ucd \<Rightarrow> language \<Rightarrow> ustr \<Rightarrow> ustr \<Rightarrow> int \<Rightarrow> ustr \<Rightarrow> tei_line list \<Rightarrow> corpus_db \<Rightarrow> corpus_db" where
  "store_book u lang work_id bid num label ls db =
     (if ls = [] then db
      else foldl (store_line u lang bid)
             (insert_book_ignore
                \<lparr>book_id = bid, book_work_id = work_id, book_number = num, book_label = label,
                 book_start_line = 1, book_end_line = int (length ls),
                 book_line_count = int (length ls)\<rparr> db) ls)"

text \<open>\<open>f"{work_id}.{book_num:03d}"\<close>.\<close>

definition book_key :: "ustr \<Rightarrow> int \<Rightarrow> ustr" where
  "book_key work_id n = work_id @ [0x2E] @ py_fmt03 n"

section \<open>Verse\<close>

text \<open>The elements read as verse lines: tags ending in \<open>l\<close> or \<open>line\<close>.\<close>

definition is_line_elem :: "xml \<Rightarrow> bool" where
  "is_line_elem e = (tag_ends e ''l'' \<or> tag_ends e ''line'')"

definition verse_skips :: "ustr list" where
  "verse_skips = [asc ''Gregory Crane'', asc ''pointer pattern'']"

definition drama_skips :: "ustr list" where
  "drama_skips = [asc ''Gregory Crane'', asc ''pointer pattern'', asc ''This pointer'']"

text \<open>\<open>text and not any(skip in text for skip in skips)\<close>.\<close>

definition keep_text :: "ustr list \<Rightarrow> ustr \<Rightarrow> bool" where
  "keep_text skips t = (t \<noteq> [] \<and> \<not> list_ex (py_contains t) skips)"

definition elem_text :: "ucd \<Rightarrow> xml \<Rightarrow> ustr" where
  "elem_text u e = py_strip u (xml_itertext e)"

text \<open>
  The loop over \<open>elem.iter()\<close> that numbers the verse elements: \<open>line_num\<close> counts
  every one of them, the kept ones become lines with that number.
\<close>

fun number_lines :: "ucd \<Rightarrow> (xml \<Rightarrow> ustr) \<Rightarrow> int \<Rightarrow> xml list \<Rightarrow> tei_line list" where
  "number_lines u ts n [] = []"
| "number_lines u ts n (e # es) =
     (if is_line_elem e then
        (if keep_text verse_skips (elem_text u e)
         then [\<lparr>tl_number = n + 1, tl_text = elem_text u e, tl_xml = ts e, tl_speaker = None\<rparr>]
         else []) @ number_lines u ts (n + 1) es
      else number_lines u ts n es)"

text \<open>
  The loop over the book divisions (lines 1571-1629): a \<open>div\<close> with
  \<open>type="textpart"\<close> and \<open>subtype\<close> \<open>book\<close> (any case) is numbered by its \<open>n\<close>
  when that is a digit string and by \<open>books_processed + 1\<close> otherwise;
  \<open>books_processed\<close> counts the books stored.
\<close>

definition is_book_div :: "ucd \<Rightarrow> xml \<Rightarrow> bool" where
  "is_book_div u d =
     (tag_ends d ''div'' \<and> attr_or d ''type'' [] = asc ''textpart'' \<and>
      lower_str u (attr_or d ''subtype'' []) = asc ''book'')"

definition verse_book_step ::
  "ucd \<Rightarrow> (xml \<Rightarrow> ustr) \<Rightarrow> language \<Rightarrow> ustr \<Rightarrow> nat \<times> corpus_db \<Rightarrow> xml \<Rightarrow> nat \<times> corpus_db" where
  "verse_book_step u ts lang work_id st d =
     (if is_book_div u d then
        (let n = attr_or d ''n'' [];
             num = (if py_isdigit n then digits_val n else int (fst st) + 1);
             ls = number_lines u ts 0 (xml_iter d)
         in if ls = [] then st
            else (fst st + 1,
                  store_book u lang work_id (book_key work_id num) num
                    (asc ''Book '' @ py_str_int num) ls (snd st)))
      else st)"

definition verse_books ::
  "ucd \<Rightarrow> (xml \<Rightarrow> ustr) \<Rightarrow> language \<Rightarrow> ustr \<Rightarrow> xml \<Rightarrow> corpus_db \<Rightarrow> nat \<times> corpus_db" where
  "verse_books u ts lang work_id r db = foldl (verse_book_step u ts lang work_id) (0, db) (xml_iter r)"

text \<open>The single book of a verse text without book divisions (lines 1631-1682).\<close>

definition verse_single :: "ucd \<Rightarrow> (xml \<Rightarrow> ustr) \<Rightarrow> language \<Rightarrow> ustr \<Rightarrow> xml \<Rightarrow> corpus_db \<Rightarrow> corpus_db" where
  "verse_single u ts lang work_id r db =
     store_book u lang work_id (book_key work_id 1) 1 (asc ''Book 1'')
       (number_lines u ts 0 (xml_iter r)) db"

section \<open>Drama\<close>

text \<open>
  The loop of the drama branch (lines 1505-1526): the last \<open>speaker\<close> element's text
  is the current speaker (\<open>None\<close> for an element without text); a verse element
  whose \<open>n\<close> is a digit string is a line with that number.
\<close>

definition drama_step ::
  "ucd \<Rightarrow> (xml \<Rightarrow> ustr) \<Rightarrow> ustr option \<times> tei_line list \<Rightarrow> xml \<Rightarrow> ustr option \<times> tei_line list" where
  "drama_step u ts st e =
     (let spk = (if tag_ends e ''speaker'' then (if xml_text e = [] then None else Some (xml_text e))
                 else fst st)
      in if tag_ends e ''l'' then
           (case attr_get e ''n'' of
              Some n \<Rightarrow>
                if py_isdigit n \<and> keep_text drama_skips (elem_text u e)
                then (spk, snd st @ [\<lparr>tl_number = digits_val n, tl_text = elem_text u e,
                                       tl_xml = ts e, tl_speaker = spk\<rparr>])
                else (spk, snd st)
            | None \<Rightarrow> (spk, snd st))
         else (spk, snd st))"

text \<open>The lines, then \<open>lines.sort(key=lambda x: x['number'])\<close> (a stable sort).\<close>

definition drama_lines :: "ucd \<Rightarrow> (xml \<Rightarrow> ustr) \<Rightarrow> xml \<Rightarrow> tei_line list" where
  "drama_lines u ts r = sort_key tl_number (snd (foldl (drama_step u ts) (None, []) (xml_iter r)))"

definition drama_text :: "ucd \<Rightarrow> (xml \<Rightarrow> ustr) \<Rightarrow> language \<Rightarrow> ustr \<Rightarrow> xml \<Rightarrow> corpus_db \<Rightarrow> corpus_db" where
  "drama_text u ts lang work_id r db =
     store_book u lang work_id (book_key work_id 1) 1 (asc ''Complete Text'') (drama_lines u ts r) db"

section \<open>Prose\<close>

text \<open>
  \<open>re.split(r'[.!?\<cdot>;]\s+', text)\<close> for Greek and \<open>re.split(r'[.!?]\s+', text)\<close>
  otherwise: the text is cut after a stop followed by whitespace, the stop and the
  whole run of whitespace (\<open>\s+\<close> is greedy; \<open>\s\<close> is \<open>isspace\<close>) being dropped.
\<close>

definition sentence_stops :: "language \<Rightarrow> cp list" where
  "sentence_stops lang =
     (case lang of Greek \<Rightarrow> [0x2E, 0x21, 0x3F, 0xB7, 0x3B] | OtherLanguage \<Rightarrow> [0x2E, 0x21, 0x3F])"

function split_at_stops :: "cp list \<Rightarrow> (cp \<Rightarrow> bool) \<Rightarrow> ustr \<Rightarrow> ustr \<Rightarrow> ustr list" where
  "split_at_stops st sp cur [] = [rev cur]"
| "split_at_stops st sp cur [c] = [rev (c # cur)]"
| "split_at_stops st sp cur (c # d # s) =
     (if c \<in> set st \<and> sp d then rev cur # split_at_stops st sp [] (dropWhile sp s)
      else split_at_stops st sp (c # cur) (d # s))"
  by pat_completeness auto

termination
  by (relation "measure (\<lambda>(_, _, _, s). length s)") (auto intro: le_less_trans [OF length_dropWhile_le])

definition split_sentences :: "ucd \<Rightarrow> language \<Rightarrow> ustr \<Rightarrow> ustr list" where
  "split_sentences u lang t = split_at_stops (sentence_stops lang) (isspace u) [] t"

text \<open>\<open>re.sub(r'\s+', ' ', text)\<close>.\<close>

function collapse_ws :: "ucd \<Rightarrow> ustr \<Rightarrow> ustr" where
  "collapse_ws u [] = []"
| "collapse_ws u (c # s) =
     (if isspace u c then 0x20 # collapse_ws u (dropWhile (isspace u) s) else c # collapse_ws u s)"
  by pat_completeness auto

termination
  by (relation "measure (\<lambda>(_, s). length s)") (auto intro: le_less_trans [OF length_dropWhile_le])

text \<open>
  The editorial notes the prose readers drop: \<open>re.match(r'^[A-Z]:', s)\<close>, a start
  \<open>em.\<close> or \<open>add.\<close>, or a mention of Nauck or Mullach.
\<close>

definition note_sentence :: "ustr \<Rightarrow> bool" where
  "note_sentence s =
     ((case s of c # d # _ \<Rightarrow> 0x41 \<le> c \<and> c \<le> 0x5A \<and> d = 0x3A | _ \<Rightarrow> False) \<or>
      py_startswith s (asc ''em.'') \<or> py_startswith s (asc ''add.'') \<or>
      py_contains s (asc ''Nauck'') \<or> py_contains s (asc ''Mullach''))"

text \<open>The sentence filters of the paragraph branch and of the section-text branch.\<close>

definition para_sentence_ok :: "ustr \<Rightarrow> bool" where
  "para_sentence_ok s =
     (s \<noteq> [] \<and> 10 < length s \<and> \<not> note_sentence s \<and> \<not> py_startswith s (asc ''id.''))"

definition section_sentence_ok :: "ustr \<Rightarrow> bool" where
  "section_sentence_ok s = (s \<noteq> [] \<and> 20 < length s \<and> \<not> note_sentence s)"

definition is_para :: "xml \<Rightarrow> bool" where
  "is_para e = tag_ends e ''p''"

definition is_section_div :: "xml \<Rightarrow> bool" where
  "is_section_div e =
     (tag_ends e ''div'' \<and> attr_get e ''type'' = Some (asc ''textpart'') \<and>
      (attr_get e ''subtype'' = Some (asc ''section'') \<or> attr_get e ''subtype'' = Some (asc ''chapter'')))"

text \<open>The sentences of one paragraph: its stripped text, if longer than five, split.\<close>

definition para_sentences :: "ucd \<Rightarrow> language \<Rightarrow> xml \<Rightarrow> ustr list" where
  "para_sentences u lang p =
     (if elem_text u p \<noteq> [] \<and> 5 < length (elem_text u p)
      then filter para_sentence_ok (map (py_strip u) (split_sentences u lang (elem_text u p)))
      else [])"

definition section_para_sentences :: "ucd \<Rightarrow> language \<Rightarrow> xml \<Rightarrow> ustr list" where
  "section_para_sentences u lang e = concat (map (para_sentences u lang) (filter is_para (xml_iter e)))"

text \<open>
  The text of a section without paragraphs (lines 1381-1406): its own stripped text
  (the paragraph test there can no longer hold), or, if that is shorter than 20, the
  stripped texts of its children other than notes, milestones and anchored elements.
\<close>

definition section_own_text :: "ucd \<Rightarrow> xml \<Rightarrow> ustr" where
  "section_own_text u e =
     collapse_ws u (py_join [0x20] (filter (\<lambda>s. s \<noteq> [])
       (map (\<lambda>x. py_strip u (xml_text x))
          (filter (\<lambda>x. (tag_ends x ''p'' \<or> (tag_ends x ''div'' \<and> x = e)) \<and>
                       \<not> (tag_ends x ''note'' \<or> tag_ends x ''milestone'')) (xml_iter e)))))"

definition section_child_text :: "ucd \<Rightarrow> xml \<Rightarrow> ustr" where
  "section_child_text u e =
     collapse_ws u (py_join [0x20] (filter (\<lambda>s. s \<noteq> [])
       (map (\<lambda>c. py_strip u (xml_itertext c))
          (filter (\<lambda>c. \<not> (tag_ends c ''note'' \<or> tag_ends c ''milestone'' \<or> attr_get c ''anchored'' \<noteq> None))
             (xml_children e)))))"

definition section_text :: "ucd \<Rightarrow> xml \<Rightarrow> ustr" where
  "section_text u e =
     (if section_own_text u e = [] \<or> length (section_own_text u e) < 20 then section_child_text u e
      else section_own_text u e)"

text \<open>
  The sentences of a section (lines 1345-1424): those of its paragraphs if it has an
  element whose tag ends in \<open>p\<close>, else those of its text when longer than 20.
\<close>

definition section_sentences :: "ucd \<Rightarrow> language \<Rightarrow> xml \<Rightarrow> ustr list" where
  "section_sentences u lang e =
     (if list_ex is_para (xml_iter e) then section_para_sentences u lang e
      else if section_text u e \<noteq> [] \<and> 20 < length (section_text u e)
      then filter section_sentence_ok (map (py_strip u) (split_sentences u lang (section_text u e)))
      else [])"

text \<open>The sentences kept, numbered by \<open>line_num\<close> from 1, with \<open>xml\<close> the empty string.\<close>

definition number_sentences :: "ustr list \<Rightarrow> tei_line list" where
  "number_sentences ss =
     map (\<lambda>(i, s). \<lparr>tl_number = int i, tl_text = s, tl_xml = [], tl_speaker = None\<rparr>)
       (zip [1..<Suc (length ss)] ss)"

text \<open>
  \<open>int(s)\<close> on a string: surrounding whitespace, an optional sign, ASCII digits with
  single underscores between them; \<open>None\<close> for the \<open>ValueError\<close>.
\<close>

definition int_body_ok :: "ustr \<Rightarrow> bool" where
  "int_body_ok s =
     (s \<noteq> [] \<and> list_all (\<lambda>c. is_ascii_digit c \<or> c = 0x5F) s \<and> is_ascii_digit (hd s) \<and>
      is_ascii_digit (last s) \<and> \<not> py_contains s [0x5F, 0x5F])"

definition py_int :: "ucd \<Rightarrow> ustr \<Rightarrow> int option" where
  "py_int u s =
     (case py_strip u s of
        [] \<Rightarrow> None
      | c # r \<Rightarrow>
          if c = 0x2D \<and> int_body_ok r then Some (- digits_val (filter is_ascii_digit r))
          else if c = 0x2B \<and> int_body_ok r then Some (digits_val (filter is_ascii_digit r))
          else if int_body_ok (c # r) then Some (digits_val (filter is_ascii_digit (c # r)))
          else None)"

text \<open>
  \<open>process_prose_with_books\<close>: for each book division, \<open>INSERT OR REPLACE\<close> of the
  book row, \<open>DELETE FROM text_lines WHERE book_id = ?\<close>, and \<open>INSERT INTO
  text_lines\<close> of its sentences; no words are inserted.
\<close>

definition delete_book_lines :: "ustr \<Rightarrow> corpus_db \<Rightarrow> corpus_db" where
  "delete_book_lines bid db = db\<lparr>text_lines := filter (\<lambda>l. line_book_id l \<noteq> bid) (text_lines db)\<rparr>"

definition insert_line_plain :: "ustr \<Rightarrow> corpus_db \<Rightarrow> tei_line \<Rightarrow> corpus_db" where
  "insert_line_plain bid db l =
     db\<lparr>text_lines := text_lines db @
          [\<lparr>line_book_id = bid, line_number = tl_number l, line_text = tl_text l,
            line_xml = tl_xml l, line_speaker = None\<rparr>]\<rparr>"

definition prose_book_step ::
  "ucd \<Rightarrow> language \<Rightarrow> ustr \<Rightarrow> nat \<times> corpus_db \<Rightarrow> xml \<Rightarrow> nat \<times> corpus_db" where
  "prose_book_step u lang work_id st d =
     (if is_book_div u d then
        (let num = (case py_int u (attr_or d ''n'' (py_str_int (int (fst st) + 1))) of
                      Some k \<Rightarrow> k | None \<Rightarrow> int (fst st) + 1);
             bid = book_key work_id num;
             ls = number_sentences (concat (map (section_para_sentences u lang)
                                              (filter is_section_div (xml_iter d))))
         in (fst st + 1,
             if ls = [] then snd st
             else foldl (insert_line_plain bid)
                    (delete_book_lines bid
                       (insert_book_replace
                          \<lparr>book_id = bid, book_work_id = work_id, book_number = num,
                           book_label = asc ''Book '' @ py_str_int num, book_start_line = 1,
                           book_end_line = int (length ls), book_line_count = int (length ls)\<rparr>
                          (snd st))) ls))
      else st)"

definition process_prose_with_books :: "ucd \<Rightarrow> language \<Rightarrow> ustr \<Rightarrow> xml \<Rightarrow> corpus_db \<Rightarrow> corpus_db" where
  "process_prose_with_books u lang work_id r db = snd (foldl (prose_book_step u lang work_id) (0, db) (xml_iter r))"

text \<open>\<open>process_prose_text\<close>: a work with book divisions goes to the reader above.\<close>

definition process_prose_text :: "ucd \<Rightarrow> language \<Rightarrow> ustr \<Rightarrow> xml \<Rightarrow> corpus_db \<Rightarrow> corpus_db" where
  "process_prose_text u lang work_id r db =
     (if list_ex (is_book_div u) (xml_iter r) then process_prose_with_books u lang work_id r db
      else store_book u lang work_id (book_key work_id 1) 1 (asc ''Complete Text'')
             (number_sentences (concat (map (section_sentences u lang)
                                          (filter is_section_div (xml_iter r))))) db)"

section \<open>The dispatch of \<open>process_text_file\<close>\<close>

definition drama_authors :: "ustr list" where
  "drama_authors = [asc ''tlg0085'', asc ''tlg0011'', asc ''tlg0006'', asc ''tlg0019'']"

definition prose_authors :: "ustr list" where
  "prose_authors = [asc ''tlg0007'', asc ''tlg0016'', asc ''tlg0003'', asc ''tlg0032'',
                    asc ''tlg0059'', asc ''tlg0086'']"

definition count_tags :: "string \<Rightarrow> xml \<Rightarrow> nat" where
  "count_tags s r = length (filter (\<lambda>e. tag_ends e s) (xml_iter r))"

text \<open>The prose test of lines 1486-1498.\<close>

definition is_prose_text :: "ustr \<Rightarrow> xml \<Rightarrow> bool" where
  "is_prose_text author r =
     (author \<in> set prose_authors \<or>
      (0 < count_tags ''p'' r \<and> count_tags ''l'' r * 2 < count_tags ''p'' r) \<or>
      (0 < length (filter is_section_div (xml_iter r)) \<and> 0 < count_tags ''p'' r \<and>
       length (filter is_section_div (xml_iter r)) \<le> count_tags ''p'' r))"

definition process_text_file ::
  "ucd \<Rightarrow> (xml \<Rightarrow> ustr) \<Rightarrow> xml option \<Rightarrow> ustr \<Rightarrow> language \<Rightarrow> corpus_db \<Rightarrow> corpus_db" where
  "process_text_file u ts tree work_id lang db =
     (case tree of
        None \<Rightarrow> db
      | Some r \<Rightarrow>
          (if work_id = asc ''tlg0086.tlg035'' then process_prose_with_books u lang work_id r db
           else if is_prose_text (takeWhile (\<lambda>c. c \<noteq> 0x2E) work_id) r
           then process_prose_text u lang work_id r db
           else if takeWhile (\<lambda>c. c \<noteq> 0x2E) work_id \<in> set drama_authors
           then drama_text u ts lang work_id r db
           else (case verse_books u ts lang work_id r db of
                   (n, db') \<Rightarrow> if n = 0 then verse_single u ts lang work_id r db' else db')))"

section \<open>The invariant of the text tables\<close>

text \<open>
  A word row belongs to a line row when both name the same book and line, and the
  word is the one at its position in \<open>line_text.split()\<close>.
\<close>

definition line_has_word :: "ucd \<Rightarrow> word_row \<Rightarrow> line_row \<Rightarrow> bool" where
  "line_has_word u w l =
     (line_book_id l = word_book_id w \<and> line_number l = word_line_number w \<and>
      0 < word_position w \<and> word_position w \<le> length (split_ws u (line_text l)) \<and>
      split_ws u (line_text l) ! (word_position w - 1) = word w)"

text \<open>
  The foreign keys of \<open>text_lines\<close> and \<open>words\<close> hold, and every word row has a
  non-empty normalised form and belongs to a line row.
\<close>

definition corpus_wf :: "ucd \<Rightarrow> corpus_db \<Rightarrow> bool" where
  "corpus_wf u db =
     (list_all (\<lambda>l. line_book_id l \<in> dom (books db)) (text_lines db) \<and>
      list_all (\<lambda>w. word_normalized w \<noteq> [] \<and> word_book_id w \<in> dom (books db) \<and>
                    list_ex (line_has_word u w) (text_lines db)) (words db))"

text \<open>No word row of the database belongs to a book of work \<open>w\<close>.\<close>

definition words_outside :: "ustr \<Rightarrow> corpus_db \<Rightarrow> bool" where
  "words_outside w db = list_all (\<lambda>x. \<not> py_startswith (word_book_id x) (w @ [0x2E])) (words db)"

text \<open>A stop followed by whitespace inside a string (the separator of \<open>re.split\<close>).\<close>

fun has_break :: "cp list \<Rightarrow> (cp \<Rightarrow> bool) \<Rightarrow> ustr \<Rightarrow> bool" where
  "has_break st sp (c # d # s) = ((c \<in> set st \<and> sp d) \<or> has_break st sp (d # s))"
| "has_break st sp _ = False"

text \<open>A small TEI document: two books whose numbers collide.\<close>

definition collision_tree :: xml where
  "collision_tree =
     Element ''text'' [] []
       [Element ''div'' [(''type'', asc ''textpart''), (''subtype'', asc ''book''), (''n'', asc ''2'')] []
          [Element ''l'' [] (asc ''first'') [] []] [],
        Element ''div'' [(''type'', asc ''textpart''), (''subtype'', asc ''Book''), (''n'', asc ''B'')] []
          [Element ''l'' [] (asc ''second'') [] []] []] []"

section \<open>Properties of the text reader\<close>

lemmas tei_eval = tag_ends_def py_endswith_def attr_or_def attr_get_def lower_str_def greek_ucd_def
  greek_lower_def asc_def Let_def elem_text_def py_strip_def greek_isspace_def empty_corpus_def
  is_ascii_digit_def py_isdigit_def digits_val_def

lemma line_words_ok:
  assumes "w \<in> set (line_words u lang bid n t)"
  shows "word_normalized w \<noteq> [] \<and> word_book_id w = bid \<and>
         line_has_word u w \<lparr>line_book_id = bid, line_number = n, line_text = t, line_xml = x, line_speaker = s\<rparr>"
proof -
  obtain pos v where pv: "(pos, v) \<in> set (zip [1..<Suc (length (split_ws u t))] (split_ws u t))"
    and w: "w = \<lparr>word = v, word_normalized = word_norm u lang v, word_book_id = bid,
                 word_line_number = n, word_position = pos\<rparr>" and ne: "word_norm u lang v \<noteq> []"
    using assms by (auto simp: line_words_def split: if_splits)
  from pv obtain i where "i < length (split_ws u t)" "pos = Suc i" "v = split_ws u t ! i"
    by (auto simp: set_zip simp del: upt_Suc)
  with w ne show ?thesis by (simp add: line_has_word_def)
qed

lemma books_store_line [simp]: "books (store_line u lang bid db l) = books db"
  by (simp add: store_line_def)

lemma store_line_wf:
  assumes "corpus_wf u db" "bid \<in> dom (books db)"
  shows "corpus_wf u (store_line u lang bid db l)"
proof -
  have "list_ex (line_has_word u w) (text_lines (store_line u lang bid db l))"
    if "w \<in> set (line_words u lang bid (tl_number l) (tl_text l))" for w
    using line_words_ok [OF that] by (auto simp: store_line_def)
  moreover have "word_normalized w \<noteq> [] \<and> word_book_id w = bid"
    if "w \<in> set (line_words u lang bid (tl_number l) (tl_text l))" for w
    using line_words_ok [OF that] by blast
  ultimately show ?thesis using assms
    by (auto simp: corpus_wf_def store_line_def list_all_iff list_ex_iff)
qed

lemma foldl_store_line_wf:
  "corpus_wf u db \<Longrightarrow> bid \<in> dom (books db) \<Longrightarrow> corpus_wf u (foldl (store_line u lang bid) db ls)"
  by (induction ls arbitrary: db) (simp_all add: store_line_wf)

lemma corpus_wf_books_mono:
  assumes "corpus_wf u db" "dom (books db) \<subseteq> dom B"
  shows "corpus_wf u (db\<lparr>books := B\<rparr>)"
proof -
  have "list_all (\<lambda>l. line_book_id l \<in> dom B) (text_lines db)"
    using assms unfolding corpus_wf_def list_all_iff by blast
  moreover have "list_all (\<lambda>w. word_normalized w \<noteq> [] \<and> word_book_id w \<in> dom B \<and>
                    list_ex (line_has_word u w) (text_lines db)) (words db)"
    using assms unfolding corpus_wf_def list_all_iff by blast
  ultimately show ?thesis by (simp add: corpus_wf_def)
qed

lemma insert_book_ignore_wf:
  assumes "corpus_wf u db"
  shows "corpus_wf u (insert_book_ignore b db) \<and> book_id b \<in> dom (books (insert_book_ignore b db))"
proof (cases "books db (book_id b) = None")
  case True
  then have "insert_book_ignore b db = db\<lparr>books := (books db)(book_id b \<mapsto> b)\<rparr>"
    by (simp add: insert_book_ignore_def)
  moreover have "corpus_wf u (db\<lparr>books := (books db)(book_id b \<mapsto> b)\<rparr>)"
    using assms by (rule corpus_wf_books_mono) auto
  ultimately show ?thesis by simp
next
  case False
  then have "insert_book_ignore b db = db" by (simp only: insert_book_ignore_def if_False)
  with assms False show ?thesis by (simp add: domIff)
qed

lemma foldl_insert_book_wf:
  "corpus_wf u db \<Longrightarrow> corpus_wf u (foldl (store_line u lang (book_id b)) (insert_book_ignore b db) ls)"
  using insert_book_ignore_wf foldl_store_line_wf by blast

lemma store_book_wf: "corpus_wf u db \<Longrightarrow> corpus_wf u (store_book u lang w bid num lab ls db)"
  using foldl_insert_book_wf [of u db lang
      "\<lparr>book_id = bid, book_work_id = w, book_number = num, book_label = lab, book_start_line = 1,
        book_end_line = int (length ls), book_line_count = int (length ls)\<rparr>" ls]
  by (simp add: store_book_def)

lemma verse_book_step_wf:
  "corpus_wf u (snd st) \<Longrightarrow> corpus_wf u (snd (verse_book_step u ts lang w st d))"
  by (simp add: verse_book_step_def Let_def store_book_wf)

lemma verse_books_wf:
  "corpus_wf u db \<Longrightarrow> corpus_wf u (snd (verse_books u ts lang w r db))"
proof -
  have "corpus_wf u (snd st) \<Longrightarrow> corpus_wf u (snd (foldl (verse_book_step u ts lang w) st es))" for st es
    by (induction es arbitrary: st) (simp_all add: verse_book_step_wf)
  then show "corpus_wf u db \<Longrightarrow> corpus_wf u (snd (verse_books u ts lang w r db))"
    by (simp add: verse_books_def)
qed

lemma book_key_prefix: "py_startswith (book_key w n) (w @ [0x2E])"
  unfolding book_key_def append_assoc [symmetric] by (rule py_startswith_append)

lemma insert_book_replace_wf:
  "corpus_wf u db \<Longrightarrow> corpus_wf u (insert_book_replace b db) \<and> book_id b \<in> dom (books (insert_book_replace b db))"
  by (simp add: insert_book_replace_def corpus_wf_books_mono subset_insertI)

lemma delete_book_lines_wf:
  assumes "corpus_wf u db" "list_all (\<lambda>x. word_book_id x \<noteq> bid) (words db)"
  shows "corpus_wf u (delete_book_lines bid db)"
proof -
  have "list_ex (line_has_word u x) (filter (\<lambda>l. line_book_id l \<noteq> bid) (text_lines db))"
    if "x \<in> set (words db)" for x
    using assms that by (fastforce simp: corpus_wf_def list_all_iff list_ex_iff line_has_word_def)
  with assms show ?thesis by (auto simp: corpus_wf_def delete_book_lines_def list_all_iff)
qed

lemma foldl_insert_line_plain_wf:
  "corpus_wf u db \<Longrightarrow> bid \<in> dom (books db) \<Longrightarrow> corpus_wf u (foldl (insert_line_plain bid) db ls)"
proof (induction ls arbitrary: db)
  case (Cons l ls)
  have "corpus_wf u (insert_line_plain bid db l)"
    using Cons.prems by (auto simp: corpus_wf_def insert_line_plain_def list_all_iff list_ex_iff)
  with Cons show ?case by (simp add: insert_line_plain_def)
qed simp

lemma words_outside_key:
  "words_outside w db \<Longrightarrow> list_all (\<lambda>x. word_book_id x \<noteq> book_key w n) (words db)"
  using book_key_prefix by (fastforce simp: words_outside_def list_all_iff)

lemma prose_book_step_wf:
  assumes "corpus_wf u (snd st)" "words_outside w (snd st)"
  shows "corpus_wf u (snd (prose_book_step u lang w st d))"
proof -
  have "corpus_wf u (foldl (insert_line_plain (book_key w n)) (delete_book_lines (book_key w n)
          (insert_book_replace b (snd st))) ls)" if "book_id b = book_key w n" for b n ls
  proof -
    from insert_book_replace_wf [of u "snd st" b] assms(1) that
    have wf: "corpus_wf u (insert_book_replace b (snd st))"
      and dom: "book_key w n \<in> dom (books (insert_book_replace b (snd st)))" by auto
    have "words (insert_book_replace b (snd st)) = words (snd st)"
      by (simp add: insert_book_replace_def)
    with wf have "corpus_wf u (delete_book_lines (book_key w n) (insert_book_replace b (snd st)))"
      using words_outside_key [OF assms(2)] by (intro delete_book_lines_wf) simp_all
    moreover have "book_key w n \<in> dom (books (delete_book_lines (book_key w n) (insert_book_replace b (snd st))))"
      using dom by (simp add: delete_book_lines_def)
    ultimately show ?thesis by (rule foldl_insert_line_plain_wf)
  qed
  then show ?thesis using assms(1) by (simp add: prose_book_step_def Let_def)
qed

lemma words_prose_book_step: "words (snd (prose_book_step u lang w st d)) = words (snd st)"
proof -
  have "words (foldl (insert_line_plain bid) db ls) = words db" for bid db ls
    by (induction ls arbitrary: db) (simp_all add: insert_line_plain_def)
  then show ?thesis
    by (simp add: prose_book_step_def Let_def delete_book_lines_def insert_book_replace_def)
qed

lemma process_prose_with_books_wf:
  "corpus_wf u db \<Longrightarrow> words_outside w db \<Longrightarrow> corpus_wf u (process_prose_with_books u lang w r db)"
proof -
  have "corpus_wf u (snd st) \<Longrightarrow> words_outside w (snd st) \<Longrightarrow>
        corpus_wf u (snd (foldl (prose_book_step u lang w) st es))" for st es
  proof (induction es arbitrary: st)
    case (Cons e es)
    have "words_outside w (snd (prose_book_step u lang w st e))"
      using Cons.prems(2) by (simp add: words_outside_def words_prose_book_step)
    with Cons prose_book_step_wf show ?case by simp
  qed simp
  then show "corpus_wf u db \<Longrightarrow> words_outside w db \<Longrightarrow> corpus_wf u (process_prose_with_books u lang w r db)"
    by (simp add: process_prose_with_books_def)
qed

lemma process_prose_text_wf:
  "corpus_wf u db \<Longrightarrow> words_outside w db \<Longrightarrow> corpus_wf u (process_prose_text u lang w r db)"
  by (simp add: process_prose_text_def process_prose_with_books_wf store_book_wf)

lemma has_break_Cons: "has_break st sp (c # s) = ((s \<noteq> [] \<and> c \<in> set st \<and> sp (hd s)) \<or> has_break st sp s)"
  by (cases s) auto

lemma has_break_short: "length s \<le> 1 \<Longrightarrow> \<not> has_break st sp s"
  by (cases s) (auto simp: has_break_Cons)

lemma has_break_append:
  "has_break st sp (xs @ ys) =
   (has_break st sp xs \<or> has_break st sp ys \<or> (xs \<noteq> [] \<and> ys \<noteq> [] \<and> last xs \<in> set st \<and> sp (hd ys)))"
  by (induction xs) (auto simp: has_break_Cons)

lemma split_at_stops_clean:
  "\<not> has_break st sp (rev cur @ take 1 s) \<Longrightarrow> list_all (\<lambda>p. \<not> has_break st sp p) (split_at_stops st sp cur s)"
proof (induction st sp cur s rule: split_at_stops.induct)
  case (3 st sp cur c d s)
  show ?case
  proof (cases "c \<in> set st \<and> sp d")
    case True
    have "\<not> has_break st sp (rev cur)" using "3.prems" by (simp add: has_break_append)
    moreover have "\<not> has_break st sp ([] @ take 1 (dropWhile sp s))"
      by (rule has_break_short) simp
    ultimately show ?thesis using True "3.IH"(1) by simp
  next
    case False
    then have "\<not> has_break st sp (rev (c # cur) @ take 1 (d # s))"
      using "3.prems" by (auto simp: has_break_append has_break_Cons)
    moreover from False have "split_at_stops st sp cur (c # d # s) = split_at_stops st sp (c # cur) (d # s)"
      by auto
    ultimately show ?thesis using False "3.IH"(2) by (simp only:) blast
  qed
qed simp_all

text \<open>
  C25: reading a TEI file keeps the text tables consistent: every line and word
  row names a stored book, and every word row is the word at its position of a stored
  line, with a non-empty normalised form; this holds for any database in which no word
  row belongs to a book of the work being read.
\<close>

theorem process_text_file_wf:
  assumes "corpus_wf u db" "words_outside w db"
  shows "corpus_wf u (process_text_file u ts tree w lang db)"
proof (cases tree)
  case (Some r)
  obtain n db' where v: "verse_books u ts lang w r db = (n, db')" by fastforce
  with verse_books_wf [OF assms(1), of ts lang w r] have "corpus_wf u db'" by simp
  then have "corpus_wf u (verse_single u ts lang w r db')" by (simp add: verse_single_def store_book_wf)
  moreover have "corpus_wf u (process_prose_with_books u lang w r db)"
    by (rule process_prose_with_books_wf [OF assms])
  moreover have "corpus_wf u (process_prose_text u lang w r db)"
    by (rule process_prose_text_wf [OF assms])
  moreover have "corpus_wf u (drama_text u ts lang w r db)"
    using assms(1) by (simp add: drama_text_def store_book_wf)
  ultimately show ?thesis
    unfolding process_text_file_def Some option.case v prod.case using \<open>corpus_wf u db'\<close>
    by (simp only: if_split) blast
qed (simp add: process_text_file_def assms)

theorem process_text_file_wf_witness:
  "corpus_wf greek_ucd empty_corpus \<and> words_outside (asc ''tlg0012.tlg001'') empty_corpus \<and>
   corpus_wf greek_ucd (process_text_file greek_ucd (\<lambda>_. []) (Some collision_tree) (asc ''tlg0012.tlg001'') Greek empty_corpus)"
proof -
  have a: "corpus_wf greek_ucd empty_corpus" and b: "words_outside (asc ''tlg0012.tlg001'') empty_corpus"
    by (simp_all add: corpus_wf_def words_outside_def empty_corpus_def)
  have "corpus_wf greek_ucd (process_text_file greek_ucd (\<lambda>_. []) (Some collision_tree) (asc ''tlg0012.tlg001'') Greek empty_corpus)"
    by (rule process_text_file_wf [OF a b])
  with a b show ?thesis by (intro conjI)
qed

text \<open>
  The reader of prose divided into books stores lines but no words:
  the \<open>words\<close> table is left as it was, so such works (Aristotle's Politics, and any prose
  work with book divisions) cannot be searched or looked up word by word.
\<close>

theorem prose_with_books_no_words: "words (process_prose_with_books u lang w r db) = words db"
proof -
  have "words (snd (foldl (prose_book_step u lang w) st es)) = words (snd st)" for st es
    by (induction es arbitrary: st) (simp_all add: words_prose_book_step)
  then show ?thesis by (simp add: process_prose_with_books_def)
qed

text \<open>
  The sentence splitter of the prose readers leaves no separator inside a
  sentence: no sentence has a stop followed by whitespace.
\<close>

theorem split_sentences_clean:
  "list_all (\<lambda>p. \<not> has_break (sentence_stops lang) (isspace u) p) (split_sentences u lang t)"
  unfolding split_sentences_def by (rule split_at_stops_clean) (cases t, simp_all)

end
