(* ===== verification/Asset_Split.thy ===== *)
theory Asset_Split
  imports Prelude "HOL-Library.Word"
begin

text \<open>
  \<open>src/data-prep/split_database_for_assets.py\<close>: the compressed database is cut into
  parts of at most \<open>chunk_size_mb\<close> MiB for Play Asset Delivery, with a JSON manifest,
  and the parts can be checked against the original. Files are byte strings
  (\<open>8 word list\<close>) in a store keyed by (directory, name); a manifest file is
  modelled by the value \<open>json.dump\<close> writes and \<open>json.load\<close> reads back. An open
  file is read at a position in the store's current content, as an operating system
  file handle is. \<open>hashlib.sha256\<close> is the parameter \<open>h\<close>, a function of the bytes
  hashed (successive \<open>update\<close>s hash their concatenation).
\<close>

type_synonym byte = "8 word"
type_synonym path = "ustr \<times> ustr"

record chunk_info =
  chunk_name :: ustr
  chunk_index :: nat
  chunk_bytes :: nat

record split_manifest =
  original_file :: ustr
  total_size :: nat
  chunk_size :: int
  total_chunks :: int
  chunks :: "chunk_info list"

record disk =
  files :: "path \<rightharpoonup> byte list"
  manifests :: "path \<rightharpoonup> split_manifest"

datatype split_error = ZeroDivisionError | ManifestNotFound

text \<open>
  \<open>Path.stem\<close>: the name without its last suffix, the suffix starting at the last dot
  when that dot is neither the first nor the last character.
\<close>

definition last_dot :: "ustr \<Rightarrow> int" where
  "last_dot nm =
     (if 0x2E \<in> set nm then int (length nm) - 1 - int (length (takeWhile (\<lambda>c. c \<noteq> 0x2E) (rev nm)))
      else -1)"

definition path_stem :: "ustr \<Rightarrow> ustr" where
  "path_stem nm = (if 0 < last_dot nm \<and> last_dot nm < int (length nm) - 1 then take (nat (last_dot nm)) nm else nm)"

text \<open>\<open>f.read(n)\<close> at position \<open>pos\<close>: at most \<open>n\<close> bytes, all the rest when \<open>n\<close> is negative.\<close>

definition py_read :: "int \<Rightarrow> nat \<Rightarrow> byte list \<Rightarrow> byte list" where
  "py_read n pos c = (if n < 0 then drop pos c else take (nat n) (drop pos c))"

text \<open>The name of part \<open>i\<close> (from 0): \<open>f"{stem}.part{i+1:03d}"\<close>.\<close>

definition part_name :: "ustr \<Rightarrow> nat \<Rightarrow> ustr" where
  "part_name nm i = path_stem nm @ asc ''.part'' @ py_fmt03 (int i + 1)"

definition manifest_name :: "ustr \<Rightarrow> ustr" where
  "manifest_name nm = path_stem nm @ asc ''.manifest.json''"

text \<open>\<open>total_chunks = (file_size + chunk_size - 1) // chunk_size\<close>, Python's floor division.\<close>

definition chunk_count :: "nat \<Rightarrow> int \<Rightarrow> int" where
  "chunk_count fsz cs = (int fsz + cs - 1) div cs"

text \<open>
  One iteration of the loop of \<open>split_file\<close> (lines 48-66): read the next chunk of the
  input, write it as a part, record it in the manifest. The state is the store, the
  position of the input handle and the chunk list.
\<close>

definition split_step :: "path \<Rightarrow> ustr \<Rightarrow> int \<Rightarrow> disk \<times> nat \<times> chunk_info list \<Rightarrow> nat \<Rightarrow> disk \<times> nat \<times> chunk_info list" where
  "split_step inp od cs st i =
     (case st of (dk, pos, cl) \<Rightarrow>
        (let data = py_read cs pos (case files dk inp of Some c \<Rightarrow> c | None \<Rightarrow> [])
         in (dk\<lparr>files := (files dk)((od, part_name (snd inp) i) \<mapsto> data)\<rparr>, pos + length data,
             cl @ [\<lparr>chunk_name = part_name (snd inp) i, chunk_index = i, chunk_bytes = length data\<rparr>])))"

text \<open>
  \<open>split_file(input_file, chunk_size_mb, output_dir)\<close> (lines 11-74): \<open>False\<close> for a
  missing input, the \<open>ZeroDivisionError\<close> of a zero chunk size, otherwise the parts
  and the manifest written and \<open>True\<close>. \<open>od\<close> is \<open>output_dir\<close>; \<open>None\<close> and the empty string (false for
  \<open>if output_dir:\<close>) stand for the input's directory.
\<close>

definition out_dir :: "ustr \<Rightarrow> ustr option \<Rightarrow> ustr" where
  "out_dir d od = (case od of Some p \<Rightarrow> if p = [] then d else p | None \<Rightarrow> d)"

definition split_file :: "disk \<Rightarrow> path \<Rightarrow> int \<Rightarrow> ustr option \<Rightarrow> split_error + disk \<times> bool" where
  "split_file dk inp mb od =
     (case files dk inp of
        None \<Rightarrow> Inr (dk, False)
      | Some c \<Rightarrow>
          (let cs = mb * 1024 * 1024;
               out = out_dir (fst inp) od
           in if cs = 0 then Inl ZeroDivisionError
              else
                (case foldl (split_step inp out cs) (dk, 0, []) [0..<nat (chunk_count (length c) cs)] of
                   (dk', _, cl) \<Rightarrow>
                     Inr (dk'\<lparr>manifests := (manifests dk')((out, manifest_name (snd inp)) \<mapsto>
                              \<lparr>original_file = snd inp, total_size = length c, chunk_size = cs,
                               total_chunks = chunk_count (length c) cs, chunks = cl\<rparr>)\<rparr>, True))))"

text \<open>
  The hashing loop of \<open>verify_split\<close> (lines 91-93), \<open>while chunk := f.read(8192)\<close>:
  it stops at the first empty read, so its termination is a property of the file and
  is proved below; \<open>None\<close> stands for a loop that does not end.
\<close>

partial_function (option) read_loop :: "nat \<Rightarrow> byte list \<Rightarrow> nat \<Rightarrow> byte list \<Rightarrow> byte list option" where
  "read_loop n c pos acc =
     (if take n (drop pos c) = [] then Some acc
      else read_loop n c (pos + length (take n (drop pos c))) (acc @ take n (drop pos c)))"

text \<open>
  \<open>verify_split(manifest_file)\<close> (lines 76-127): the hash of the original when it
  exists, the hash and size of the parts read in manifest order (\<open>False\<close> at the first
  missing part), then the two tests of lines 119-127.
\<close>

definition verify_split :: "(byte list \<Rightarrow> 'h) \<Rightarrow> disk \<Rightarrow> path \<Rightarrow> split_error + bool" where
  "verify_split h dk mp =
     (case manifests dk mp of
        None \<Rightarrow> Inl ManifestNotFound
      | Some m \<Rightarrow>
          (let orig = (case files dk (fst mp, original_file m) of
                         None \<Rightarrow> None
                       | Some c \<Rightarrow> map_option h (read_loop 8192 c 0 []));
               parts = map (\<lambda>ci. files dk (fst mp, chunk_name ci)) (chunks m)
           in if None \<in> set parts then Inr False
              else (let data = concat (map the parts)
                    in if orig = Some (h data) then Inr True
                       else if int (length data) = int (total_size m) then Inr True
                       else Inr False)))"

section \<open>Chunks and example stores\<close>

text \<open>Chunk \<open>i\<close> of a file cut into pieces of \<open>n\<close> bytes.\<close>

definition chunk_of :: "nat \<Rightarrow> byte list \<Rightarrow> nat \<Rightarrow> byte list" where
  "chunk_of n c i = take n (drop (i * n) c)"

text \<open>
  A store holding a three-byte database archive, and a store whose single part has been
  corrupted after the split (same size, other bytes).
\<close>

definition demo_disk :: disk where
  "demo_disk = \<lparr>files = [(asc ''assets'', asc ''db.zip'') \<mapsto> [1, 2, 3]], manifests = Map.empty\<rparr>"

definition corrupt_disk :: disk where
  "corrupt_disk =
     \<lparr>files = [(asc ''assets'', asc ''db.zip'') \<mapsto> [1], (asc ''assets'', asc ''db.part001'') \<mapsto> [2]],
      manifests = [(asc ''assets'', asc ''db.manifest.json'') \<mapsto>
        \<lparr>original_file = asc ''db.zip'', total_size = 1, chunk_size = 1048576, total_chunks = 1,
         chunks = [\<lparr>chunk_name = asc ''db.part001'', chunk_index = 0, chunk_bytes = 1\<rparr>]\<rparr>]\<rparr>"

section \<open>Properties of the splitter\<close>

lemma take_drop_length_drop:
  "take n xs @ drop (length (take n xs)) xs = xs"
  by (cases "n \<le> length xs") (simp_all add: min_def)

lemma read_loop_eq:
  "read_loop n c pos acc = Some (acc @ (if n = 0 then [] else drop pos c))"
proof (induction "length c - pos" arbitrary: pos acc rule: less_induct)
  case less
  show ?case
  proof (cases "take n (drop pos c) = []")
    case True
    then have "n = 0 \<or> length c \<le> pos" by auto
    with True show ?thesis by (subst read_loop.simps) auto
  next
    case False
    let ?t = "take n (drop pos c)"
    have n: "n \<noteq> 0" using False by auto
    have "length c - (pos + length ?t) < length c - pos" using False by auto
    from less [OF this] n
    have "read_loop n c (pos + length ?t) (acc @ ?t) = Some (acc @ ?t @ drop (length ?t) (drop pos c))"
      by (simp add: add.commute)
    then show ?thesis using False n take_drop_length_drop [of n "drop pos c"]
      by (subst read_loop.simps) (simp add: drop_drop)
  qed
qed
lemma digits_val_zeros: "foldl (\<lambda>n c. 10 * n + int (c - 0x30)) 0 (replicate k (0x30::nat)) = 0"
  by (induction k) simp_all

lemma digits_val_zero_pad [simp]: "digits_val (zero_pad k s) = digits_val s"
  by (simp add: digits_val_def zero_pad_def digits_val_zeros)

lemma digits_val_fmt03: "0 \<le> n \<Longrightarrow> digits_val (py_fmt03 n) = n"
  by (simp add: py_fmt03_def)

lemma part_name_inj: "part_name nm i = part_name nm j \<Longrightarrow> i = j"
proof -
  assume "part_name nm i = part_name nm j"
  then have "py_fmt03 (int i + 1) = py_fmt03 (int j + 1)" by (simp add: part_name_def)
  then have "digits_val (py_fmt03 (int i + 1)) = digits_val (py_fmt03 (int j + 1))" by simp
  then show "i = j" by (simp add: digits_val_fmt03)
qed

lemma part_name_prefix: "py_startswith (part_name nm i) (path_stem nm @ asc ''.part'')"
  unfolding part_name_def append_assoc [symmetric] by (rule py_startswith_append)

lemma concat_chunks: "concat (map (chunk_of n c) [0..<k]) = take (k * n) c"
proof (induction k)
  case (Suc k)
  have "take (Suc k * n) c = take (k * n + n) c" by (simp add: add.commute)
  with Suc show ?case by (simp add: chunk_of_def take_add)
qed simp

lemma split_loop:
  assumes "files dk (d, nm) = Some c" "0 < cs" "\<forall>i. (out, part_name nm i) \<noteq> (d, nm)"
  shows "case foldl (split_step (d, nm) out cs) (dk, 0, []) [0..<k] of (dk', pos, cl) \<Rightarrow>
     files dk' (d, nm) = Some c \<and> pos = min (k * nat cs) (length c) \<and>
     cl = map (\<lambda>i. \<lparr>chunk_name = part_name nm i, chunk_index = i,
                    chunk_bytes = length (chunk_of (nat cs) c i)\<rparr>) [0..<k] \<and>
     list_all (\<lambda>j. files dk' (out, part_name nm j) = Some (chunk_of (nat cs) c j)) [0..<k] \<and>
     manifests dk' = manifests dk"
proof (induction k)
  case 0
  then show ?case using assms(1) by simp
next
  case (Suc k)
  obtain dk' pos cl where st: "foldl (split_step (d, nm) out cs) (dk, 0, []) [0..<k] = (dk', pos, cl)"
    by (cases "foldl (split_step (d, nm) out cs) (dk, 0, []) [0..<k]") auto
  with Suc have f: "files dk' (d, nm) = Some c" and p: "pos = min (k * nat cs) (length c)"
    and l: "list_all (\<lambda>j. files dk' (out, part_name nm j) = Some (chunk_of (nat cs) c j)) [0..<k]"
    and cl: "cl = map (\<lambda>i. \<lparr>chunk_name = part_name nm i, chunk_index = i,
                    chunk_bytes = length (chunk_of (nat cs) c i)\<rparr>) [0..<k]"
    and m: "manifests dk' = manifests dk" by auto
  have d: "py_read cs pos c = chunk_of (nat cs) c k"
    using assms(2) p by (simp add: py_read_def chunk_of_def min_def)
  have "length (chunk_of (nat cs) c k) = min (length c - k * nat cs) (nat cs)"
    by (simp add: chunk_of_def)
  then have pos': "pos + length (chunk_of (nat cs) c k) = min (Suc k * nat cs) (length c)"
    using p by (simp add: min_def) linarith
  have other: "list_all (\<lambda>j. ((files dk')((out, part_name nm k) \<mapsto> chunk_of (nat cs) c k))
                 (out, part_name nm j) = Some (chunk_of (nat cs) c j)) [0..<Suc k]"
    using l by (auto simp: list_all_iff dest: part_name_inj)
  have ne: "(d, nm) \<noteq> (out, part_name nm k)" using assms(3) by metis
  have "foldl (split_step (d, nm) out cs) (dk, 0, []) [0..<Suc k] = split_step (d, nm) out cs (dk', pos, cl) k"
    using st by simp
  also have "\<dots> = (dk'\<lparr>files := (files dk')((out, part_name nm k) \<mapsto> chunk_of (nat cs) c k)\<rparr>,
      pos + length (chunk_of (nat cs) c k),
      cl @ [\<lparr>chunk_name = part_name nm k, chunk_index = k, chunk_bytes = length (chunk_of (nat cs) c k)\<rparr>])"
    using f d by (simp add: split_step_def Let_def)
  finally show ?case using f cl m pos' other ne by (simp; blast)
qed
lemma chunk_count_cover:
  assumes "0 < cs"
  shows "length c \<le> nat (chunk_count (length c) cs) * nat cs"
proof -
  let ?a = "int (length c) + cs - 1"
  have "?a div cs * cs = ?a - ?a mod cs" by (simp add: minus_mod_eq_div_mult)
  moreover have "?a mod cs < cs" using assms by simp
  ultimately have "int (length c) \<le> ?a div cs * cs" by linarith
  moreover have "0 \<le> ?a div cs" using assms by (simp add: pos_imp_zdiv_nonneg_iff)
  ultimately show ?thesis using assms
    by (simp add: chunk_count_def nat_mult_distrib [symmetric] le_nat_iff)
qed

lemma split_names_apart:
  assumes "out \<noteq> d \<or> \<not> py_startswith nm (path_stem nm @ asc ''.part'')"
  shows "\<forall>i. (out, part_name nm i) \<noteq> (d, nm)"
proof (intro allI notI)
  fix i
  assume "(out, part_name nm i) = (d, nm)"
  then have "out = d" "nm = part_name nm i" by simp_all
  with assms part_name_prefix [of nm i] show False by simp
qed

lemma split_file_result:
  assumes "split_file dk (d, nm) mb od = Inr (dk', True)" "0 < mb"
    and "out_dir d od \<noteq> d \<or> \<not> py_startswith nm (path_stem nm @ asc ''.part'')"
  shows "\<exists>c. files dk (d, nm) = Some c \<and>
           manifests dk' (out_dir d od, manifest_name nm) =
             Some \<lparr>original_file = nm, total_size = length c, chunk_size = mb * 1024 * 1024,
                   total_chunks = chunk_count (length c) (mb * 1024 * 1024),
                   chunks = map (\<lambda>i. \<lparr>chunk_name = part_name nm i, chunk_index = i,
                                       chunk_bytes = length (chunk_of (nat (mb * 1024 * 1024)) c i)\<rparr>)
                              [0..<nat (chunk_count (length c) (mb * 1024 * 1024))]\<rparr> \<and>
           list_all (\<lambda>j. files dk' (out_dir d od, part_name nm j) =
                          Some (chunk_of (nat (mb * 1024 * 1024)) c j))
             [0..<nat (chunk_count (length c) (mb * 1024 * 1024))]"
proof -
  let ?out = "out_dir d od"
  let ?cs = "mb * 1024 * 1024"
  obtain c where c: "files dk (d, nm) = Some c"
    using assms(1) by (cases "files dk (d, nm)") (auto simp: split_file_def)
  have cs: "0 < ?cs" using assms(2) by simp
  obtain dk1 pos cl where st: "foldl (split_step (d, nm) ?out ?cs) (dk, 0, []) [0..<nat (chunk_count (length c) ?cs)] = (dk1, pos, cl)"
    by (metis prod_cases3)
  from split_loop [OF c cs split_names_apart [OF assms(3)], of "nat (chunk_count (length c) ?cs)"] st
  have l: "cl = map (\<lambda>i. \<lparr>chunk_name = part_name nm i, chunk_index = i,
                         chunk_bytes = length (chunk_of (nat ?cs) c i)\<rparr>) [0..<nat (chunk_count (length c) ?cs)]"
    and f: "list_all (\<lambda>j. files dk1 (?out, part_name nm j) = Some (chunk_of (nat ?cs) c j))
              [0..<nat (chunk_count (length c) ?cs)]"
    by simp_all
  have "dk' = dk1\<lparr>manifests := (manifests dk1)((?out, manifest_name nm) \<mapsto>
              \<lparr>original_file = nm, total_size = length c, chunk_size = ?cs,
               total_chunks = chunk_count (length c) ?cs, chunks = cl\<rparr>)\<rparr>"
  proof -
    show ?thesis using assms(1) c cs st by (simp add: split_file_def Let_def)
  qed
  with c l f show ?thesis by auto
qed
lemma split_chunks_cover:
  "0 < mb \<Longrightarrow> concat (map (chunk_of (nat (mb * 1024 * 1024)) c) [0..<nat (chunk_count (length c) (mb * 1024 * 1024))]) = c"
  by (simp add: concat_chunks chunk_count_cover)

lemma split_file_parts:
  assumes "split_file dk (d, nm) mb od = Inr (dk', True)" "0 < mb"
    and "out_dir d od \<noteq> d \<or> \<not> py_startswith nm (path_stem nm @ asc ''.part'')"
  shows "\<exists>c m xs. files dk (d, nm) = Some c \<and>
           manifests dk' (out_dir d od, manifest_name nm) = Some m \<and>
           total_size m = length c \<and> original_file m = nm \<and>
           map (\<lambda>ci. files dk' (out_dir d od, chunk_name ci)) (chunks m) = map Some xs \<and>
           concat xs = c"
proof -
  from split_file_result [OF assms] obtain c where c: "files dk (d, nm) = Some c"
    and m: "manifests dk' (out_dir d od, manifest_name nm) =
             Some \<lparr>original_file = nm, total_size = length c, chunk_size = mb * 1024 * 1024,
                   total_chunks = chunk_count (length c) (mb * 1024 * 1024),
                   chunks = map (\<lambda>i. \<lparr>chunk_name = part_name nm i, chunk_index = i,
                                       chunk_bytes = length (chunk_of (nat (mb * 1024 * 1024)) c i)\<rparr>)
                              [0..<nat (chunk_count (length c) (mb * 1024 * 1024))]\<rparr>"
    and f: "list_all (\<lambda>j. files dk' (out_dir d od, part_name nm j) =
                          Some (chunk_of (nat (mb * 1024 * 1024)) c j))
             [0..<nat (chunk_count (length c) (mb * 1024 * 1024))]"
    by blast
  let ?xs = "[0..<nat (chunk_count (length c) (mb * 1024 * 1024))]"
  have e1: "map (\<lambda>j. files dk' (out_dir d od, part_name nm j)) ?xs =
            map Some (map (chunk_of (nat (mb * 1024 * 1024)) c) ?xs)"
    using f by (auto simp: list_all_iff)
  obtain mm where mm: "manifests dk' (out_dir d od, manifest_name nm) = Some mm"
    and ch: "chunks mm = map (\<lambda>i. \<lparr>chunk_name = part_name nm i, chunk_index = i,
                     chunk_bytes = length (chunk_of (nat (mb * 1024 * 1024)) c i)\<rparr>) ?xs"
    and ts: "total_size mm = length c" and on: "original_file mm = nm"
    using m by simp
  have e2: "map (\<lambda>ci. files dk' (out_dir d od, chunk_name ci)) (chunks mm) =
            map Some (map (chunk_of (nat (mb * 1024 * 1024)) c) ?xs)"
    using e1 by (simp add: ch comp_def)
  show ?thesis
    using c mm ts on e2 split_chunks_cover [OF assms(2), of c]
    by (intro exI [of _ c] exI [of _ mm] exI [of _ "map (chunk_of (nat (mb * 1024 * 1024)) c) ?xs"]) simp
qed

lemmas split_eval = split_file_def out_dir_def split_step_def part_name_def manifest_name_def path_stem_def
  last_dot_def chunk_count_def py_read_def py_fmt03_def zero_pad_def asc_def Let_def

lemma demo_split: "\<exists>dk'. split_file demo_disk (asc ''assets'', asc ''db.zip'') 1 None = Inr (dk', True)"
  by (simp add: demo_disk_def split_eval dec_nat.simps)

lemma demo_names:
  "(out_dir (asc ''assets'') None) \<noteq> asc ''assets'' \<or>
   \<not> py_startswith (asc ''db.zip'') (path_stem (asc ''db.zip'') @ asc ''.part'')"
  by (simp add: out_dir_def path_stem_def last_dot_def asc_def py_startswith_def)

text \<open>
  C27: the hashing loop of \<open>verify_split\<close> always ends, having hashed the whole
  file: \<open>while chunk := f.read(8192)\<close> reads the file to its end and stops.
\<close>

theorem read_loop_total: "read_loop 8192 c 0 [] = Some c"
  by (simp add: read_loop_eq)

text \<open>
  C26: after a successful split with a positive chunk size, the parts listed in
  the manifest, concatenated in order, are the original file, and the manifest records
  its size; this needs only that no part name is the input's own name.
\<close>

theorem split_file_roundtrip:
  assumes "split_file dk (d, nm) mb od = Inr (dk', True)" "0 < mb"
    and "out_dir d od \<noteq> d \<or> \<not> py_startswith nm (path_stem nm @ asc ''.part'')"
  shows "\<exists>c m. files dk (d, nm) = Some c \<and>
           manifests dk' (out_dir d od, manifest_name nm) = Some m \<and>
           total_size m = length c \<and>
           concat (map (\<lambda>ci. the (files dk' (out_dir d od, chunk_name ci))) (chunks m)) = c"
proof -
  from split_file_parts [OF assms] obtain c m xs where
    "files dk (d, nm) = Some c" "manifests dk' (out_dir d od, manifest_name nm) = Some m"
    "total_size m = length c" and p: "map (\<lambda>ci. files dk' (out_dir d od, chunk_name ci)) (chunks m) = map Some xs"
    and "concat xs = c" by blast
  moreover have "map (\<lambda>ci. the (files dk' (out_dir d od, chunk_name ci))) (chunks m) = xs"
    using arg_cong [where f = "map the", OF p] by (simp add: comp_def)
  ultimately show ?thesis by auto
qed

theorem split_file_roundtrip_witness:
  "\<exists>dk'. split_file demo_disk (asc ''assets'', asc ''db.zip'') 1 None = Inr (dk', True) \<and> (0::int) < 1 \<and>
     ((out_dir (asc ''assets'') None) \<noteq> asc ''assets'' \<or>
      \<not> py_startswith (asc ''db.zip'') (path_stem (asc ''db.zip'') @ asc ''.part'')) \<and>
     (\<exists>c m. files demo_disk (asc ''assets'', asc ''db.zip'') = Some c \<and>
        manifests dk' (out_dir (asc ''assets'') None, manifest_name (asc ''db.zip'')) = Some m \<and>
        total_size m = length c \<and>
        concat (map (\<lambda>ci. the (files dk' (out_dir (asc ''assets'') None, chunk_name ci))) (chunks m)) = c)"
proof -
  obtain dk' where s: "split_file demo_disk (asc ''assets'', asc ''db.zip'') 1 None = Inr (dk', True)"
    using demo_split by blast
  have z: "(0::int) < 1" by simp
  from split_file_roundtrip [OF s z demo_names] s z demo_names show ?thesis by blast
qed

text \<open>
  Verifying right after a successful split succeeds, whatever the hash function.
\<close>

theorem verify_after_split:
  assumes "split_file dk (d, nm) mb od = Inr (dk', True)" "0 < mb"
    and "out_dir d od \<noteq> d \<or> \<not> py_startswith nm (path_stem nm @ asc ''.part'')"
  shows "verify_split h dk' (out_dir d od, manifest_name nm) = Inr True"
proof -
  from split_file_parts [OF assms] obtain c m xs where
    m: "manifests dk' (out_dir d od, manifest_name nm) = Some m"
    and t: "total_size m = length c"
    and p: "map (\<lambda>ci. files dk' (out_dir d od, chunk_name ci)) (chunks m) = map Some xs"
    and x: "concat xs = c" by blast
  have "None \<notin> set (map (\<lambda>ci. files dk' (out_dir d od, chunk_name ci)) (chunks m))"
    unfolding p by auto
  moreover have "concat (map the (map (\<lambda>ci. files dk' (out_dir d od, chunk_name ci)) (chunks m))) = c"
    unfolding p using x by (simp add: comp_def)
  ultimately show ?thesis using m t by (simp add: verify_split_def Let_def)
qed
theorem verify_after_split_witness:
  "\<exists>dk'. split_file demo_disk (asc ''assets'', asc ''db.zip'') 1 None = Inr (dk', True) \<and> (0::int) < 1 \<and>
     ((out_dir (asc ''assets'') None) \<noteq> asc ''assets'' \<or>
      \<not> py_startswith (asc ''db.zip'') (path_stem (asc ''db.zip'') @ asc ''.part'')) \<and>
     verify_split (\<lambda>bs. bs) dk' (out_dir (asc ''assets'') None, manifest_name (asc ''db.zip'')) = Inr True"
proof -
  obtain dk' where s: "split_file demo_disk (asc ''assets'', asc ''db.zip'') 1 None = Inr (dk', True)"
    using demo_split by blast
  have z: "(0::int) < 1" by simp
  from verify_after_split [OF s z demo_names, where h = "\<lambda>bs. bs"] s z demo_names show ?thesis by blast
qed

text \<open>
  \<open>verify_split\<close> accepts a part whose bytes differ from the original's:
  when the hashes differ it still passes on equal total size, for any hash function.
\<close>

theorem verify_accepts_corrupt_part:
  "files corrupt_disk (asc ''assets'', asc ''db.part001'') \<noteq> files corrupt_disk (asc ''assets'', asc ''db.zip'') \<and>
   verify_split h corrupt_disk (asc ''assets'', asc ''db.manifest.json'') = Inr True"
  by (simp add: corrupt_disk_def verify_split_def read_loop_eq asc_def Let_def)

text \<open>
  C28: a negative chunk size (accepted from the command line) gives
  no parts at all for a file of two bytes or more, yet \<open>split_file\<close> writes a manifest
  and returns \<open>True\<close>.
\<close>

theorem split_negative_chunk_loses_data:
  assumes "files dk (d, nm) = Some c" "2 \<le> length c" "mb < 0"
  shows "\<exists>dk'. split_file dk (d, nm) mb od = Inr (dk', True) \<and>
           manifests dk' (out_dir d od, manifest_name nm) =
             Some \<lparr>original_file = nm, total_size = length c, chunk_size = mb * 1024 * 1024,
                   total_chunks = chunk_count (length c) (mb * 1024 * 1024), chunks = []\<rparr>"
proof -
  let ?cs = "mb * 1024 * 1024"
  have cs: "?cs < 0" using assms(3) by simp
  have "chunk_count (length c) ?cs \<le> 0"
  proof (cases "0 \<le> int (length c) + ?cs - 1")
    case True
    then show ?thesis using cs by (simp add: chunk_count_def div_nonneg_neg_le0)
  next
    case False
    from False assms(2) cs have "(int (length c) + ?cs - 1) div ?cs = 0"
      by (intro div_neg_neg_trivial) simp_all
    then show ?thesis by (simp add: chunk_count_def)
  qed
  then have "[0..<nat (chunk_count (length c) ?cs)] = []" by simp
  then show ?thesis using assms(1) cs by (simp add: split_file_def Let_def)
qed

theorem split_negative_chunk_loses_data_witness:
  "files demo_disk (asc ''assets'', asc ''db.zip'') = Some [1, 2, 3] \<and> 2 \<le> length [1, 2, 3 :: byte] \<and> (-1::int) < 0 \<and>
   (\<exists>dk'. split_file demo_disk (asc ''assets'', asc ''db.zip'') (-1) None = Inr (dk', True) \<and>
      manifests dk' (out_dir (asc ''assets'') None, manifest_name (asc ''db.zip'')) =
        Some \<lparr>original_file = asc ''db.zip'', total_size = length [1, 2, 3 :: byte], chunk_size = -1 * 1024 * 1024,
              total_chunks = chunk_count (length [1, 2, 3 :: byte]) (-1 * 1024 * 1024), chunks = []\<rparr>)"
proof -
  have f: "files demo_disk (asc ''assets'', asc ''db.zip'') = Some [1, 2, 3]" by (simp add: demo_disk_def)
  have l: "2 \<le> length [1, 2, 3 :: byte]" and n: "(-1::int) < 0" by simp_all
  from split_negative_chunk_loses_data [OF f l n] f l n show ?thesis by blast
qed
end
