(* ===== verification/Translations.thy ===== *)
theory Translations
  imports Tei_Text Section_Mapping
begin

text \<open>
  The translation reader of \<open>src/data-prep/create_perseus_database.py\<close>:
  \<open>extract_translation_segments\<close> (lines 736-968), \<open>process_prose_translation\<close>
  (lines 970-1007) and \<open>process_translations\<close> (lines 1009-1226). An English TEI
  file becomes rows of \<open>translation_segments\<close> (keyed by an \<open>AUTOINCREMENT\<close> id, so
  \<open>INSERT OR IGNORE\<close> always inserts), a list in insertion order. Segments numbered
  by section are moved to line ranges with \<open>get_section_line_mapping\<close>, whose two
  queries read the \<open>text_lines\<close> of the corpus. Python's \<open>hash\<close> of a string, which
  changes from run to run, is the parameter \<open>hs\<close>.
\<close>

record trans_row =
  tr_book_id :: ustr
  tr_start :: int
  tr_end :: int
  tr_text :: ustr
  tr_translator :: ustr
  tr_speaker :: "ustr option"

text \<open>A segment collected before insertion: the dictionaries \<open>{'start_line', 'end_line', 'text', 'speaker'}\<close>.\<close>

record segment =
  sg_start :: int
  sg_end :: int
  sg_text :: ustr
  sg_speaker :: "ustr option"

definition plain_seg :: "int \<Rightarrow> int \<Rightarrow> ustr \<Rightarrow> segment" where
  "plain_seg s e t = \<lparr>sg_start = s, sg_end = e, sg_text = t, sg_speaker = None\<rparr>"

text \<open>The truth value of a string that may be \<open>None\<close>.\<close>

definition truthy :: "ustr option \<Rightarrow> bool" where
  "truthy s = (s \<noteq> None \<and> s \<noteq> Some [])"

text \<open>\<open>get_text_content(elem).strip()\<close>.\<close>

definition seg_text :: "ucd \<Rightarrow> xml \<Rightarrow> ustr" where
  "seg_text u e = py_strip u (get_text_content u e)"

section \<open>Speakers\<close>

text \<open>
  The speaker pass (lines 745-800): the lines of each speaker, from a \<open>speaker\<close>
  element to the next, become one segment from the first line number to the last,
  the texts joined by spaces. The state is the current speaker, its lines, and the
  segments so far.
\<close>

definition flush_speaker :: "ustr option \<Rightarrow> (int \<times> ustr) list \<Rightarrow> segment list \<Rightarrow> segment list" where
  "flush_speaker spk ls segs =
     (if truthy spk \<and> ls \<noteq> []
      then segs @ [\<lparr>sg_start = fst (hd ls), sg_end = fst (last ls), sg_text = py_join [0x20] (map snd ls),
                    sg_speaker = spk\<rparr>]
      else segs)"

definition speaker_step ::
  "ucd \<Rightarrow> ustr option \<times> (int \<times> ustr) list \<times> segment list \<Rightarrow> xml \<Rightarrow> ustr option \<times> (int \<times> ustr) list \<times> segment list" where
  "speaker_step u st e =
     (case st of (spk, ls, segs) \<Rightarrow>
        if tag_ends e ''speaker'' then
          (if xml_text e = [] then None else Some (py_strip u (xml_text e)),
           if truthy spk \<and> ls \<noteq> [] then [] else ls,
           flush_speaker spk ls segs)
        else if tag_ends e ''l'' \<and> truthy spk then
          (let n = attr_or e ''n'' []
           in if n \<noteq> [] \<and> py_isdigit n \<and> seg_text u e \<noteq> []
              then (spk, ls @ [(digits_val n, seg_text u e)], segs)
              else (spk, ls, segs))
        else (spk, ls, segs))"

definition speaker_segments :: "ucd \<Rightarrow> xml \<Rightarrow> segment list" where
  "speaker_segments u b =
     (if list_ex (\<lambda>e. tag_ends e ''speaker'') (xml_iter b)
      then (case foldl (speaker_step u) (None, [], []) (xml_iter b) of
              (spk, ls, segs) \<Rightarrow> flush_speaker spk ls segs)
      else [])"

section \<open>Milestones, sections, paragraphs and lines\<close>

definition milestone_units :: "ustr list" where
  "milestone_units = [asc ''line'', asc ''card'', asc ''section'', asc ''chapter'']"

definition is_milestone :: "xml \<Rightarrow> bool" where
  "is_milestone e =
     (tag_ends e ''milestone'' \<and> (case attr_get e ''unit'' of Some v \<Rightarrow> v \<in> set milestone_units | None \<Rightarrow> False))"

text \<open>
  The number of a milestone \<open>n\<close> (lines 829-843): \<open>int(n)\<close>, else its leading
  digits (\<open>re.match(r'(\d+)', n)\<close>, as for Stephanus pages such as \<open>327a\<close>), else
  \<open>hash(n) % 10000\<close>.
\<close>

definition milestone_num :: "ucd \<Rightarrow> (ustr \<Rightarrow> int) \<Rightarrow> ustr \<Rightarrow> int" where
  "milestone_num u hs n =
     (case py_int u n of
        Some k \<Rightarrow> k
      | None \<Rightarrow> if takeWhile is_ascii_digit n \<noteq> [] then digits_val (takeWhile is_ascii_digit n)
                else hs n mod 10000)"

text \<open>The paragraphs that contain milestones (lines 819-857): one segment each.\<close>

definition milestone_para :: "ucd \<Rightarrow> (ustr \<Rightarrow> int) \<Rightarrow> xml \<Rightarrow> segment list" where
  "milestone_para u hs p =
     (let ms = map (\<lambda>c. milestone_num u hs (attr_or c ''n'' []))
                 (filter (\<lambda>c. is_milestone c \<and> attr_or c ''n'' [] \<noteq> []) (xml_iter p))
      in if ms \<noteq> [] \<and> seg_text u p \<noteq> []
         then [plain_seg (hd ms) (if 1 < length ms then last ms else hd ms) (seg_text u p)]
         else [])"

definition milestone_segments :: "ucd \<Rightarrow> (ustr \<Rightarrow> int) \<Rightarrow> xml \<Rightarrow> segment list" where
  "milestone_segments u hs b = concat (map (milestone_para u hs) (filter is_para (xml_iter b)))"

text \<open>Sections with a digit-string \<open>n\<close> (lines 861-877), one segment each.\<close>

definition section_segments :: "ucd \<Rightarrow> xml \<Rightarrow> segment list" where
  "section_segments u b =
     concat (map (\<lambda>e. if py_isdigit (attr_or e ''n'' []) \<and> seg_text u e \<noteq> []
                      then [plain_seg (digits_val (attr_or e ''n'' [])) (digits_val (attr_or e ''n'' [])) (seg_text u e)]
                      else [])
               (filter is_section_div (xml_iter b)))"

text \<open>Paragraphs longer than 20, numbered from 1 (lines 880-891).\<close>

definition numbered_segs :: "ustr list \<Rightarrow> segment list" where
  "numbered_segs ts = map (\<lambda>(i, t). plain_seg (int i) (int i) t) (zip [1..<Suc (length ts)] ts)"

definition para_segments :: "ucd \<Rightarrow> xml \<Rightarrow> segment list" where
  "para_segments u b =
     numbered_segs (filter (\<lambda>t. t \<noteq> [] \<and> 20 < length t) (map (seg_text u) (filter is_para (xml_iter b))))"

text \<open>The segments of lines 803-891: speakers first, else milestones, else sections or paragraphs.\<close>

definition base_segments :: "ucd \<Rightarrow> (ustr \<Rightarrow> int) \<Rightarrow> xml \<Rightarrow> segment list" where
  "base_segments u hs b =
     (let sp = speaker_segments u b
      in if sp \<noteq> [] then sp
         else if list_ex is_milestone (xml_iter b) then milestone_segments u hs b
         else if list_ex is_section_div (xml_iter b) then section_segments u b
         else para_segments u b)"

text \<open>
  The verse lines added when there are fewer than 50 segments (lines 893-930): the
  lines of the \<open>poem\<close> divisions numbered from 1, or else the lines with a digit-string
  \<open>n\<close> under that number.
\<close>

definition is_poem_div :: "xml \<Rightarrow> bool" where
  "is_poem_div e =
     (tag_ends e ''div'' \<and> attr_get e ''type'' = Some (asc ''textpart'') \<and> attr_get e ''subtype'' = Some (asc ''poem''))"

definition line_segments :: "ucd \<Rightarrow> xml \<Rightarrow> segment list" where
  "line_segments u b =
     (if list_ex is_poem_div (xml_iter b)
      then numbered_segs (filter (\<lambda>t. t \<noteq> [])
             (map (seg_text u) (filter (\<lambda>e. tag_ends e ''l'') (concat (map xml_iter (filter is_poem_div (xml_iter b)))))))
      else concat (map (\<lambda>e. if attr_or e ''n'' [] \<noteq> [] \<and> py_isdigit (attr_or e ''n'' []) \<and> seg_text u e \<noteq> []
                           then [plain_seg (digits_val (attr_or e ''n'' [])) (digits_val (attr_or e ''n'' [])) (seg_text u e)]
                           else [])
                    (filter (\<lambda>e. tag_ends e ''l'') (xml_iter b))))"

definition collect_segments :: "ucd \<Rightarrow> (ustr \<Rightarrow> int) \<Rightarrow> xml \<Rightarrow> segment list" where
  "collect_segments u hs b =
     (let segs = base_segments u hs b
      in if length segs < 50 then segs @ line_segments u b else segs)"

section \<open>Insertion\<close>

text \<open>The two queries of \<open>get_section_line_mapping\<close> (lines 695-700) on the corpus.\<close>

definition book_line_count :: "corpus_db \<Rightarrow> ustr \<Rightarrow> int" where
  "book_line_count db bid = int (length (filter (\<lambda>l. line_book_id l = bid) (text_lines db)))"

definition book_max_line :: "corpus_db \<Rightarrow> ustr \<Rightarrow> int option" where
  "book_max_line db bid =
     (case map line_number (filter (\<lambda>l. line_book_id l = bid) (text_lines db)) of
        [] \<Rightarrow> None | ns \<Rightarrow> Some (Max (set ns)))"

text \<open>
  The insertion loop (lines 935-955): the largest start line (0 without segments) and
  the number of segments choose the section mapping; a segment whose start is a
  mapped section takes that section's line range. Every row is inserted, so the
  count returned is the number of segments.
\<close>

definition seg_row :: "ustr \<Rightarrow> ustr \<Rightarrow> (int \<times> int \<times> int) list \<Rightarrow> segment \<Rightarrow> trans_row" where
  "seg_row bid translator smap s =
     (let (a, b) = (if smap \<noteq> [] \<and> map_of smap (sg_start s) \<noteq> None then the (map_of smap (sg_start s))
                    else (sg_start s, sg_end s))
      in \<lparr>tr_book_id = bid, tr_start = a, tr_end = b, tr_text = sg_text s, tr_translator = translator,
          tr_speaker = sg_speaker s\<rparr>)"

definition extract_translation_segments ::
  "ucd \<Rightarrow> (ustr \<Rightarrow> int) \<Rightarrow> corpus_db \<Rightarrow> xml \<Rightarrow> ustr \<Rightarrow> ustr \<Rightarrow> trans_row list \<Rightarrow> trans_row list \<times> nat" where
  "extract_translation_segments u hs db b bid translator ts =
     (let segs = collect_segments u hs b;
          max_section = (if segs = [] then 0 else Max (set (map sg_start segs)));
          smap = get_section_line_mapping (book_line_count db bid) (book_max_line db bid) max_section
                   (int (length segs))
      in (ts @ map (seg_row bid translator smap) segs, length segs))"

text \<open>
  \<open>process_prose_translation\<close> (lines 970-1007): one segment per section with an
  integer \<open>n\<close>, the texts of its paragraphs joined by spaces.
\<close>

definition prose_translation_section :: "ucd \<Rightarrow> xml \<Rightarrow> (int \<times> ustr) list" where
  "prose_translation_section u e =
     (case py_int u (attr_or e ''n'' []) of
        None \<Rightarrow> []
      | Some k \<Rightarrow>
          (let t = py_strip u (concat (map (\<lambda>s. s @ [0x20])
                     (filter (\<lambda>s. s \<noteq> []) (map (elem_text u) (filter is_para (xml_iter e))))))
           in if t \<noteq> [] then [(k, t)] else []))"

definition process_prose_translation :: "ucd \<Rightarrow> xml \<Rightarrow> ustr \<Rightarrow> ustr \<Rightarrow> trans_row list \<Rightarrow> trans_row list" where
  "process_prose_translation u r bid translator ts =
     ts @ map (\<lambda>(k, t). \<lparr>tr_book_id = bid, tr_start = k, tr_end = k, tr_text = t, tr_translator = translator,
                          tr_speaker = None\<rparr>)
            (concat (map (prose_translation_section u)
               (filter (\<lambda>e. tag_ends e ''div'' \<and> attr_get e ''type'' = Some (asc ''textpart'') \<and>
                            attr_get e ''subtype'' = Some (asc ''section'')) (xml_iter r))))"

section \<open>Translation files\<close>

text \<open>\<open>tag.lower()\<close> for the ASCII tag names of TEI.\<close>

definition tag_lower :: "string \<Rightarrow> string" where
  "tag_lower t = map (\<lambda>c. if 65 \<le> (of_char c :: nat) \<and> (of_char c :: nat) \<le> 90 then char_of (of_char c + (32::nat)) else c) t"

text \<open>
  The translator's name (lines 1024-1106), tried in four ways: an \<open>editor\<close> with
  \<open>role="translator"\<close>; a name in a \<open>respStmt\<close> mentioning translation, staff names
  being passed over; an \<open>author\<close> with a \<open>trans\<close> role; the file name. A value is
  \<open>None\<close> or a string, \<open>truthy\<close> when non-empty.
\<close>

definition translator_editor :: "ucd \<Rightarrow> xml \<Rightarrow> ustr option" where
  "translator_editor u r =
     (case filter (\<lambda>e. py_contains (tag_lower (xml_tag e)) ''editor'' \<and>
                      attr_get e ''role'' = Some (asc ''translator'') \<and> xml_text e \<noteq> []) (xml_iter r) of
        [] \<Rightarrow> None
      | e # _ \<Rightarrow> Some (py_strip u (xml_text e)))"

definition staff_names :: "ustr list" where
  "staff_names = [asc ''lisa cerrato'', asc ''william merrill'', asc ''elli mylonas'', asc ''david smith'']"

definition resp_names :: "ucd \<Rightarrow> xml \<Rightarrow> ustr list" where
  "resp_names u e = map (\<lambda>n. py_strip u (xml_text n)) (filter (\<lambda>n. tag_ends n ''name'' \<and> xml_text n \<noteq> []) (xml_iter e))"

text \<open>The inner loop of lines 1041-1046: it stops at the first name that is not a staff name.\<close>

fun pick_name :: "ucd \<Rightarrow> ustr option \<Rightarrow> ustr list \<Rightarrow> ustr option" where
  "pick_name u cur [] = cur"
| "pick_name u cur (t # ts) =
     (if \<not> list_ex (py_contains (lower_str u t)) staff_names then Some t else pick_name u (Some t) ts)"

fun translator_resp :: "ucd \<Rightarrow> ustr option \<Rightarrow> xml list \<Rightarrow> ustr option" where
  "translator_resp u cur [] = cur"
| "translator_resp u cur (e # es) =
     (if tag_ends e ''respStmt'' \<and> py_contains (lower_str u (xml_itertext e)) (asc ''translat'')
      then (if truthy (pick_name u cur (resp_names u e)) then pick_name u cur (resp_names u e)
            else translator_resp u (pick_name u cur (resp_names u e)) es)
      else translator_resp u cur es)"

definition translator_author :: "ucd \<Rightarrow> xml \<Rightarrow> ustr option" where
  "translator_author u r =
     (case filter (\<lambda>e. tag_ends e ''author'' \<and> py_contains (lower_str u (attr_or e ''role'' [])) (asc ''trans'') \<and>
                      xml_text e \<noteq> []) (xml_iter r) of
        [] \<Rightarrow> None
      | e # _ \<Rightarrow> Some (py_strip u (xml_text e)))"

definition filename_translators :: "(ustr \<times> ustr) list" where
  "filename_translators =
     [(asc ''tlg0012.tlg001.perseus-eng3.xml'', asc ''Samuel Butler''),
      (asc ''tlg0012.tlg001.perseus-eng4.xml'', asc ''A. T. Murray''),
      (asc ''tlg0012.tlg002.perseus-eng3.xml'', asc ''Samuel Butler''),
      (asc ''tlg0012.tlg002.perseus-eng4.xml'', asc ''A. T. Murray''),
      (asc ''tlg0016.tlg001.perseus-eng2.xml'', asc ''A. D. Godley''),
      (asc ''tlg0032.tlg001.perseus-eng2.xml'', asc ''H. G. Dakyns''),
      (asc ''tlg0032.tlg002.perseus-eng2.xml'', asc ''H. G. Dakyns''),
      (asc ''tlg0032.tlg006.perseus-eng2.xml'', asc ''H. G. Dakyns''),
      (asc ''tlg0032.tlg007.perseus-eng2.xml'', asc ''H. G. Dakyns''),
      (asc ''tlg0086.tlg003.perseus-eng2.xml'', asc ''Frederic G. Kenyon''),
      (asc ''tlg0086.tlg025.perseus-eng2.xml'', asc ''Hugh Tredennick''),
      (asc ''tlg0086.tlg010.perseus-eng2.xml'', asc ''Harris Rackham''),
      (asc ''tlg0086.tlg038.perseus-eng2.xml'', asc ''John Henry Freese''),
      (asc ''tlg0086.tlg034.perseus-eng2.xml'', asc ''William Hamilton Fyfe''),
      (asc ''tlg0086.tlg035.perseus-eng2.xml'', asc ''Harris Rackham''),
      (asc ''tlg0086.tlg009.perseus-eng2.xml'', asc ''Harris Rackham''),
      (asc ''tlg0086.tlg029.perseus-eng2.xml'', asc ''George Cyril Armstrong''),
      (asc ''tlg0086.tlg045.perseus-eng2.xml'', asc ''H. Rackham''),
      (asc ''tlg0007.tlg051.perseus-eng1.xml'', asc ''Bernadotte Perrin''),
      (asc ''tlg0007.tlg052.perseus-eng1.xml'', asc ''Bernadotte Perrin''),
      (asc ''phi0893.phi004.perseus-eng2.xml'', asc ''Christopher Smart'')]"

definition translator_filename :: "ucd \<Rightarrow> ustr \<Rightarrow> ustr option \<Rightarrow> ustr option" where
  "translator_filename u fname cur =
     (case map_of filename_translators fname of
        Some n \<Rightarrow> Some n
      | None \<Rightarrow>
          if py_contains (lower_str u fname) (asc ''butler'') then Some (asc ''Samuel Butler'')
          else if py_contains (lower_str u fname) (asc ''murray'') then Some (asc ''A. T. Murray'')
          else if py_contains (lower_str u fname) (asc ''jowett'') then Some (asc ''Benjamin Jowett'')
          else cur)"

definition find_translator :: "ucd \<Rightarrow> ustr \<Rightarrow> xml \<Rightarrow> ustr" where
  "find_translator u fname r =
     (let t1 = translator_editor u r;
          t2 = (if truthy t1 then t1 else translator_resp u t1 (xml_iter r));
          t3 = (if truthy t2 then t2 else translator_author u r);
          t4 = (if \<not> truthy t3 \<and> py_contains fname (asc ''eng'') then translator_filename u fname t3 else t3)
      in if truthy t4 then the t4 else asc ''Unknown'')"

text \<open>The \<open>div type="translation"\<close> and \<open>body\<close> elements the reader falls back on.\<close>

definition translation_div :: "xml \<Rightarrow> xml option" where
  "translation_div r = find (\<lambda>d. tag_ends d ''div'' \<and> attr_get d ''type'' = Some (asc ''translation'')) (xml_iter r)"

definition body_elem :: "xml \<Rightarrow> xml option" where
  "body_elem r = find (\<lambda>d. tag_ends d ''body'') (xml_iter r)"

definition extract_whole ::
  "ucd \<Rightarrow> (ustr \<Rightarrow> int) \<Rightarrow> corpus_db \<Rightarrow> xml \<Rightarrow> ustr \<Rightarrow> ustr \<Rightarrow> trans_row list \<Rightarrow> trans_row list" where
  "extract_whole u hs db r bid tr ts =
     (case translation_div r of
        Some d \<Rightarrow> fst (extract_translation_segments u hs db d bid tr ts)
      | None \<Rightarrow> (case body_elem r of
                   Some b \<Rightarrow> fst (extract_translation_segments u hs db b bid tr ts)
                 | None \<Rightarrow> ts))"

text \<open>
  The book loop (lines 1186-1207): a book is numbered by \<open>int(n)\<close> (\<open>n\<close> defaulting
  to \<open>1\<close>), or by its position among the book divisions when that fails.
\<close>

definition trans_book_step ::
  "ucd \<Rightarrow> (ustr \<Rightarrow> int) \<Rightarrow> corpus_db \<Rightarrow> ustr \<Rightarrow> ustr \<Rightarrow> nat \<times> trans_row list \<Rightarrow> xml \<Rightarrow> nat \<times> trans_row list" where
  "trans_book_step u hs db work tr st d =
     (if is_book_div u d then
        (let cnt = fst st + 1;
             bid = (case py_int u (attr_or d ''n'' (asc ''1'')) of
                      Some k \<Rightarrow> book_key work k | None \<Rightarrow> book_key work (int cnt))
         in (cnt, fst (extract_translation_segments u hs db d bid tr (snd st))))
      else st)"

text \<open>
  One translation file (lines 1017-1226): \<open>None\<close> for the parse error the loop
  catches; otherwise the translator, then prose and drama as one book, and other
  works book by book (one book when there are no book divisions).
\<close>

definition process_translation_file ::
  "ucd \<Rightarrow> (ustr \<Rightarrow> int) \<Rightarrow> corpus_db \<Rightarrow> ustr \<Rightarrow> trans_row list \<Rightarrow> ustr \<times> xml option \<Rightarrow> trans_row list" where
  "process_translation_file u hs db work ts f =
     (case snd f of
        None \<Rightarrow> ts
      | Some r \<Rightarrow>
          (let tr = find_translator u (fst f) r;
               has_books = list_ex (is_book_div u) (xml_iter r);
               is_prose = (\<not> has_books \<and> 0 < count_tags ''p'' r \<and> count_tags ''l'' r * 2 < count_tags ''p'' r);
               is_drama = (\<not> has_books \<and> takeWhile (\<lambda>c. c \<noteq> 0x2E) work \<in> set drama_authors)
           in if is_prose \<or> is_drama then extract_whole u hs db r (book_key work 1) tr ts
              else
                (let sr = (case translation_div r of Some d \<Rightarrow> d | None \<Rightarrow> r)
                 in if list_ex (is_book_div u) (xml_iter sr)
                    then snd (foldl (trans_book_step u hs db work tr) (0, ts) (xml_iter sr))
                    else extract_whole u hs db r (book_key work 1) tr ts)))"

text \<open>\<open>process_translations\<close>: the files of \<open>work_dir.glob("*eng*.xml")\<close>, in that order.\<close>

definition process_translations ::
  "ucd \<Rightarrow> (ustr \<Rightarrow> int) \<Rightarrow> corpus_db \<Rightarrow> ustr \<Rightarrow> (ustr \<times> xml option) list \<Rightarrow> trans_row list \<Rightarrow> trans_row list" where
  "process_translations u hs db work fs ts = foldl (process_translation_file u hs db work) ts fs"

section \<open>Examples\<close>

definition staff_tree :: xml where
  "staff_tree =
     Element ''TEI'' [] []
       [Element ''respStmt'' [] []
          [Element ''resp'' [] (asc ''translated and encoded by'') [] [],
           Element ''name'' [] (asc ''Lisa Cerrato'') [] []] []] []"

definition milestone_tree :: xml where
  "milestone_tree =
     Element ''body'' [] []
       [Element ''p'' [] (asc ''The speech begins here.'')
          [Element ''milestone'' [(''unit'', asc ''section''), (''n'', asc ''xiv'')] [] [] []] []] []"

definition seg_ok :: "segment \<Rightarrow> bool" where
  "seg_ok s = (sg_text s \<noteq> [])"

section \<open>Properties of the translation reader\<close>

lemma py_join_ne: "xs \<noteq> [] \<Longrightarrow> hd xs \<noteq> [] \<Longrightarrow> py_join sep xs \<noteq> []"
  by (induction sep xs rule: py_join.induct) simp_all

lemma flush_speaker_ok:
  "list_all seg_ok segs \<Longrightarrow> list_all (\<lambda>x. snd x \<noteq> []) ls \<Longrightarrow> list_all seg_ok (flush_speaker spk ls segs)"
  by (cases ls) (auto simp: flush_speaker_def seg_ok_def py_join_ne)

lemma speaker_step_ok:
  assumes "list_all (\<lambda>x. snd x \<noteq> []) (fst (snd st))" "list_all seg_ok (snd (snd st))"
  shows "list_all (\<lambda>x. snd x \<noteq> []) (fst (snd (speaker_step u st e))) \<and> list_all seg_ok (snd (snd (speaker_step u st e)))"
  using assms flush_speaker_ok by (cases st) (auto simp: speaker_step_def Let_def)

lemma speaker_segments_ok: "list_all seg_ok (speaker_segments u b)"
proof -
  have "list_all (\<lambda>x. snd x \<noteq> []) (fst (snd st)) \<and> list_all seg_ok (snd (snd st)) \<Longrightarrow>
        list_all (\<lambda>x. snd x \<noteq> []) (fst (snd (foldl (speaker_step u) st es))) \<and>
        list_all seg_ok (snd (snd (foldl (speaker_step u) st es)))" for st es
    by (induction es arbitrary: st) (simp_all add: speaker_step_ok)
  from this [of "(None, [], [])" "xml_iter b"] show ?thesis
    by (auto simp: speaker_segments_def flush_speaker_ok split: prod.splits)
qed

lemma numbered_segs_ok: "list_all (\<lambda>t. t \<noteq> []) ts \<Longrightarrow> list_all seg_ok (numbered_segs ts)"
  by (auto simp: numbered_segs_def list_all_iff seg_ok_def plain_seg_def set_zip)

lemma collect_segments_ok: "list_all seg_ok (collect_segments u hs b)"
proof -
  have m: "list_all seg_ok (milestone_segments u hs b)"
    by (auto simp: milestone_segments_def milestone_para_def list_all_iff seg_ok_def plain_seg_def Let_def)
  have s: "list_all seg_ok (section_segments u b)"
    by (auto simp: section_segments_def list_all_iff seg_ok_def plain_seg_def)
  have p: "list_all seg_ok (para_segments u b)"
    unfolding para_segments_def by (rule numbered_segs_ok) (simp add: list_all_iff)
  have l: "list_all seg_ok (line_segments u b)"
    unfolding line_segments_def
  proof (split if_split, intro conjI impI)
    show "list_all seg_ok (numbered_segs (filter (\<lambda>t. t \<noteq> []) ts))" for ts
      by (rule numbered_segs_ok) (simp add: list_all_iff)
  qed (auto simp: list_all_iff seg_ok_def plain_seg_def)
  show ?thesis using speaker_segments_ok m s p l
    by (simp add: collect_segments_def base_segments_def Let_def)
qed

text \<open>
  C33: \<open>extract_translation_segments\<close> appends one row per segment it
  reports, each attached to the book and translator it was given and each with a
  non-empty text, whatever the corpus and the section mapping chosen.
\<close>

theorem extract_rows_wf:
  assumes "extract_translation_segments u hs db b bid tr ts = (ts', n)"
  shows "\<exists>rows. ts' = ts @ rows \<and> length rows = n \<and>
           list_all (\<lambda>r. tr_book_id r = bid \<and> tr_translator r = tr \<and> tr_text r \<noteq> []) rows"
proof -
  let ?segs = "collect_segments u hs b"
  obtain smap where e: "ts' = ts @ map (seg_row bid tr smap) ?segs" "n = length ?segs"
    using assms by (auto simp: extract_translation_segments_def Let_def)
  have "list_all (\<lambda>r. tr_book_id r = bid \<and> tr_translator r = tr \<and> tr_text r \<noteq> []) (map (seg_row bid tr smap) ?segs)"
    using collect_segments_ok [of u hs b]
    by (auto simp: list_all_iff seg_row_def seg_ok_def split: prod.splits)
  with e show ?thesis by auto
qed

lemma pick_name_all_staff:
  "list_all (\<lambda>t. list_ex (py_contains (lower_str u t)) staff_names) ns \<Longrightarrow> ns \<noteq> [] \<Longrightarrow>
   pick_name u cur ns = Some (last ns)"
  by (induction u cur ns rule: pick_name.induct) auto

lemma translator_resp_skip:
  "\<forall>x\<in>set pre. \<not> (tag_ends x ''respStmt'' \<and> py_contains (lower_str u (xml_itertext x)) (asc ''translat'')) \<Longrightarrow>
   translator_resp u cur (pre @ es) = translator_resp u cur es"
  by (induction pre) auto

lemma extract_rows_wf_witness:
  "\<exists>rows. fst (extract_translation_segments greek_ucd (\<lambda>_. 1) empty_corpus milestone_tree (asc ''tlg0059.tlg030.001'') (asc ''Jowett'') []) = [] @ rows \<and>
     length rows = snd (extract_translation_segments greek_ucd (\<lambda>_. 1) empty_corpus milestone_tree (asc ''tlg0059.tlg030.001'') (asc ''Jowett'') []) \<and>
     list_all (\<lambda>r. tr_book_id r = asc ''tlg0059.tlg030.001'' \<and> tr_translator r = asc ''Jowett'' \<and> tr_text r \<noteq> []) rows"
  by (rule extract_rows_wf) simp

text \<open>
  C34: when no editor is marked as translator and the first
  \<open>respStmt\<close> that mentions translation names only Perseus staff, the inner loop of
  lines 1041-1046 never breaks and the file's translator becomes the last staff name,
  the very names the code means to pass over.
\<close>

theorem translator_staff_only:
  assumes "translator_editor u r = None"
    and "xml_iter r = pre @ e # post"
    and "\<forall>x\<in>set pre. \<not> (tag_ends x ''respStmt'' \<and> py_contains (lower_str u (xml_itertext x)) (asc ''translat''))"
    and "tag_ends e ''respStmt''" and "py_contains (lower_str u (xml_itertext e)) (asc ''translat'')"
    and "list_all (\<lambda>t. list_ex (py_contains (lower_str u t)) staff_names) (resp_names u e)"
    and "resp_names u e \<noteq> []" and "last (resp_names u e) \<noteq> []"
  shows "find_translator u fname r = last (resp_names u e)"
proof -
  have "translator_resp u None (xml_iter r) = Some (last (resp_names u e))"
    using assms(2-8) by (simp add: translator_resp_skip pick_name_all_staff truthy_def)
  then show ?thesis
    using assms(1,8) by (simp add: find_translator_def truthy_def)
qed

lemma translator_staff_only_witness:
  "find_translator greek_ucd (asc ''tlg0085.tlg001.perseus-eng1.xml'') staff_tree = asc ''Lisa Cerrato''"
proof -
  let ?e = "Element ''respStmt'' [] []
          [Element ''resp'' [] (asc ''translated and encoded by'') [] [],
           Element ''name'' [] (asc ''Lisa Cerrato'') [] []] []"
  have "find_translator greek_ucd (asc ''tlg0085.tlg001.perseus-eng1.xml'') staff_tree = last (resp_names greek_ucd ?e)"
    by (rule translator_staff_only [where pre = "[staff_tree]" and post = "concat (map xml_iter (xml_children ?e))"])
       (simp_all add: staff_tree_def translator_editor_def tag_lower_def tei_eval resp_names_def staff_names_def)
  then show ?thesis by (simp add: resp_names_def tei_eval)
qed

lemma milestone_tree_segs:
  "collect_segments greek_ucd hs milestone_tree =
     [plain_seg (hs (asc ''xiv'') mod 10000) (hs (asc ''xiv'') mod 10000) (asc ''The speech begins here.'')]"
proof -
  have sp: "speaker_segments greek_ucd milestone_tree = []"
    by (simp add: speaker_segments_def milestone_tree_def tei_eval)
  have ms: "milestone_segments greek_ucd hs milestone_tree =
     [plain_seg (hs (asc ''xiv'') mod 10000) (hs (asc ''xiv'') mod 10000) (asc ''The speech begins here.'')]"
    by (simp add: milestone_segments_def milestone_para_def is_milestone_def milestone_units_def is_para_def
        milestone_num_def seg_text_def milestone_tree_def tei_eval py_int_def int_body_ok_def
        local_name_def excluded_tags_def)
  have ln: "line_segments greek_ucd milestone_tree = []"
    by (simp add: line_segments_def is_poem_div_def milestone_tree_def tei_eval)
  have ex: "list_ex is_milestone (xml_iter milestone_tree)"
    by (simp add: is_milestone_def milestone_units_def milestone_tree_def tei_eval)
  show ?thesis
    unfolding collect_segments_def base_segments_def sp ms ln using ex by simp
qed

text \<open>
  The line a milestone paragraph is stored under depends on
  \<open>hash(n)\<close> for a non-numeric milestone such as \<open>xiv\<close>; Python randomises string
  hashes per process, so two runs of the build store the same translation under
  different lines.
\<close>

theorem milestone_start_hash:
  "map tr_start (fst (extract_translation_segments greek_ucd (\<lambda>_. 1) empty_corpus milestone_tree (asc ''tlg0059.tlg030.001'') (asc ''Jowett'') [])) = [1] \<and>
   map tr_start (fst (extract_translation_segments greek_ucd (\<lambda>_. 10007) empty_corpus milestone_tree (asc ''tlg0059.tlg030.001'') (asc ''Jowett'') [])) = [7]"
  by (simp add: extract_translation_segments_def milestone_tree_segs seg_row_def plain_seg_def
      get_section_line_mapping_def book_line_count_def book_max_line_def empty_corpus_def)

end
