(* ===== verification/Catalogue.thy ===== *)
theory Catalogue
  imports Translations "HOL-Library.List_Lexorder"
begin

text \<open>
  The catalogue phase of \<open>create_database\<close> (\<open>create_perseus_database.py\<close>):
  \<open>parse_cts_metadata\<close> (lines 611-660) reads a work's \<open>__cts__.xml\<close>,
  \<open>process_perseus_author\<close> (lines 1689-1815) stores an author, its works, their
  books and lines (\<open>process_text_file\<close>) and their translations
  (\<open>process_translations\<close>), and \<open>create_database\<close> (lines 2627-2725 and 2914-2930)
  chooses the authors and sets \<open>has_translations\<close>. A directory is a record of its
  name and entries; an XML file is present or absent (\<open>Path.exists\<close>) and, when
  present, parsed or not (\<open>None\<close>, the exception the code catches).
\<close>

record author_row =
  author_name :: ustr
  author_name_alt :: "ustr option"
  author_language :: ustr
  has_translations :: int

record work_row =
  work_author_id :: ustr
  work_title :: ustr
  work_title_alt :: "ustr option"
  work_title_english :: ustr
  work_type :: ustr
  work_urn :: ustr
  work_description :: ustr

text \<open>The tables \<open>authors\<close> and \<open>works\<close> (keyed by \<open>id\<close>), the text tables and \<open>translation_segments\<close>.\<close>

record catalogue_db =
  authors :: "ustr \<rightharpoonup> author_row"
  works :: "ustr \<rightharpoonup> work_row"
  corpus :: corpus_db
  trans_segments :: "trans_row list"

definition empty_catalogue :: catalogue_db where
  "empty_catalogue = \<lparr>authors = Map.empty, works = Map.empty, corpus = empty_corpus, trans_segments = []\<rparr>"

record cts_info =
  ci_title_english :: "ustr option"
  ci_title_latin :: "ustr option"
  ci_title_greek :: "ustr option"
  ci_urn :: ustr
  ci_type :: ustr

text \<open>A work directory: its name, whether it is a directory, its \<open>__cts__.xml\<close>, and its \<open>*.xml\<close> files in \<open>glob\<close> order.\<close>

record work_dir =
  wd_name :: ustr
  wd_is_dir :: bool
  wd_cts :: "xml option option"
  wd_files :: "(ustr \<times> xml option) list"

record author_dir =
  ad_name :: ustr
  ad_is_dir :: bool
  ad_cts :: "xml option option"
  ad_entries :: "work_dir list"

section \<open>Work metadata\<close>

text \<open>\<open>elem.text\<close>: \<open>None\<close> for an element without text.\<close>

definition elem_text_opt :: "xml \<Rightarrow> ustr option" where
  "elem_text_opt e = (if xml_text e = [] then None else Some (xml_text e))"

definition xml_lang :: "xml \<Rightarrow> ustr" where
  "xml_lang e =
     (case attr_get e ''{http://www.w3.org/XML/1998/namespace}lang'' of
        Some l \<Rightarrow> l | None \<Rightarrow> attr_or e ''lang'' (asc ''unk''))"

text \<open>The title loop of lines 619-628: each \<open>title\<close> element sets the title of its language.\<close>

definition title_step :: "cts_info \<Rightarrow> xml \<Rightarrow> cts_info" where
  "title_step ci e =
     (if py_contains (tag_lower (xml_tag e)) ''title'' then
        (if xml_lang e = asc ''eng'' then ci\<lparr>ci_title_english := elem_text_opt e\<rparr>
         else if xml_lang e = asc ''lat'' then ci\<lparr>ci_title_latin := elem_text_opt e\<rparr>
         else if xml_lang e \<in> {asc ''grc'', asc ''greek''} then ci\<lparr>ci_title_greek := elem_text_opt e\<rparr>
         else ci)
      else ci)"

text \<open>Lines 631-640: the first English \<open>label\<close> with text inside each \<open>translation\<close> element.\<close>

definition label_step :: "cts_info \<Rightarrow> xml \<Rightarrow> cts_info" where
  "label_step ci e =
     (if py_contains (tag_lower (xml_tag e)) ''translation'' then
        (case find (\<lambda>l. py_contains (tag_lower (xml_tag l)) ''label'' \<and> xml_lang l = asc ''eng'' \<and> xml_text l \<noteq> [])
                (xml_iter e) of
           Some l \<Rightarrow> ci\<lparr>ci_title_english := Some (xml_text l)\<rparr>
         | None \<Rightarrow> ci)
      else ci)"

definition cts_urn :: "xml \<Rightarrow> ustr" where
  "cts_urn r =
     (if attr_or r ''urn'' [] \<noteq> [] then attr_or r ''urn'' []
      else case find (\<lambda>e. py_contains (tag_lower (xml_tag e)) ''work'') (xml_iter r) of
             Some e \<Rightarrow> attr_or e ''urn'' []
           | None \<Rightarrow> [])"

definition parse_cts_metadata :: "xml option \<Rightarrow> cts_info option" where
  "parse_cts_metadata t =
     (case t of
        None \<Rightarrow> None
      | Some r \<Rightarrow>
          Some ((foldl label_step (foldl title_step
                  \<lparr>ci_title_english = None, ci_title_latin = None, ci_title_greek = None,
                   ci_urn = [], ci_type = []\<rparr> (xml_iter r)) (xml_iter r))
                \<lparr>ci_urn := cts_urn r, ci_type := asc ''text''\<rparr>))"

section \<open>Authors and works\<close>

definition latin_to_english :: "(ustr \<times> ustr) list" where
  "latin_to_english =
     [(asc ''Carmina'', asc ''Odes''), (asc ''Epistulae'', asc ''Epistles''),
      (asc ''Sermones'', asc ''Satires''), (asc ''Epodi'', asc ''Epodes''),
      (asc ''De Bello Gallico'', asc ''The Gallic War''), (asc ''De Bello Civili'', asc ''The Civil War''),
      (asc ''Metamorphoses'', asc ''Metamorphoses''), (asc ''Fasti'', asc ''Fasti''),
      (asc ''Tristia'', asc ''Tristia''), (asc ''Ex Ponto'', asc ''Letters from Pontus''),
      (asc ''Heroides'', asc ''Heroides''), (asc ''Amores'', asc ''The Loves''),
      (asc ''Remedia Amoris'', asc ''The Cure for Love''),
      (asc ''Medicamina Faciei Femineae'', asc ''Cosmetics for Ladies'')]"

text \<open>\<open>x or y\<close> on values that are a string or \<open>None\<close>.\<close>

definition py_or :: "ustr option \<Rightarrow> ustr \<Rightarrow> ustr" where
  "py_or a b = (case a of Some x \<Rightarrow> if x \<noteq> [] then x else b | None \<Rightarrow> b)"

definition work_title_en :: "cts_info \<Rightarrow> ustr \<Rightarrow> ustr" where
  "work_title_en ci num =
     (let t = py_or (ci_title_english ci) (py_or (ci_title_latin ci) num)
      in if \<not> truthy (ci_title_english ci) then (case map_of latin_to_english t of Some e \<Rightarrow> e | None \<Rightarrow> t) else t)"

text \<open>The author's name (lines 1694-1708): the text of the first \<open>groupname\<close>, else the id.\<close>

definition author_display_name :: "author_dir \<Rightarrow> ustr" where
  "author_display_name ad =
     (case ad_cts ad of
        Some (Some r) \<Rightarrow>
          (case find (\<lambda>e. py_contains (tag_lower (xml_tag e)) ''groupname'') (xml_iter r) of
             Some e \<Rightarrow> if xml_text e \<noteq> [] then xml_text e else ad_name ad
           | None \<Rightarrow> ad_name ad)
      | _ \<Rightarrow> ad_name ad)"

definition language_of :: "ustr \<Rightarrow> language" where
  "language_of l = (if l = asc ''greek'' then Greek else OtherLanguage)"

text \<open>The text file of a work (lines 1762-1775): the first \<open>perseus\<close> file of the language.\<close>

definition text_file_of :: "ustr \<Rightarrow> work_dir \<Rightarrow> (ustr \<times> xml option) option" where
  "text_file_of lang wd =
     find (\<lambda>f. py_contains (fst f) (asc ''perseus'') \<and>
               ((py_contains (fst f) (asc ''grc'') \<and> lang = asc ''greek'') \<or>
                (py_contains (fst f) (asc ''lat'') \<and> lang = asc ''latin'')))
       (filter (\<lambda>f. \<not> py_startswith (fst f) (asc ''__'')) (wd_files wd))"

text \<open>Whether a work is stored: a directory not named \<open>__...\<close>, with parsed metadata and a text file.\<close>

definition work_accepted :: "ustr \<Rightarrow> work_dir \<Rightarrow> bool" where
  "work_accepted lang wd =
     (wd_is_dir wd \<and> \<not> py_startswith (wd_name wd) (asc ''__'') \<and>
      (case wd_cts wd of Some t \<Rightarrow> parse_cts_metadata t \<noteq> None | None \<Rightarrow> False) \<and>
      text_file_of lang wd \<noteq> None)"

definition insert_work_ignore :: "ustr \<Rightarrow> work_row \<Rightarrow> catalogue_db \<Rightarrow> catalogue_db" where
  "insert_work_ignore wid w db = (if works db wid = None then db\<lparr>works := (works db)(wid \<mapsto> w)\<rparr> else db)"

text \<open>
  One work of the loop of lines 1719-1810: the work row, its text and its
  translations (\<open>glob("*eng*.xml")\<close>). \<open>hs\<close> is Python's string hash.
\<close>

definition work_row_of :: "ustr \<Rightarrow> ustr \<Rightarrow> ustr \<Rightarrow> ustr \<Rightarrow> cts_info \<Rightarrow> work_row" where
  "work_row_of lang aid aname num ci =
     (let te = work_title_en ci num
      in \<lparr>work_author_id = aid,
          work_title = py_or (ci_title_greek ci) (py_or (ci_title_latin ci) te),
          work_title_alt = ci_title_latin ci, work_title_english = te, work_type = ci_type ci,
          work_urn = ci_urn ci, work_description = te @ asc '' by '' @ aname\<rparr>)"

definition process_work ::
  "ucd \<Rightarrow> (xml \<Rightarrow> ustr) \<Rightarrow> (ustr \<Rightarrow> int) \<Rightarrow> ustr \<Rightarrow> ustr \<Rightarrow> ustr \<Rightarrow> nat \<times> catalogue_db \<Rightarrow> work_dir \<Rightarrow> nat \<times> catalogue_db" where
  "process_work u ts hs lang aid aname st wd =
     (if \<not> work_accepted lang wd then st
      else
        (let wid = aid @ [0x2E] @ wd_name wd;
             ci = the (parse_cts_metadata (the (wd_cts wd)));
             f = the (text_file_of lang wd);
             db1 = insert_work_ignore wid (work_row_of lang aid aname (wd_name wd) ci) (snd st);
             c2 = process_text_file u ts (snd f) wid (language_of lang) (corpus db1);
             tr = process_translations u hs c2 wid
                    (filter (\<lambda>g. py_contains (fst g) (asc ''eng'')) (wd_files wd)) (trans_segments db1)
         in (fst st + 1, db1\<lparr>corpus := c2, trans_segments := tr\<rparr>)))"

text \<open>\<open>process_perseus_author\<close>: the author row, its works, and the author removed when no work was stored.\<close>

definition process_perseus_author ::
  "ucd \<Rightarrow> (xml \<Rightarrow> ustr) \<Rightarrow> (ustr \<Rightarrow> int) \<Rightarrow> ustr \<Rightarrow> author_dir \<Rightarrow> catalogue_db \<Rightarrow> catalogue_db" where
  "process_perseus_author u ts hs lang ad db =
     (let aid = ad_name ad;
          aname = author_display_name ad;
          db1 = (if authors db aid = None
                 then db\<lparr>authors := (authors db)(aid \<mapsto>
                        \<lparr>author_name = aname, author_name_alt = None, author_language = lang, has_translations = 0\<rparr>)\<rparr>
                 else db);
          (n, db2) = foldl (process_work u ts hs lang aid aname) (0, db1) (ad_entries ad)
      in if n = 0 then db2\<lparr>authors := (authors db2)(aid := None)\<rparr> else db2)"

section \<open>The driver\<close>

text \<open>
  The Greek authors (lines 2630-2650): the directories named \<open>tlg...\<close>, in sorted
  order. The names read there are only printed.
\<close>

definition greek_author_ids :: "author_dir list \<Rightarrow> ustr list" where
  "greek_author_ids ds = sort (map ad_name (filter (\<lambda>d. ad_is_dir d \<and> py_startswith (ad_name d) (asc ''tlg'')) ds))"

definition priority_authors :: "ustr list" where
  "priority_authors =
     map asc [''tlg0012'', ''tlg0085'', ''tlg0011'', ''tlg0006'', ''tlg0019'', ''tlg0007'', ''tlg0016'',
              ''tlg0003'', ''tlg0032'', ''tlg0059'', ''tlg0086'', ''tlg0020'', ''tlg0033'', ''tlg0026'']"

definition phase_limit :: "ustr \<Rightarrow> nat option" where
  "phase_limit ph = (if ph = asc ''test'' then Some 30 else if ph = asc ''medium'' then Some 60 else None)"

text \<open>
  The selection of lines 2653-2675: the priority authors present, then the others
  in sorted order, while fewer than the limit are selected.
\<close>

definition select_step :: "nat \<Rightarrow> ustr list \<Rightarrow> ustr \<Rightarrow> ustr list" where
  "select_step lmt sel a = (if a \<notin> set sel \<and> length sel < lmt then sel @ [a] else sel)"

definition select_authors :: "ustr \<Rightarrow> ustr list \<Rightarrow> ustr list" where
  "select_authors ph ids =
     (case phase_limit ph of
        None \<Rightarrow> ids
      | Some lmt \<Rightarrow>
          (let sel = foldl (\<lambda>sel a. if a \<in> set ids \<and> length sel < lmt then sel @ [a] else sel) [] priority_authors
           in filter (\<lambda>a. a \<in> set (foldl (select_step lmt) sel ids)) ids))"

definition latin_authors :: "ustr list" where
  "latin_authors = map asc [''phi0959'', ''phi0690'', ''phi0893'']"

text \<open>The directory of an author id, when it exists (\<open>author_path.exists()\<close>).\<close>

definition author_path :: "author_dir list \<Rightarrow> ustr \<Rightarrow> author_dir option" where
  "author_path ds a = find (\<lambda>d. ad_name d = a) ds"

definition process_authors ::
  "ucd \<Rightarrow> (xml \<Rightarrow> ustr) \<Rightarrow> (ustr \<Rightarrow> int) \<Rightarrow> ustr \<Rightarrow> author_dir list \<Rightarrow> ustr list \<Rightarrow> catalogue_db \<Rightarrow> catalogue_db" where
  "process_authors u ts hs lang ds ids db =
     foldl (\<lambda>db a. case author_path ds a of Some d \<Rightarrow> process_perseus_author u ts hs lang d db | None \<Rightarrow> db) db ids"

text \<open>SQL \<open>TRIM\<close>: leading and trailing spaces removed.\<close>

definition sql_trim :: "ustr \<Rightarrow> ustr" where
  "sql_trim s = rev (dropWhile (\<lambda>c. c = 0x20) (rev (dropWhile (\<lambda>c. c = 0x20) s)))"

text \<open>
  The authors the \<open>UPDATE\<close> of lines 2914-2927 marks: a translation segment of more
  than ten characters on a book of one of their works.
\<close>

definition translated_author :: "catalogue_db \<Rightarrow> ustr \<Rightarrow> bool" where
  "translated_author db a =
     list_ex (\<lambda>t. 10 < length (sql_trim (tr_text t)) \<and>
                 (case books (corpus db) (tr_book_id t) of
                    None \<Rightarrow> False
                  | Some b \<Rightarrow> (case works db (book_work_id b) of
                                 None \<Rightarrow> False
                               | Some w \<Rightarrow> work_author_id w = a \<and> authors db a \<noteq> None)))
       (trans_segments db)"

definition update_has_translations :: "catalogue_db \<Rightarrow> catalogue_db" where
  "update_has_translations db =
     db\<lparr>authors := (\<lambda>a. map_option (\<lambda>r. if translated_author db a then r\<lparr>has_translations := 1\<rparr> else r) (authors db a))\<rparr>"

text \<open>
  The text phase of \<open>create_database\<close>: the selected Greek authors, the three Latin
  authors, then the translation flags. The dictionary and lemma phases between them
  (lines 2727-2820) write other tables.
\<close>

definition create_catalogue ::
  "ucd \<Rightarrow> (xml \<Rightarrow> ustr) \<Rightarrow> (ustr \<Rightarrow> int) \<Rightarrow> ustr \<Rightarrow> author_dir list \<Rightarrow> author_dir list \<Rightarrow> catalogue_db" where
  "create_catalogue u ts hs ph gds lds =
     update_has_translations
       (process_authors u ts hs (asc ''latin'') lds latin_authors
          (process_authors u ts hs (asc ''greek'') gds (select_authors ph (greek_author_ids gds)) empty_catalogue))"

section \<open>Specification and examples\<close>

definition books_in :: "ustr set \<Rightarrow> corpus_db \<Rightarrow> bool" where
  "books_in W db = (\<forall>k b. books db k = Some b \<longrightarrow> book_work_id b \<in> W)"

definition cat_wf :: "catalogue_db \<Rightarrow> bool" where
  "cat_wf db =
     ((\<forall>k w. works db k = Some w \<longrightarrow> work_author_id w \<in> dom (authors db)) \<and>
      books_in (dom (works db)) (corpus db))"

definition work_authors :: "catalogue_db \<Rightarrow> ustr set" where
  "work_authors db = work_author_id ` ran (works db)"

definition orphan_body :: xml where
  "orphan_body = Element ''body'' [] [] [Element ''p'' [] (asc ''The first paragraph of the translation.'') [] []] []"

definition orphan_trans_tree :: xml where
  "orphan_trans_tree =
     Element ''TEI'' [] []
       [orphan_body] []"

definition orphan_work :: work_dir where
  "orphan_work =
     \<lparr>wd_name = asc ''tlg001'', wd_is_dir = True,
      wd_cts = Some (Some (Element ''work'' [] [] [Element ''title'' [(''lang'', asc ''grc'')] (asc ''Title'') [] []] [])),
      wd_files = [(asc ''tlg9999.tlg001.perseus-grc1.xml'', None),
                  (asc ''tlg9999.tlg001.perseus-eng1.xml'', Some orphan_trans_tree)]\<rparr>"

definition orphan_author :: author_dir where
  "orphan_author = \<lparr>ad_name = asc ''tlg9999'', ad_is_dir = True, ad_cts = None, ad_entries = [orphan_work]\<rparr>"

section \<open>Properties of the catalogue\<close>

lemma books_in_upd: "books_in W db \<Longrightarrow> book_work_id b \<in> W \<Longrightarrow> books_in W (db\<lparr>books := (books db)(k \<mapsto> b)\<rparr>)"
  by (simp add: books_in_def)

lemma books_foldl_store_line [simp]: "books (foldl (store_line u lang bid) db ls) = books db"
  by (induction ls arbitrary: db) simp_all

lemma books_foldl_insert_line_plain [simp]: "books (foldl (insert_line_plain bid) db ls) = books db"
  by (induction ls arbitrary: db) (simp_all add: insert_line_plain_def)

lemma books_in_foldl_store_line [simp]: "books_in W (foldl (store_line u lang bid) db ls) = books_in W db"
  by (simp add: books_in_def)

lemma books_in_foldl_insert_line_plain [simp]: "books_in W (foldl (insert_line_plain bid) db ls) = books_in W db"
  by (simp add: books_in_def)

lemma books_in_delete_book_lines [simp]: "books_in W (delete_book_lines bid db) = books_in W db"
  by (simp add: books_in_def delete_book_lines_def)

lemma store_book_books_in: "books_in W db \<Longrightarrow> w \<in> W \<Longrightarrow> books_in W (store_book u lang w bid n lab ls db)"
  by (simp add: store_book_def insert_book_ignore_def books_in_upd)

lemma verse_books_books_in:
  "books_in W db \<Longrightarrow> w \<in> W \<Longrightarrow> books_in W (snd (verse_books u ts lang w r db))"
proof -
  assume w: "w \<in> W"
  have "books_in W (snd st) \<Longrightarrow> books_in W (snd (foldl (verse_book_step u ts lang w) st es))" for st es
    by (induction es arbitrary: st) (simp_all add: verse_book_step_def Let_def store_book_books_in w)
  then show "books_in W db \<Longrightarrow> books_in W (snd (verse_books u ts lang w r db))"
    by (simp add: verse_books_def)
qed

lemma prose_with_books_books_in:
  "books_in W db \<Longrightarrow> w \<in> W \<Longrightarrow> books_in W (process_prose_with_books u lang w r db)"
proof -
  assume w: "w \<in> W"
  have step: "books_in W (snd st) \<Longrightarrow> books_in W (snd (prose_book_step u lang w st e))" for st e
    by (simp add: prose_book_step_def Let_def insert_book_replace_def books_in_upd w)
  have "books_in W (snd st) \<Longrightarrow> books_in W (snd (foldl (prose_book_step u lang w) st es))" for st es
    by (induction es arbitrary: st) (simp_all add: step)
  then show "books_in W db \<Longrightarrow> books_in W (process_prose_with_books u lang w r db)"
    by (simp add: process_prose_with_books_def)
qed

lemma process_text_file_books_in:
  assumes "books_in W db" "w \<in> W"
  shows "books_in W (process_text_file u ts t w lang db)"
proof (cases t)
  case (Some r)
  obtain n db' where v: "verse_books u ts lang w r db = (n, db')" by fastforce
  have "books_in W db'" using verse_books_books_in [OF assms, of u ts lang r] v by simp
  moreover have "books_in W (process_prose_with_books u lang w r db)"
    using assms by (rule prose_with_books_books_in)
  ultimately show ?thesis
    using assms Some v
    by (cases "w = asc ''tlg0086.tlg035''")
       (simp_all add: process_text_file_def process_prose_text_def drama_text_def verse_single_def
        store_book_books_in prose_with_books_books_in)
qed (simp add: process_text_file_def assms)

lemma books_in_mono: "books_in W db \<Longrightarrow> W \<subseteq> W' \<Longrightarrow> books_in W' db"
  by (auto simp: books_in_def)

lemma work_authors_iff: "a \<in> work_authors db \<longleftrightarrow> (\<exists>k w. works db k = Some w \<and> work_author_id w = a)"
  by (auto simp: work_authors_def ran_def)

lemma process_work_cases:
  "process_work u ts hs lang aid an st wd = st \<or>
   (fst (process_work u ts hs lang aid an st wd) = Suc (fst st) \<and>
    (let db' = snd (process_work u ts hs lang aid an st wd) in
      authors db' = authors (snd st) \<and>
      (cat_wf (snd st) \<longrightarrow> aid \<in> dom (authors (snd st)) \<longrightarrow> cat_wf db') \<and>
      work_authors db' \<subseteq> insert aid (work_authors (snd st))))"
proof (cases "work_accepted lang wd")
  case True
  let ?db = "snd st"
  let ?wid = "aid @ [0x2E] @ wd_name wd"
  let ?w = "work_row_of lang aid an (wd_name wd) (the (parse_cts_metadata (the (wd_cts wd))))"
  let ?db1 = "insert_work_ignore ?wid ?w ?db"
  have a1: "authors ?db1 = authors ?db" and c1: "corpus ?db1 = corpus ?db"
    by (simp_all add: insert_work_ignore_def)
  have dom1: "?wid \<in> dom (works ?db1)" and sub1: "dom (works ?db) \<subseteq> dom (works ?db1)"
    by (auto simp: insert_work_ignore_def)
  have wa1: "work_authors ?db1 \<subseteq> insert aid (work_authors ?db)"
    by (auto simp: insert_work_ignore_def work_authors_iff work_row_of_def Let_def split: if_splits)
  have wf1: "cat_wf ?db1" if "cat_wf ?db" "aid \<in> dom (authors ?db)"
  proof -
    have "\<forall>k w. works ?db1 k = Some w \<longrightarrow> work_author_id w \<in> dom (authors ?db1)"
      using that by (auto simp: cat_wf_def insert_work_ignore_def work_row_of_def Let_def split: if_splits)
    moreover have "books_in (dom (works ?db1)) (corpus ?db1)"
      using that sub1 c1 by (auto simp: cat_wf_def intro: books_in_mono)
    ultimately show ?thesis by (simp add: cat_wf_def)
  qed
  have "cat_wf (?db1\<lparr>corpus := process_text_file u ts t ?wid lg (corpus ?db1), trans_segments := tr\<rparr>)"
    if "cat_wf ?db" "aid \<in> dom (authors ?db)" for t lg tr
    using wf1 [OF that] process_text_file_books_in [OF _ dom1] by (simp add: cat_wf_def)
  then show ?thesis
    using True a1 wa1 by (simp add: process_work_def Let_def work_authors_def)
qed (simp add: process_work_def)

lemma process_works_fold:
  assumes "cat_wf (snd st)" "aid \<in> dom (authors (snd st))"
  shows "fst st \<le> fst (foldl (process_work u ts hs lang aid an) st wds) \<and>
         (fst (foldl (process_work u ts hs lang aid an) st wds) = fst st \<longrightarrow>
            foldl (process_work u ts hs lang aid an) st wds = st) \<and>
         authors (snd (foldl (process_work u ts hs lang aid an) st wds)) = authors (snd st) \<and>
         cat_wf (snd (foldl (process_work u ts hs lang aid an) st wds)) \<and>
         work_authors (snd (foldl (process_work u ts hs lang aid an) st wds)) \<subseteq> insert aid (work_authors (snd st))"
  using assms
proof (induction wds arbitrary: st)
  case (Cons wd wds)
  let ?st' = "process_work u ts hs lang aid an st wd"
  from process_work_cases [of u ts hs lang aid an st wd]
  show ?case
  proof
    assume "?st' = st"
    with Cons.IH [OF Cons.prems] show ?thesis by simp
  next
    assume c: "fst ?st' = Suc (fst st) \<and> (let db' = snd ?st' in
      authors db' = authors (snd st) \<and> (cat_wf (snd st) \<longrightarrow> aid \<in> dom (authors (snd st)) \<longrightarrow> cat_wf db') \<and>
      work_authors db' \<subseteq> insert aid (work_authors (snd st)))"
    then have "cat_wf (snd ?st')" "aid \<in> dom (authors (snd ?st'))"
      using Cons.prems by (simp_all add: Let_def)
    note ih = Cons.IH [OF this]
    show ?thesis using ih c by (auto simp: Let_def)
  qed
qed auto

lemma process_perseus_author_wf:
  assumes "cat_wf db" "ad_name ad \<notin> work_authors db"
  shows "cat_wf (process_perseus_author u ts hs lang ad db) \<and>
         work_authors (process_perseus_author u ts hs lang ad db) \<subseteq> insert (ad_name ad) (work_authors db)"
proof -
  let ?aid = "ad_name ad"
  define db1 where "db1 = (if authors db ?aid = None
                 then db\<lparr>authors := (authors db)(?aid \<mapsto>
                        \<lparr>author_name = author_display_name ad, author_name_alt = None, author_language = lang,
                         has_translations = 0\<rparr>)\<rparr>
                 else db)"
  have w1: "works db1 = works db" "corpus db1 = corpus db" and d1: "dom (authors db1) = insert ?aid (dom (authors db))"
    by (auto simp: db1_def)
  have wf1: "cat_wf db1" using assms(1) w1 d1 by (auto simp: cat_wf_def)
  obtain n db2 where f: "foldl (process_work u ts hs lang ?aid (author_display_name ad)) (0, db1) (ad_entries ad) = (n, db2)"
    by fastforce
  have "?aid \<in> dom (authors db1)" using d1 by simp
  from process_works_fold [of "(0, db1)" ?aid u ts hs lang "author_display_name ad" "ad_entries ad"] wf1 this f
  have fo: "(n = 0 \<longrightarrow> db2 = db1) \<and> authors db2 = authors db1 \<and> cat_wf db2 \<and>
            work_authors db2 \<subseteq> insert ?aid (work_authors db1)"
    by simp
  show ?thesis
  proof (cases "n = 0")
    case True
    then have e: "process_perseus_author u ts hs lang ad db = db1\<lparr>authors := (authors db1)(?aid := None)\<rparr>"
      using f fo by (simp add: process_perseus_author_def db1_def Let_def)
    have "work_author_id w \<in> dom ((authors db1)(?aid := None))" if "works db1 k = Some w" for k w
    proof -
      have "work_author_id w \<noteq> ?aid" using assms(2) that w1 by (auto simp: work_authors_iff)
      moreover have "work_author_id w \<in> dom (authors db1)" using wf1 that by (auto simp: cat_wf_def)
      ultimately show ?thesis by simp
    qed
    then show ?thesis using e wf1 w1 by (auto simp: cat_wf_def work_authors_def)
  next
    case False
    then have "process_perseus_author u ts hs lang ad db = db2"
      using f by (simp add: process_perseus_author_def db1_def Let_def)
    then show ?thesis using fo w1 by (simp add: work_authors_def)
  qed
qed

lemma author_path_name: "author_path ds a = Some d \<Longrightarrow> ad_name d = a"
  by (auto simp: author_path_def find_Some_iff)

lemma process_authors_wf:
  "cat_wf db \<Longrightarrow> distinct ids \<Longrightarrow> set ids \<inter> work_authors db = {} \<Longrightarrow>
   cat_wf (process_authors u ts hs lang ds ids db) \<and>
   work_authors (process_authors u ts hs lang ds ids db) \<subseteq> work_authors db \<union> set ids"
proof (induction ids arbitrary: db)
  case (Cons a ids)
  let ?db' = "case author_path ds a of Some d \<Rightarrow> process_perseus_author u ts hs lang d db | None \<Rightarrow> db"
  have s: "cat_wf ?db' \<and> work_authors ?db' \<subseteq> insert a (work_authors db)"
  proof (cases "author_path ds a")
    case (Some d)
    then show ?thesis using process_perseus_author_wf [of db d u ts hs lang] Cons.prems author_path_name [OF Some]
      by auto
  qed (use Cons.prems in auto)
  then have "set ids \<inter> work_authors ?db' = {}" using Cons.prems by auto
  with Cons.IH [of ?db'] s Cons.prems show ?case
    by (auto simp: process_authors_def)
qed (simp add: process_authors_def)

lemma update_has_translations_wf: "cat_wf db \<Longrightarrow> cat_wf (update_has_translations db)"
  by (auto simp: cat_wf_def update_has_translations_def dom_def)

lemma select_authors_subset: "set (select_authors ph ids) \<subseteq> set ids"
  by (auto simp: select_authors_def split: option.splits)

lemma select_authors_distinct: "distinct ids \<Longrightarrow> distinct (select_authors ph ids)"
  by (auto simp: select_authors_def split: option.splits)

lemma greek_author_ids_tlg: "a \<in> set (greek_author_ids ds) \<Longrightarrow> py_startswith a (asc ''tlg'')"
  by (auto simp: greek_author_ids_def)

lemma greek_author_ids_distinct: "distinct (map ad_name ds) \<Longrightarrow> distinct (greek_author_ids ds)"
  by (simp add: greek_author_ids_def distinct_map_filter)

text \<open>
  C32: the text phase of \<open>create_database\<close> leaves the catalogue's
  foreign keys intact: every work row names a stored author and every book row a
  stored work, for any directory tree whose author directories have distinct names.
\<close>

theorem create_catalogue_wf:
  assumes "distinct (map ad_name gds)"
  shows "cat_wf (create_catalogue u ts hs ph gds lds)"
proof -
  let ?g = "select_authors ph (greek_author_ids gds)"
  have e: "cat_wf empty_catalogue" "work_authors empty_catalogue = {}"
    by (simp_all add: cat_wf_def empty_catalogue_def books_in_def empty_corpus_def work_authors_def)
  have "distinct ?g" using assms by (simp add: select_authors_distinct greek_author_ids_distinct)
  from process_authors_wf [OF e(1) this] e(2)
  have g: "cat_wf (process_authors u ts hs (asc ''greek'') gds ?g empty_catalogue)"
      "work_authors (process_authors u ts hs (asc ''greek'') gds ?g empty_catalogue) \<subseteq> set ?g"
    by auto
  have "set latin_authors \<inter> set ?g = {}"
    using select_authors_subset greek_author_ids_tlg
    by (fastforce simp: latin_authors_def asc_def)
  then have "set latin_authors \<inter> work_authors (process_authors u ts hs (asc ''greek'') gds ?g empty_catalogue) = {}"
    using g(2) by blast
  moreover have "distinct latin_authors" by (simp add: latin_authors_def asc_def)
  ultimately show ?thesis
    using process_authors_wf [OF g(1)] update_has_translations_wf
    by (simp add: create_catalogue_def)
qed

lemma create_catalogue_wf_witness:
  "cat_wf (create_catalogue greek_ucd (\<lambda>_. []) (\<lambda>_. 0) (asc ''full'') [orphan_author] [])"
  by (rule create_catalogue_wf) simp

lemma process_work_count:
  "fst (process_work u ts hs lang aid an st wd) = fst st + (if work_accepted lang wd then 1 else 0)"
  by (simp add: process_work_def Let_def)

lemma process_works_count:
  "fst (foldl (process_work u ts hs lang aid an) st wds) = fst st + length (filter (work_accepted lang) wds)"
  by (induction wds arbitrary: st) (simp_all add: process_work_count)

lemma process_works_authors:
  "authors (snd (foldl (process_work u ts hs lang aid an) st wds)) = authors (snd st)"
proof (induction wds arbitrary: st)
  case (Cons wd wds)
  have "authors (snd (process_work u ts hs lang aid an st wd)) = authors (snd st)"
    by (simp add: process_work_def Let_def insert_work_ignore_def)
  with Cons show ?case by simp
qed simp

text \<open>
  After \<open>process_perseus_author\<close> the author row exists exactly
  when at least one of its work directories was stored; an author without such a work
  is removed, even when it was stored before.
\<close>

theorem author_kept_iff_work:
  "(authors (process_perseus_author u ts hs lang ad db) (ad_name ad) \<noteq> None) =
   list_ex (work_accepted lang) (ad_entries ad)"
proof -
  let ?db1 = "if authors db (ad_name ad) = None
                 then db\<lparr>authors := (authors db)(ad_name ad \<mapsto>
                        \<lparr>author_name = author_display_name ad, author_name_alt = None, author_language = lang,
                         has_translations = 0\<rparr>)\<rparr>
                 else db"
  obtain n db2 where f: "foldl (process_work u ts hs lang (ad_name ad) (author_display_name ad)) (0, ?db1) (ad_entries ad) = (n, db2)"
    by fastforce
  have n: "n = length (filter (work_accepted lang) (ad_entries ad))"
    using process_works_count [of u ts hs lang "ad_name ad" "author_display_name ad" "(0, ?db1)" "ad_entries ad"] f by simp
  have a: "authors db2 (ad_name ad) \<noteq> None"
    using process_works_authors [of u ts hs lang "ad_name ad" "author_display_name ad" "(0, ?db1)" "ad_entries ad"] f
    by auto
  show ?thesis
    using f n a by (auto simp: process_perseus_author_def Let_def list_ex_iff filter_empty_conv)
qed

lemma pa_len: "length priority_authors = 14" by (simp add: priority_authors_def)

lemma pa_dist: "distinct priority_authors" by (simp add: priority_authors_def asc_def)

lemma prio_fold:
  "length s0 + length ps \<le> l \<Longrightarrow>
   length (foldl (\<lambda>sel a. if a \<in> set ids \<and> length sel < l then sel @ [a] else sel) s0 ps) \<le> length s0 + length ps \<and>
   set (foldl (\<lambda>sel a. if a \<in> set ids \<and> length sel < l then sel @ [a] else sel) s0 ps) = set s0 \<union> (set ps \<inter> set ids) \<and>
   (distinct s0 \<and> distinct ps \<and> set s0 \<inter> set ps = {} \<longrightarrow>
    distinct (foldl (\<lambda>sel a. if a \<in> set ids \<and> length sel < l then sel @ [a] else sel) s0 ps))"
proof (induction ps arbitrary: s0)
  case (Cons p ps)
  show ?case
    using Cons.IH [of "s0 @ [p]"] Cons.IH [of s0] Cons.prems by (cases "p \<in> set ids") auto
qed simp

lemma select_fold:
  "length s \<le> l \<Longrightarrow> distinct s \<Longrightarrow>
   length (foldl (select_step l) s xs) \<le> l \<and> set s \<subseteq> set (foldl (select_step l) s xs) \<and>
   distinct (foldl (select_step l) s xs)"
proof (induction xs arbitrary: s)
  case (Cons x xs)
  have "length (select_step l s x) \<le> l" "distinct (select_step l s x)" "set s \<subseteq> set (select_step l s x)"
    using Cons.prems by (auto simp: select_step_def)
  with Cons.IH [of "select_step l s x"] show ?case by auto
qed simp

text \<open>
  A test or medium phase selects at most its limit of authors, and
  every priority author present in the corpus is among them.
\<close>

theorem select_authors_bound:
  assumes "phase_limit ph = Some l" "distinct ids"
  shows "length (select_authors ph ids) \<le> l \<and>
         (\<forall>a\<in>set priority_authors. a \<in> set ids \<longrightarrow> a \<in> set (select_authors ph ids))"
proof -
  define sel where "sel = foldl (\<lambda>sel a. if a \<in> set ids \<and> length sel < l then sel @ [a] else sel) [] priority_authors"
  have "14 \<le> l" using assms(1) by (auto simp: phase_limit_def split: if_splits)
  then have sel: "length sel \<le> l" "set sel = set priority_authors \<inter> set ids" "distinct sel"
    using prio_fold [of "[]" priority_authors l ids] pa_len pa_dist by (simp_all add: sel_def)
  define fin where "fin = foldl (select_step l) sel ids"
  have fin: "length fin \<le> l" "set sel \<subseteq> set fin" "distinct fin"
    using select_fold [OF sel(1) sel(3), of ids] by (simp_all add: fin_def)
  have e: "select_authors ph ids = filter (\<lambda>a. a \<in> set fin) ids"
    using assms(1) by (simp add: select_authors_def sel_def fin_def)
  have "length (filter (\<lambda>a. a \<in> set fin) ids) = card (set (filter (\<lambda>a. a \<in> set fin) ids))"
    using assms(2) by (metis distinct_card distinct_filter)
  also have "\<dots> \<le> card (set fin)" by (intro card_mono) auto
  also have "\<dots> = length fin" using fin(3) by (simp add: distinct_card)
  finally show ?thesis using fin sel e by auto
qed

lemma select_authors_bound_witness:
  "length (select_authors (asc ''test'') [asc ''tlg0001'', asc ''tlg0012'']) \<le> 30 \<and>
   asc ''tlg0012'' \<in> set (select_authors (asc ''test'') [asc ''tlg0001'', asc ''tlg0012''])"
proof -
  have "length (select_authors (asc ''test'') [asc ''tlg0001'', asc ''tlg0012'']) \<le> 30 \<and>
        (\<forall>a\<in>set priority_authors. a \<in> set [asc ''tlg0001'', asc ''tlg0012''] \<longrightarrow>
           a \<in> set (select_authors (asc ''test'') [asc ''tlg0001'', asc ''tlg0012'']))"
    by (rule select_authors_bound) (simp_all add: phase_limit_def asc_def)
  moreover have "asc ''tlg0012'' \<in> set priority_authors" by (simp add: priority_authors_def)
  ultimately show ?thesis by simp
qed

lemma orphan_accepted: "work_accepted (asc ''greek'') orphan_work"
  by (simp add: work_accepted_def orphan_work_def text_file_of_def parse_cts_metadata_def asc_def)

lemma orphan_translator:
  "find_translator greek_ucd (asc ''tlg9999.tlg001.perseus-eng1.xml'') orphan_trans_tree = asc ''Unknown''"
  by (simp add: find_translator_def translator_editor_def translator_author_def translator_filename_def
      filename_translators_def orphan_trans_tree_def orphan_body_def tag_lower_def tei_eval truthy_def)

lemma orphan_segments:
  "collect_segments greek_ucd hs orphan_body = [plain_seg 1 1 (asc ''The first paragraph of the translation.'')]"
proof -
  have sp: "speaker_segments greek_ucd orphan_body = []"
    by (simp add: speaker_segments_def orphan_body_def tei_eval)
  have m: "\<not> list_ex is_milestone (xml_iter orphan_body)"
    by (simp add: is_milestone_def orphan_body_def tei_eval)
  have sc: "\<not> list_ex is_section_div (xml_iter orphan_body)"
    by (simp add: is_section_div_def orphan_body_def tei_eval)
  have p: "para_segments greek_ucd orphan_body = [plain_seg 1 1 (asc ''The first paragraph of the translation.'')]"
    by (simp add: para_segments_def numbered_segs_def is_para_def seg_text_def orphan_body_def tei_eval
        local_name_def excluded_tags_def)
  have ln: "line_segments greek_ucd orphan_body = []"
    by (simp add: line_segments_def is_poem_div_def orphan_body_def tei_eval)
  show ?thesis
    unfolding collect_segments_def base_segments_def sp p ln using m sc by simp
qed

lemma orphan_translations:
  "process_translations greek_ucd hs empty_corpus (asc ''tlg9999.tlg001'')
     [(asc ''tlg9999.tlg001.perseus-eng1.xml'', Some orphan_trans_tree)] [] =
   [\<lparr>tr_book_id = asc ''tlg9999.tlg001.001'', tr_start = 1, tr_end = 1,
     tr_text = asc ''The first paragraph of the translation.'', tr_translator = asc ''Unknown'', tr_speaker = None\<rparr>]"
proof -
  have nb: "\<not> list_ex (is_book_div greek_ucd) (xml_iter orphan_trans_tree)"
    by (simp add: is_book_div_def orphan_trans_tree_def orphan_body_def tei_eval)
  have pr: "0 < count_tags ''p'' orphan_trans_tree \<and> count_tags ''l'' orphan_trans_tree * 2 < count_tags ''p'' orphan_trans_tree"
    by (simp add: count_tags_def orphan_trans_tree_def orphan_body_def tei_eval)
  have td: "translation_div orphan_trans_tree = None" "body_elem orphan_trans_tree = Some orphan_body"
    by (simp_all add: translation_div_def body_elem_def orphan_trans_tree_def orphan_body_def tei_eval)
  have ex: "fst (extract_translation_segments greek_ucd hs empty_corpus orphan_body (asc ''tlg9999.tlg001.001'') (asc ''Unknown'') []) =
   [\<lparr>tr_book_id = asc ''tlg9999.tlg001.001'', tr_start = 1, tr_end = 1,
     tr_text = asc ''The first paragraph of the translation.'', tr_translator = asc ''Unknown'', tr_speaker = None\<rparr>]"
    by (simp add: extract_translation_segments_def orphan_segments seg_row_def plain_seg_def
        get_section_line_mapping_def book_line_count_def book_max_line_def empty_corpus_def)
  have bk: "book_key (asc ''tlg9999.tlg001'') 1 = asc ''tlg9999.tlg001.001''"
    by (simp add: book_key_def py_fmt03_def zero_pad_def py_str_int_def asc_def dec_nat.simps numeral_2_eq_2)
  show ?thesis
    using nb pr
    by (simp add: process_translations_def process_translation_file_def orphan_translator extract_whole_def td ex bk)
qed

text \<open>
  When a work's Greek file fails to parse but its English
  translation parses, \<open>process_perseus_author\<close> stores translation segments under a
  book id that has no row in \<open>books\<close>; the foreign key of \<open>translation_segments\<close> is
  not enforced and nothing checks it.
\<close>

theorem translation_without_book:
  "map tr_book_id (trans_segments (process_perseus_author greek_ucd ts hs (asc ''greek'') orphan_author empty_catalogue)) =
     [asc ''tlg9999.tlg001.001''] \<and>
   books (corpus (process_perseus_author greek_ucd ts hs (asc ''greek'') orphan_author empty_catalogue)) = Map.empty"
proof -
  have tf: "text_file_of (asc ''greek'') orphan_work = Some (asc ''tlg9999.tlg001.perseus-grc1.xml'', None)"
    by (simp add: text_file_of_def orphan_work_def asc_def)
  have ef: "filter (\<lambda>g. py_contains (fst g) (asc ''eng'')) (wd_files orphan_work) =
            [(asc ''tlg9999.tlg001.perseus-eng1.xml'', Some orphan_trans_tree)]"
    by (simp add: orphan_work_def asc_def)
  have wid: "asc ''tlg9999'' @ 0x2E # wd_name orphan_work = asc ''tlg9999.tlg001''"
    by (simp add: orphan_work_def asc_def)
  have pt: "process_text_file greek_ucd ts None w lg db = db" for w lg db
    by (simp add: process_text_file_def)
  have eb: "books empty_corpus = Map.empty" by (simp add: empty_corpus_def)
  show ?thesis
    by (simp add: process_perseus_author_def orphan_author_def process_work_def orphan_accepted Let_def
        tf ef wid pt insert_work_ignore_def empty_catalogue_def orphan_translations eb)
qed

text \<open>
  The default of \<open>work_info.get('urn', f"urn:cts:...")\<close> is never used: the metadata
  always has a \<open>urn\<close> key, so a work whose metadata names no URN is stored with the
  empty string.
\<close>

lemma work_urn_default_unused:
  "map_option work_urn (works (process_perseus_author greek_ucd ts hs (asc ''greek'') orphan_author empty_catalogue)
     (asc ''tlg9999.tlg001'')) = Some []"
proof -
  have wid: "asc ''tlg9999'' @ 0x2E # wd_name orphan_work = asc ''tlg9999.tlg001''"
    by (simp add: orphan_work_def asc_def)
  have urn: "ci_urn (the (parse_cts_metadata (the (wd_cts orphan_work)))) = []"
    by (simp add: parse_cts_metadata_def cts_urn_def orphan_work_def tei_eval tag_lower_def)
  show ?thesis
    by (simp add: process_perseus_author_def orphan_author_def process_work_def orphan_accepted Let_def
        wid insert_work_ignore_def empty_catalogue_def work_row_of_def urn)
qed

end
