(* ===== verification/Alignment.thy ===== *)
theory Alignment
  imports Translations
begin

text \<open>
  \<open>src/data-prep/improved_translation_alignment.py\<close>: the Greek text's structure (Bekker
  milestones, chapters and subchapters, or sections) is read as a map from references
  to estimated line ranges, the translation is cut along the same references, and the
  segments are inserted into \<open>translation_segments\<close> after an optional renumbering.
  Python dicts are association lists updated in place (\<open>dict_set\<close>), so that their
  iteration order and overwriting are the code's. A reference read before any Bekker
  page milestone raises \<open>UnboundLocalError\<close> (\<open>current_page\<close> is unbound), the
  value \<open>Inl\<close> of the results below.
\<close>

datatype align_error = UnboundCurrentPage

section \<open>Dictionaries and floats\<close>

text \<open>\<open>d[k] = v\<close>: a present key keeps its position and takes the new value.\<close>

fun dict_set :: "'k \<Rightarrow> 'v \<Rightarrow> ('k \<times> 'v) list \<Rightarrow> ('k \<times> 'v) list" where
  "dict_set k v [] = [(k, v)]"
| "dict_set k v ((k', v') # d) = (if k = k' then (k, v) # d else (k', v') # dict_set k v d)"

text \<open>\<open>x + y\<close> and \<open>x - n\<close> on floats: the exact sum, rounded to 53 bits.\<close>

definition fadd :: "pyfloat \<Rightarrow> pyfloat \<Rightarrow> pyfloat" where
  "fadd f g =
     (let e = min (snd f) (snd g); s = fst f * 2 ^ nat (snd f - e) + fst g * 2 ^ nat (snd g - e)
      in fsigned (s < 0) (round53 (nat \<bar>s\<bar>) e False))"

definition fle_int :: "int \<Rightarrow> pyfloat \<Rightarrow> bool" where
  "fle_int a f = (\<not> flt f (float_of_int a))"

section \<open>The structure of the Greek text\<close>

definition is_bekker :: "xml \<Rightarrow> bool" where
  "is_bekker e = (tag_ends e ''milestone'' \<and> attr_get e ''resp'' = Some (asc ''Bekker''))"

text \<open>\<open>f"{page}:{line}"\<close>.\<close>

definition bekker_ref :: "ustr \<Rightarrow> ustr \<Rightarrow> ustr" where
  "bekker_ref page line = page @ [0x3A] @ line"

text \<open>The Bekker loop of lines 22-29: the current page and the references met.\<close>

definition bekker_step :: "align_error + ustr option \<times> ustr list \<Rightarrow> xml \<Rightarrow> align_error + ustr option \<times> ustr list" where
  "bekker_step st e =
     (case st of
        Inl err \<Rightarrow> Inl err
      | Inr (pg, refs) \<Rightarrow>
          if is_bekker e then
            (if attr_get e ''unit'' = Some (asc ''page'') then Inr (Some (attr_or e ''n'' []), refs)
             else if attr_get e ''unit'' = Some (asc ''line'') \<and> attr_or e ''n'' [] \<noteq> [] then
               (case pg of None \<Rightarrow> Inl UnboundCurrentPage
                         | Some p \<Rightarrow> Inr (pg, refs @ [bekker_ref p (attr_or e ''n'' [])]))
             else Inr (pg, refs))
          else Inr (pg, refs))"

text \<open>\<open>max(1, len(text) // 100)\<close>: the estimated number of lines of an element.\<close>

definition est_lines :: "ucd \<Rightarrow> xml \<Rightarrow> int" where
  "est_lines u e = max 1 (int (length (py_strip u (xml_itertext e))) div 100)"

definition is_textpart :: "ustr \<Rightarrow> xml \<Rightarrow> bool" where
  "is_textpart st e = (attr_get e ''type'' = Some (asc ''textpart'') \<and> attr_get e ''subtype'' = Some st)"

text \<open>\<open>findall('.//div[@type="textpart"][@subtype=st]')\<close>: descendants whose tag is exactly \<open>div\<close>.\<close>

definition find_textparts :: "ustr \<Rightarrow> xml \<Rightarrow> xml list" where
  "find_textparts st e = filter (is_textpart st) (find_all_tag ''div'' e)"

text \<open>The chapter loop of lines 43-68, from line \<open>cur\<close>.\<close>

definition chapter_step ::
  "ucd \<Rightarrow> int \<times> (ustr \<times> int \<times> int) list \<Rightarrow> xml \<Rightarrow> int \<times> (ustr \<times> int \<times> int) list" where
  "chapter_step u st ch =
     (let cn = attr_or ch ''n'' []; subs = find_textparts (asc ''subchapter'') ch
      in if subs \<noteq> [] then
           foldl (\<lambda>(cur, m) s. (cur + est_lines u s,
                     dict_set (cn @ [0x2E] @ attr_or s ''n'' []) (cur, cur + est_lines u s - 1) m)) st subs
         else (fst st + est_lines u ch, dict_set cn (fst st, fst st + est_lines u ch - 1) (snd st)))"

definition section_struct :: "ucd \<Rightarrow> xml \<Rightarrow> (ustr \<times> int \<times> int) list" where
  "section_struct u r =
     snd (foldl (\<lambda>(cur, m) (n, lc). (cur + lc, dict_set n (cur, cur + lc - 1) m)) (1, [])
            (map (\<lambda>e. (attr_or e ''n'' [], est_lines u e))
               (filter (\<lambda>e. tag_ends e ''div'' \<and> is_textpart (asc ''section'') e \<and> attr_or e ''n'' [] \<noteq> [])
                  (xml_iter r))))"

text \<open>
  \<open>extract_structure_from_greek_text\<close> (lines 12-92): the Bekker references spread
  over 613 lines, else the chapters, else the sections.
\<close>

definition extract_structure :: "ucd \<Rightarrow> xml \<Rightarrow> align_error + (ustr \<times> int \<times> int) list" where
  "extract_structure u r =
     (case foldl bekker_step (Inr (None, [])) (xml_iter r) of
        Inl err \<Rightarrow> Inl err
      | Inr (_, refs) \<Rightarrow>
          if refs \<noteq> [] then
            (let k = max 1 (613 div int (length refs))
             in Inr (foldl (\<lambda>m (i, ref). dict_set ref (int i * k + 1, (int i + 1) * k) m) []
                       (zip [0..<length refs] refs)))
          else
            (let cm = snd (foldl (chapter_step u) (1, []) (find_textparts (asc ''chapter'') r))
             in if cm \<noteq> [] then Inr cm else Inr (section_struct u r)))"

section \<open>Cutting the translation\<close>

text \<open>
  The Bekker pass over the translation (lines 105-131): the state is the current page,
  the current reference, the paragraph texts since it and the segments saved. A
  segment is saved at every Bekker milestone, of a page as well as of a line.
\<close>

type_synonym bekker_state = "ustr option \<times> ustr option \<times> ustr list \<times> (ustr \<times> ustr) list"

definition save_bekker :: "ustr option \<Rightarrow> ustr list \<Rightarrow> (ustr \<times> ustr) list \<Rightarrow> (ustr \<times> ustr) list" where
  "save_bekker cb ts segs =
     (case cb of Some b \<Rightarrow> if ts \<noteq> [] then segs @ [(b, py_join [0x20] ts)] else segs | None \<Rightarrow> segs)"

definition tr_bekker_step :: "ucd \<Rightarrow> align_error + bekker_state \<Rightarrow> xml \<Rightarrow> align_error + bekker_state" where
  "tr_bekker_step u st e =
     (case st of
        Inl err \<Rightarrow> Inl err
      | Inr (pg, cb, ts, segs) \<Rightarrow>
          if is_bekker e then
            (let segs' = save_bekker cb ts segs
             in if attr_get e ''unit'' = Some (asc ''page'') then Inr (Some (attr_or e ''n'' []), cb, ts, segs')
                else if attr_get e ''unit'' = Some (asc ''line'') then
                  (case pg of None \<Rightarrow> Inl UnboundCurrentPage
                            | Some p \<Rightarrow> Inr (pg, Some (bekker_ref p (attr_or e ''n'' [])), [], segs'))
                else Inr (pg, cb, ts, segs'))
          else if tag_ends e ''p'' \<and> cb \<noteq> None then
            (let t = py_strip u (xml_itertext e) in Inr (pg, cb, if t \<noteq> [] then ts @ [t] else ts, segs))
          else Inr (pg, cb, ts, segs))"

definition bekker_segments :: "ucd \<Rightarrow> xml \<Rightarrow> align_error + (ustr \<times> ustr) list" where
  "bekker_segments u t =
     (case foldl (tr_bekker_step u) (Inr (None, None, [], [])) (xml_iter t) of
        Inl err \<Rightarrow> Inl err
      | Inr (_, cb, ts, segs) \<Rightarrow> Inr (save_bekker cb ts segs))"

text \<open>A Bekker segment (lines 133-141): the structure's range for its reference, when the
  reference is known; the text is not tested there.\<close>

definition bekker_seg :: "(ustr \<times> int \<times> int) list \<Rightarrow> ustr \<Rightarrow> ustr \<Rightarrow> segment list" where
  "bekker_seg gs r t = (case map_of gs r of Some (a, b) \<Rightarrow> [plain_seg a b t] | None \<Rightarrow> [])"

text \<open>A chapter, subchapter or section segment (lines 157-164, 168-175, 190-197): the
  structure's range for reference \<open>r\<close>, when the reference is known and the text non-empty.\<close>

definition struct_seg :: "(ustr \<times> int \<times> int) list \<Rightarrow> ustr \<Rightarrow> ustr \<Rightarrow> segment list" where
  "struct_seg gs r t =
     (case map_of gs r of Some (a, b) \<Rightarrow> if t \<noteq> [] then [plain_seg a b t] else [] | None \<Rightarrow> [])"

definition chapter_segments :: "ucd \<Rightarrow> (ustr \<times> int \<times> int) list \<Rightarrow> xml \<Rightarrow> segment list" where
  "chapter_segments u gs t =
     concat (map (\<lambda>ch. let cn = attr_or ch ''n'' []; subs = find_textparts (asc ''subchapter'') ch
                       in if subs \<noteq> [] then
                            concat (map (\<lambda>s. struct_seg gs (cn @ [0x2E] @ attr_or s ''n'' [])
                                               (py_strip u (xml_itertext s))) subs)
                          else struct_seg gs cn (py_strip u (xml_itertext ch)))
               (find_textparts (asc ''chapter'') t))"

definition section_segments_impr :: "ucd \<Rightarrow> (ustr \<times> int \<times> int) list \<Rightarrow> xml \<Rightarrow> segment list" where
  "section_segments_impr u gs t =
     concat (map (\<lambda>e. struct_seg gs (attr_or e ''n'' []) (py_strip u (xml_itertext e)))
               (filter (\<lambda>e. tag_ends e ''div'' \<and> is_textpart (asc ''section'') e) (xml_iter t)))"

text \<open>The fallback of lines 197-228: paragraphs spread evenly over the structure's lines.\<close>

definition spread_paragraphs :: "ucd \<Rightarrow> (ustr \<times> int \<times> int) list \<Rightarrow> xml \<Rightarrow> segment list" where
  "spread_paragraphs u gs t =
     (let ps = filter (\<lambda>x. x \<noteq> [] \<and> 20 < length x)
                 (map (\<lambda>p. py_strip u (xml_itertext p)) (filter (\<lambda>p. tag_ends p ''p'') (xml_iter t)));
          ls = concat (map (\<lambda>(a, b). [a..b]) (map snd gs))
      in if ps = [] \<or> gs = [] \<or> ls = [] then []
         else (let lo = Min (set ls); hi = Max (set ls); k = max 1 ((hi - lo + 1) div int (length ps))
               in map (\<lambda>(i, x). plain_seg (lo + int i * k) (min hi (lo + int i * k + k - 1)) x)
                    (zip [0..<length ps] ps)))"

text \<open>\<open>extract_translation_segments_improved\<close> (lines 94-230).\<close>

definition extract_segments_improved :: "ucd \<Rightarrow> xml \<Rightarrow> (ustr \<times> int \<times> int) list \<Rightarrow> align_error + segment list" where
  "extract_segments_improved u t gs =
     (case bekker_segments u t of
        Inl err \<Rightarrow> Inl err
      | Inr bs \<Rightarrow>
          if bs \<noteq> [] then Inr (concat (map (\<lambda>(r, x). bekker_seg gs r x) bs))
          else if chapter_segments u gs t \<noteq> [] then Inr (chapter_segments u gs t)
          else if section_segments_impr u gs t \<noteq> [] then Inr (section_segments_impr u gs t)
          else Inr (spread_paragraphs u gs t))"

section \<open>Renumbering and insertion\<close>

text \<open>
  \<open>get_improved_section_mapping\<close> (lines 232-280): segment numbers below a third of the
  last line are renumbered over the book's lines when the largest is below half of
  it and at most 1.5 times the segment count; the running line is a float.
\<close>

definition improved_mapping :: "corpus_db \<Rightarrow> ustr \<Rightarrow> segment list \<Rightarrow> (int \<times> int \<times> int) list" where
  "improved_mapping db bid segs =
     (let lc = book_line_count db bid
      in case book_max_line db bid of
           None \<Rightarrow> []
         | Some ml \<Rightarrow>
             (let nums = filter (\<lambda>n. flt_int n (fdiv_int ml 3)) (map sg_start segs)
              in if lc = 0 \<or> segs = [] \<or> nums = [] then []
                 else if flt_int (Max (set nums)) (fdiv_int ml 2) \<and>
                         fle_int (Max (set nums)) (fmul_int (int (length segs)) (3, -1))
                 then (let lps = fdiv_int lc (int (length segs))
                       in snd (foldl (\<lambda>(cur, m) s.
                                (fadd cur lps,
                                 dict_set (sg_start s)
                                   (ftrunc cur, min ml (ftrunc (fadd (fadd cur lps) (-1, 0)))) m))
                              (float_of_int 1, []) (sort_key sg_start segs)))
                 else []))"

text \<open>
  \<open>process_translation_improved\<close> (lines 283-332): nothing is inserted when no segment
  was found; otherwise every segment, renumbered when its start is mapped, and the
  count is returned.
\<close>

definition process_translation_improved ::
  "ucd \<Rightarrow> xml \<Rightarrow> xml \<Rightarrow> ustr \<Rightarrow> corpus_db \<Rightarrow> ustr \<Rightarrow> trans_row list \<Rightarrow> align_error + trans_row list \<times> nat" where
  "process_translation_improved u g t bid db tr ts =
     (case extract_structure u g of
        Inl err \<Rightarrow> Inl err
      | Inr gs \<Rightarrow>
          (case extract_segments_improved u t gs of
             Inl err \<Rightarrow> Inl err
           | Inr segs \<Rightarrow>
               if segs = [] then Inr (ts, 0)
               else (let smap = improved_mapping db bid segs
                     in Inr (ts @ map (\<lambda>s. \<lparr>tr_book_id = bid,
                                              tr_start = (case map_of smap (sg_start s) of Some (a, _) \<Rightarrow> a | None \<Rightarrow> sg_start s),
                                              tr_end = (case map_of smap (sg_start s) of Some (_, b) \<Rightarrow> b | None \<Rightarrow> sg_end s),
                                              tr_text = sg_text s, tr_translator = tr, tr_speaker = None\<rparr>) segs,
                             length segs))))"

section \<open>Specification and examples\<close>

definition row_ok :: "ustr \<Rightarrow> ustr \<Rightarrow> trans_row \<Rightarrow> bool" where
  "row_ok bid tr r = (tr_book_id r = bid \<and> tr_translator r = tr \<and> tr_text r \<noteq> [])"

definition bekker_ms :: "string \<Rightarrow> ustr \<Rightarrow> xml" where
  "bekker_ms unit n = Element ''milestone'' [(''resp'', asc ''Bekker''), (''unit'', asc unit), (''n'', n)] [] [] []"

definition no_page_tree :: xml where
  "no_page_tree = Element ''text'' [] [] [bekker_ms ''line'' (asc ''8'')] []"

definition page_break_tree :: xml where
  "page_break_tree =
     Element ''body'' [] []
       [bekker_ms ''page'' (asc ''1447a''), bekker_ms ''line'' (asc ''8''),
        Element ''p'' [] (asc ''Alpha'') [] [],
        bekker_ms ''page'' (asc ''1447b''),
        Element ''p'' [] (asc ''Beta'') [] [],
        bekker_ms ''line'' (asc ''1'')] []"

definition section_tree :: "ustr \<Rightarrow> xml" where
  "section_tree x =
     Element ''body'' [] []
       [Element ''div'' [(''type'', asc ''textpart''), (''subtype'', asc ''section''), (''n'', asc ''1'')] x [] []] []"

definition ten_lines :: corpus_db where
  "ten_lines =
     \<lparr>books = Map.empty,
      text_lines = map (\<lambda>i. \<lparr>line_book_id = asc ''b'', line_number = int i, line_text = [], line_xml = [],
                              line_speaker = None\<rparr>) [1..<11],
      words = []\<rparr>"

section \<open>Properties of the alignment\<close>

lemma set_dict_set: "set (dict_set k v d) \<subseteq> insert (k, v) (set d)"
  by (induction d) (auto split: if_splits)

lemma map_of_dict_set: "map_of (dict_set k v d) = (map_of d)(k \<mapsto> v)"
  by (induction d) (auto simp: fun_eq_iff)

lemma bekker_step_Inl [simp]: "foldl bekker_step (Inl err) es = Inl err"
  by (induction es) (simp_all add: bekker_step_def)

lemma bekker_step_skip:
  "\<not> list_ex is_bekker pre \<Longrightarrow> foldl bekker_step (Inr (None, [])) pre = Inr (None, [])"
proof (induction pre rule: rev_induct)
  case (snoc x xs)
  then show ?case by (simp add: bekker_step_def)
qed simp

text \<open>
  C30: a Greek text whose first Bekker milestone is a line marker,
  before any page marker, makes \<open>extract_structure_from_greek_text\<close> raise: the
  f-string of line 27 reads \<open>current_page\<close> before it is bound.
\<close>

theorem bekker_unbound_page:
  assumes "xml_iter r = pre @ e # post" "\<not> list_ex is_bekker pre" "is_bekker e"
    and "attr_get e ''unit'' = Some (asc ''line'')" "attr_or e ''n'' [] \<noteq> []"
  shows "extract_structure u r = Inl UnboundCurrentPage"
proof -
  have "attr_get e ''unit'' \<noteq> Some (asc ''page'')" using assms(4) by (simp add: asc_def)
  then have "bekker_step (Inr (None, [])) e = Inl UnboundCurrentPage"
    using assms(3-5) by (simp add: bekker_step_def)
  then show ?thesis using assms(1,2) by (simp add: extract_structure_def bekker_step_skip)
qed

lemma struct_seg_ok: "list_all seg_ok (struct_seg gs r t)"
  by (auto simp: struct_seg_def seg_ok_def plain_seg_def split: option.split)

lemma py_join_nonempty: "xs \<noteq> [] \<Longrightarrow> [] \<notin> set xs \<Longrightarrow> py_join sep xs \<noteq> []"
  by (induction sep xs rule: py_join.induct) auto

definition bekker_texts_ok :: "align_error + bekker_state \<Rightarrow> bool" where
  "bekker_texts_ok st = (case st of Inl _ \<Rightarrow> True
     | Inr (pg, cb, ts, segs) \<Rightarrow> [] \<notin> set ts \<and> (\<forall>r. (r, []) \<notin> set segs))"

lemma save_bekker_texts:
  "[] \<notin> set ts \<Longrightarrow> \<forall>r. (r, []) \<notin> set segs \<Longrightarrow> (r, []) \<notin> set (save_bekker cb ts segs)"
  using py_join_nonempty [where xs = ts and sep = "[0x20]"]
  by (auto simp: save_bekker_def split: option.splits)

lemma tr_bekker_step_texts: "bekker_texts_ok st \<Longrightarrow> bekker_texts_ok (tr_bekker_step u st e)"
  by (auto simp: bekker_texts_ok_def tr_bekker_step_def Let_def save_bekker_texts
      split: sum.splits option.splits if_splits)

lemma bekker_segments_texts: "bekker_segments u t = Inr bs \<Longrightarrow> (r, []) \<notin> set bs"
proof -
  have "bekker_texts_ok (foldl (tr_bekker_step u) st es)" if "bekker_texts_ok st" for st es
    using that by (induction es arbitrary: st) (simp_all add: tr_bekker_step_texts)
  from this [of "Inr (None, None, [], [])" "xml_iter t"]
  show "bekker_segments u t = Inr bs \<Longrightarrow> (r, []) \<notin> set bs"
    by (auto simp: bekker_segments_def bekker_texts_ok_def save_bekker_texts split: sum.splits)
qed

lemma extract_segments_improved_ok:
  "extract_segments_improved u t gs = Inr segs \<Longrightarrow> list_all seg_ok segs"
proof -
  have c: "list_all seg_ok (chapter_segments u gs t)"
    by (auto simp: chapter_segments_def Let_def list_all_iff struct_seg_ok [unfolded list_all_iff])
  have s: "list_all seg_ok (section_segments_impr u gs t)"
    by (auto simp: section_segments_impr_def list_all_iff struct_seg_ok [unfolded list_all_iff])
  have p: "list_all seg_ok (spread_paragraphs u gs t)"
    by (auto simp: spread_paragraphs_def Let_def list_all_iff seg_ok_def plain_seg_def dest!: set_zip_rightD)
  have b: "list_all seg_ok (concat (map (\<lambda>(r, x). bekker_seg gs r x) bs))"
    if "bekker_segments u t = Inr bs" for bs
    using bekker_segments_texts [OF that]
    by (fastforce simp: list_all_iff bekker_seg_def seg_ok_def plain_seg_def split: option.splits)
  show "extract_segments_improved u t gs = Inr segs \<Longrightarrow> list_all seg_ok segs"
    using c s p b by (auto simp: extract_segments_improved_def split: sum.splits if_splits)
qed

text \<open>
  C29: \<open>process_translation_improved\<close>, when it returns, appends exactly as
  many rows as it reports, each on the given book and translator with a non-empty text.
\<close>

theorem improved_rows_wf:
  assumes "process_translation_improved u g t bid db tr ts = Inr (ts', n)"
  shows "\<exists>rows. ts' = ts @ rows \<and> length rows = n \<and> list_all (row_ok bid tr) rows"
proof -
  obtain gs segs where e: "extract_structure u g = Inr gs" "extract_segments_improved u t gs = Inr segs"
    using assms by (auto simp: process_translation_improved_def split: sum.splits)
  have ok: "list_all seg_ok segs" using extract_segments_improved_ok [OF e(2)] .
  show ?thesis
  proof (cases "segs = []")
    case True
    then show ?thesis using assms e by (simp add: process_translation_improved_def)
  next
    case False
    then show ?thesis using assms e ok
      by (auto simp: process_translation_improved_def Let_def list_all_iff row_ok_def seg_ok_def)
  qed
qed

text \<open>
  The renumbering of \<open>get_improved_section_mapping\<close> never maps a segment past the
  book's last line.
\<close>

theorem improved_mapping_bound:
  assumes "book_max_line db bid = Some ml" "(k, a, b) \<in> set (improved_mapping db bid segs)"
  shows "b \<le> ml"
proof -
  have "\<forall>(k, a, b) \<in> set (snd st). b \<le> ml \<Longrightarrow>
        \<forall>(k, a, b) \<in> set (snd (foldl (\<lambda>(cur, m) s. (fadd cur lps,
            dict_set (sg_start s) (ftrunc cur, min ml (ftrunc (fadd (fadd cur lps) (-1, 0)))) m)) st xs)). b \<le> ml"
    for st :: "pyfloat \<times> (int \<times> int \<times> int) list" and lps xs
  proof (induction xs arbitrary: st)
    case (Cons x xs)
    obtain cur m where st: "st = (cur, m)" by fastforce
    have "\<forall>(k, a, b) \<in> set (dict_set (sg_start x) (ftrunc cur, min ml (ftrunc (fadd (fadd cur lps) (-1, 0)))) m). b \<le> ml"
      using Cons.prems set_dict_set [of "sg_start x" _ m] st by fastforce
    with Cons.IH [of "(fadd cur lps, dict_set (sg_start x) (ftrunc cur, min ml (ftrunc (fadd (fadd cur lps) (-1, 0)))) m)"]
    show ?case by (simp add: st)
  qed simp
  from this [of "(float_of_int 1, [])" "fdiv_int (book_line_count db bid) (int (length segs))" "sort_key sg_start segs"]
  have "\<forall>(k, a, b) \<in> set (snd (foldl (\<lambda>(cur, m) s. (fadd cur (fdiv_int (book_line_count db bid) (int (length segs))),
            dict_set (sg_start s) (ftrunc cur, min ml (ftrunc (fadd (fadd cur (fdiv_int (book_line_count db bid) (int (length segs))))
              (-1, 0)))) m)) (float_of_int 1, []) (sort_key sg_start segs))). b \<le> ml"
    by simp
  then show ?thesis
    using assms unfolding improved_mapping_def Let_def
    by (auto split: if_splits simp del: fadd_def)
qed

lemma bekker_unbound_page_witness:
  "extract_structure greek_ucd no_page_tree = Inl UnboundCurrentPage"
  by (rule bekker_unbound_page [where pre = "[no_page_tree]" and e = "bekker_ms ''line'' (asc ''8'')" and post = "[]"])
     (simp_all add: no_page_tree_def bekker_ms_def is_bekker_def tei_eval)

lemma section_tree_structure:
  "extract_structure greek_ucd (section_tree (asc ''Menin aeide thea'')) = Inr [(asc ''1'', 1, 1)]"
  by (simp add: extract_structure_def section_tree_def bekker_step_def is_bekker_def find_textparts_def
      find_all_tag_def descendants_def section_struct_def is_textpart_def est_lines_def tei_eval)

lemma improved_rows_wf_witness:
  "\<exists>rows. [\<lparr>tr_book_id = asc ''b'', tr_start = 1, tr_end = 1, tr_text = asc ''Sing, goddess'',
            tr_translator = asc ''Butler'', tr_speaker = None\<rparr>] = [] @ rows \<and> length rows = 1 \<and>
          list_all (row_ok (asc ''b'') (asc ''Butler'')) rows"
proof (rule improved_rows_wf)
  have sg: "extract_segments_improved greek_ucd (section_tree (asc ''Sing, goddess'')) [(asc ''1'', 1, 1)] =
            Inr [plain_seg 1 1 (asc ''Sing, goddess'')]"
    by (simp add: extract_segments_improved_def bekker_segments_def tr_bekker_step_def is_bekker_def
        chapter_segments_def find_textparts_def find_all_tag_def descendants_def section_segments_impr_def
        is_textpart_def struct_seg_def section_tree_def tei_eval save_bekker_def)
  have mp: "improved_mapping empty_corpus (asc ''b'') [plain_seg 1 1 (asc ''Sing, goddess'')] = []"
    by (simp add: improved_mapping_def book_line_count_def book_max_line_def empty_corpus_def)
  show "process_translation_improved greek_ucd (section_tree (asc ''Menin aeide thea'')) (section_tree (asc ''Sing, goddess''))
          (asc ''b'') empty_corpus (asc ''Butler'') [] =
        Inr ([\<lparr>tr_book_id = asc ''b'', tr_start = 1, tr_end = 1, tr_text = asc ''Sing, goddess'',
            tr_translator = asc ''Butler'', tr_speaker = None\<rparr>], 1)"
    by (simp only: process_translation_improved_def section_tree_structure sum.case sg) (simp add: mp [unfolded plain_seg_def] plain_seg_def)
qed

lemma ten_lines_counts: "book_line_count ten_lines (asc ''b'') = 10" "book_max_line ten_lines (asc ''b'') = Some 10"
  by (simp_all add: book_line_count_def book_max_line_def ten_lines_def upt_rec)

lemma lps_ten: "fdiv_int 10 1 = (5629499534213120, -49)"
  by (simp add: float_eval Let_def)

lemma fadd_one_ten: "fadd (float_of_int 1) (5629499534213120, -49) = (6192449487634432, -49)"
  by (simp add: float_eval fadd_def Let_def)

lemma ftrunc_ten: "ftrunc (fadd (6192449487634432, -49) (-1, 0)) = 10"
  by (simp add: float_eval fadd_def Let_def)

lemma ten_lines_mapping:
  "improved_mapping ten_lines (asc ''b'') [plain_seg 1 1 (asc ''Sing, goddess'')] = [(1, 1, 10)]"
proof -
  have c: "flt_int 1 (fdiv_int 10 3)" "flt_int 1 (fdiv_int 10 2)" "fle_int 1 (fmul_int 1 (3, -1))"
    by (simp_all add: float_eval fle_int_def Let_def)
  have t1: "ftrunc (float_of_int 1) = 1" by (simp add: float_eval)
  show ?thesis
    by (simp add: improved_mapping_def ten_lines_counts plain_seg_def c Let_def lps_ten fadd_one_ten ftrunc_ten t1)
qed

lemma improved_mapping_bound_witness: "(10::int) \<le> 10"
  by (rule improved_mapping_bound [where db = ten_lines and bid = "asc ''b''" and k = 1 and a = 1
        and segs = "[plain_seg 1 1 (asc ''Sing, goddess'')]"])
     (simp_all add: ten_lines_counts ten_lines_mapping)

lemma bekker_page_duplicates:
  "bekker_segments greek_ucd page_break_tree =
     Inr [(asc ''1447a:8'', asc ''Alpha''), (asc ''1447a:8'', asc ''Alpha Beta'')]"
  by (simp add: bekker_segments_def page_break_tree_def tr_bekker_step_def bekker_ms_def is_bekker_def
      save_bekker_def bekker_ref_def tei_eval)

end
