(* ===== verification/Fix_Alignment.thy ===== *)
theory Fix_Alignment
  imports Catalogue "HOL-Library.Product_Lexorder"
begin

text \<open>
  \<open>src/data-prep/fix_translation_alignment_general.py\<close>: every book with translations
  is classified by the coverage of its translation segments, and books of the
  section-as-line and reference-system kinds are renumbered. The table
  \<open>translation_segments\<close> is the catalogue's list of rows, a row's \<open>id\<close> being its
  position from 1 (\<open>INTEGER PRIMARY KEY AUTOINCREMENT\<close> on an append-only table).
  Floats are those of \<open>Py_Float\<close>; the literal \<open>0.8\<close> is the binary64 number
  \<open>3602879701896397 * 2 ^ -52\<close>. The backup copy, the prompt and the reports are I/O.
\<close>

datatype fix_error = NoneComparison

datatype alignment_type = Correct | SectionAsLine | PartialTranslation | ReferenceSystem | UnknownAlignment

record analysis =
  an_total_lines :: int
  an_max_line :: int
  an_segment_count :: int
  an_max_trans :: int
  an_coverage :: pyfloat
  an_type :: alignment_type

definition rows_of :: "trans_row list \<Rightarrow> (nat \<times> trans_row) list" where
  "rows_of ts = zip (map Suc [0..<length ts]) ts"

definition book_rows :: "catalogue_db \<Rightarrow> ustr \<Rightarrow> (nat \<times> trans_row) list" where
  "book_rows db b = filter (\<lambda>(i, r). tr_book_id r = b) (rows_of (trans_segments db))"

definition float_08 :: pyfloat where
  "float_08 = (3602879701896397, -52)"

section \<open>Classification\<close>

text \<open>The four patterns of lines 56-108, for a book whose last line is \<open>ml\<close>.\<close>

definition classify :: "int \<Rightarrow> int \<Rightarrow> int \<Rightarrow> pyfloat \<Rightarrow> trans_row list \<Rightarrow> alignment_type" where
  "classify ml sc mt cov trs =
     (if flt_int 80 cov then Correct
      else if flt cov (float_of_int 50) \<and> mt = sc \<and> mt * 2 < ml then SectionAsLine
      else if \<not> flt cov (float_of_int 50) \<and> \<not> flt_int 80 cov then
        (if flt (fmul_int sc float_08) (float_of_int (int (length (filter (\<lambda>r. tr_end r = tr_start r) trs))))
         then PartialTranslation else Correct)
      else
        (let smp = take 5 (map tr_start trs)
         in if list_ex (\<lambda>s. s < 0) smp \<or> list_ex (\<lambda>s. ml * 10 < s) smp then ReferenceSystem
            else if flt cov (float_of_int 30) then SectionAsLine
            else UnknownAlignment))"

text \<open>
  \<open>analyze_book_alignment\<close> (lines 22-118): \<open>None\<close> for a book without segments; a book
  without text lines has \<open>max_line = None\<close>, and \<open>max_line > 0\<close> raises \<open>TypeError\<close>.
\<close>

definition analyze_book_alignment :: "catalogue_db \<Rightarrow> ustr \<Rightarrow> fix_error + analysis option" where
  "analyze_book_alignment db b =
     (let trs = map snd (book_rows db b); sc = int (length trs)
      in if sc = 0 then Inr None
         else case book_max_line (corpus db) b of
                None \<Rightarrow> Inl NoneComparison
              | Some ml \<Rightarrow>
                  (let mt = Max (set (map tr_end trs));
                       cov = (if 0 < ml then fmul_int 100 (fdiv_int mt ml) else float_of_int 0)
                   in Inr (Some \<lparr>an_total_lines = book_line_count (corpus db) b, an_max_line = ml,
                                 an_segment_count = sc, an_max_trans = mt, an_coverage = cov,
                                 an_type = classify ml sc mt cov trs\<rparr>)))"

section \<open>The two fixes\<close>

text \<open>\<open>fix_section_as_line_alignment\<close> (lines 120-165): sections spread proportionally over the lines.\<close>

definition fix_section_as_line :: "catalogue_db \<Rightarrow> ustr \<Rightarrow> analysis \<Rightarrow> (int \<times> int \<times> nat) list" where
  "fix_section_as_line db b an =
     (if flt_int 50 (an_coverage an) then []
      else if an_max_trans an = 0 \<or> an_max_line an = 0 then []
      else (let lps = fdiv_int (an_max_line an) (an_max_trans an)
            in if flt lps (float_of_int 2) then []
               else map (\<lambda>(i, r). (ftrunc (fmul_int (tr_start r - 1) lps) + 1,
                                   min (an_max_line an) (ftrunc (fmul_int (tr_end r) lps)), i))
                      (sort_key (\<lambda>(i, r). tr_start r) (book_rows db b))))"

text \<open>\<open>fix_reference_system_alignment\<close> (lines 167-200): segments spread evenly, in id order.\<close>

definition fix_reference_system :: "catalogue_db \<Rightarrow> ustr \<Rightarrow> analysis \<Rightarrow> (int \<times> int \<times> nat) list" where
  "fix_reference_system db b an =
     (if an_segment_count an = 0 \<or> an_max_line an = 0 then []
      else (let lps = fdiv_int (an_max_line an) (an_segment_count an)
            in map (\<lambda>(k, (i, r)). (ftrunc (fmul_int (int k) lps) + 1,
                                   min (an_max_line an) (ftrunc (fmul_int (int k + 1) lps)), i))
                 (zip [0..<length (book_rows db b)] (book_rows db b))))"

section \<open>The driver\<close>

text \<open>
  The books of lines 209-221: those with a translation segment whose book, work and
  author rows exist, ordered by author name and work title (ties in the order of
  their first segment).
\<close>

definition book_order_key :: "catalogue_db \<Rightarrow> ustr \<Rightarrow> ustr \<times> ustr" where
  "book_order_key db b =
     (case books (corpus db) b of
        None \<Rightarrow> ([], [])
      | Some br \<Rightarrow> (case works db (book_work_id br) of
                     None \<Rightarrow> ([], [])
                   | Some w \<Rightarrow> (case authors db (work_author_id w) of
                                  None \<Rightarrow> ([], work_title w)
                                | Some a \<Rightarrow> (author_name a, work_title w))))"

definition book_joined :: "catalogue_db \<Rightarrow> ustr \<Rightarrow> bool" where
  "book_joined db b =
     (case books (corpus db) b of
        None \<Rightarrow> False
      | Some br \<Rightarrow> (case works db (book_work_id br) of
                     None \<Rightarrow> False
                   | Some w \<Rightarrow> authors db (work_author_id w) \<noteq> None))"

definition translated_books :: "catalogue_db \<Rightarrow> ustr list" where
  "translated_books db =
     sort_key (book_order_key db) (filter (book_joined db) (remdups (map tr_book_id (trans_segments db))))"

text \<open>The loop of lines 227-239: the books that are not correctly aligned, with their analysis.\<close>

definition analyze_step :: "catalogue_db \<Rightarrow> fix_error + (ustr \<times> analysis) list \<Rightarrow> ustr \<Rightarrow> fix_error + (ustr \<times> analysis) list" where
  "analyze_step db acc b =
     (case acc of
        Inl e \<Rightarrow> Inl e
      | Inr fs \<Rightarrow> (case analyze_book_alignment db b of
                    Inl e \<Rightarrow> Inl e
                  | Inr None \<Rightarrow> Inr fs
                  | Inr (Some an) \<Rightarrow> Inr (if an_type an \<noteq> Correct then fs @ [(b, an)] else fs)))"

text \<open>\<open>UPDATE translation_segments SET start_line = ?, end_line = ? WHERE id = ?\<close>, in order.\<close>

definition apply_updates :: "(int \<times> int \<times> nat) list \<Rightarrow> trans_row list \<Rightarrow> trans_row list" where
  "apply_updates ups ts =
     map (\<lambda>(i, r). case map_of (rev (map (\<lambda>(s, e, j). (j, (s, e))) ups)) i of
                    Some (s, e) \<Rightarrow> r\<lparr>tr_start := s, tr_end := e\<rparr>
                  | None \<Rightarrow> r) (rows_of ts)"

text \<open>
  \<open>apply_fixes(apply)\<close> (lines 202-331): the updates are computed inside the loops that
  print the first three books of each fixable kind, so only those books are fixed.
\<close>

definition apply_fixes :: "catalogue_db \<Rightarrow> bool \<Rightarrow> fix_error + trans_row list" where
  "apply_fixes db ap =
     (case foldl (analyze_step db) (Inr []) (translated_books db) of
        Inl e \<Rightarrow> Inl e
      | Inr fs \<Rightarrow>
          (let sal = filter (\<lambda>(b, an). an_type an = SectionAsLine) fs;
               rs = filter (\<lambda>(b, an). an_type an = ReferenceSystem) fs;
               ups = (if ap then concat (map (\<lambda>(b, an). fix_section_as_line db b an) (take 3 sal)) @
                                 concat (map (\<lambda>(b, an). fix_reference_system db b an) (take 3 rs))
                      else [])
           in if sal = [] \<and> rs = [] then Inr (trans_segments db)
              else if ap \<and> ups \<noteq> [] then Inr (apply_updates ups (trans_segments db))
              else Inr (trans_segments db)))"

section \<open>Specification\<close>

definition row_key :: "trans_row \<Rightarrow> ustr \<times> ustr \<times> ustr \<times> ustr option" where
  "row_key r = (tr_book_id r, tr_text r, tr_translator r, tr_speaker r)"

definition changed_books :: "trans_row list \<Rightarrow> trans_row list \<Rightarrow> ustr list" where
  "changed_books ts ts' = remdups (map (\<lambda>(r, r'). tr_book_id r) (filter (\<lambda>(r, r'). r \<noteq> r') (zip ts ts')))"

section \<open>Properties of the fix\<close>

lemma map_snd_rows_of [simp]: "map snd (rows_of ts) = ts"
  by (simp add: rows_of_def)

lemma rows_of_nth: "(i, r) \<in> set (rows_of ts) \<Longrightarrow> 0 < i \<and> i \<le> length ts \<and> r = ts ! (i - 1)"
  by (auto simp: rows_of_def set_zip)

lemma apply_updates_key: "map row_key (apply_updates ups ts) = map row_key ts"
proof -
  have "map row_key (apply_updates ups ts) = map (\<lambda>(i, r). row_key r) (rows_of ts)"
    by (auto simp: apply_updates_def row_key_def split: option.split)
  also have "\<dots> = map row_key (map snd (rows_of ts))" by (simp only: map_map comp_def case_prod_beta')
  finally show ?thesis by (simp only: map_snd_rows_of)
qed

lemma length_apply_updates [simp]: "length (apply_updates ups ts) = length ts"
  by (simp add: apply_updates_def rows_of_def)

lemma apply_fixes_cases:
  "apply_fixes db ap = Inr ts' \<Longrightarrow>
   ts' = trans_segments db \<or>
   (\<exists>fs. foldl (analyze_step db) (Inr []) (translated_books db) = Inr fs \<and> ap \<and>
      ts' = apply_updates
              (concat (map (\<lambda>(b, an). fix_section_as_line db b an) (take 3 (filter (\<lambda>(b, an). an_type an = SectionAsLine) fs))) @
               concat (map (\<lambda>(b, an). fix_reference_system db b an) (take 3 (filter (\<lambda>(b, an). an_type an = ReferenceSystem) fs))))
              (trans_segments db))"
  by (auto simp: apply_fixes_def Let_def split: sum.splits if_splits)

text \<open>
  Without \<open>--apply\<close>, \<open>apply_fixes\<close> leaves the table unchanged
  whenever it completes.
\<close>

lemma apply_fixes_dry_run:
  "(case apply_fixes db False of Inl e \<Rightarrow> True | Inr ts' \<Rightarrow> ts' = trans_segments db)"
  by (simp add: apply_fixes_def Let_def split: sum.split)

lemma rows_of_unique: "(i, r) \<in> set (rows_of ts) \<Longrightarrow> (i, r') \<in> set (rows_of ts) \<Longrightarrow> r = r'"
  using rows_of_nth by blast

lemma fix_section_ids:
  "(s, e, i) \<in> set (fix_section_as_line db b an) \<Longrightarrow> \<exists>r. (i, r) \<in> set (book_rows db b)"
  by (auto simp: fix_section_as_line_def Let_def split: if_splits)

lemma fix_reference_ids:
  "(s, e, i) \<in> set (fix_reference_system db b an) \<Longrightarrow> \<exists>r. (i, r) \<in> set (book_rows db b)"
  by (auto simp: fix_reference_system_def Let_def split: if_splits dest!: set_zip_rightD)

lemma book_rows_book: "(i, r) \<in> set (book_rows db b) \<Longrightarrow> (i, r) \<in> set (rows_of (trans_segments db)) \<and> tr_book_id r = b"
  by (auto simp: book_rows_def)

lemma zip_apply_updates:
  "zip ts (apply_updates ups ts) =
   map (\<lambda>(i, r). (r, case map_of (rev (map (\<lambda>(s, e, j). (j, (s, e))) ups)) i of
                        Some (s, e) \<Rightarrow> r\<lparr>tr_start := s, tr_end := e\<rparr> | None \<Rightarrow> r)) (rows_of ts)"
proof -
  have "zip (map snd xs) (map f xs) = map (\<lambda>x. (snd x, f x)) xs" for xs :: "(nat \<times> trans_row) list" and f
    by (induction xs) auto
  from this [of "rows_of ts"] show ?thesis
    by (simp add: apply_updates_def case_prod_beta')
qed

lemma changed_books_updates:
  "set (changed_books ts (apply_updates ups ts)) \<subseteq>
   {tr_book_id r | r i s e. (i, r) \<in> set (rows_of ts) \<and> (s, e, i) \<in> set ups}"
proof
  fix b assume "b \<in> set (changed_books ts (apply_updates ups ts))"
  then obtain i r where ir: "(i, r) \<in> set (rows_of ts)" "b = tr_book_id r"
    and ch: "map_of (rev (map (\<lambda>(s, e, j). (j, (s, e))) ups)) i \<noteq> None"
    by (fastforce simp: changed_books_def zip_apply_updates split: option.splits)
  then obtain s e where "(i, (s, e)) \<in> set (rev (map (\<lambda>(s, e, j). (j, (s, e))) ups))"
    by (auto dest!: map_of_SomeD)
  then have "(s, e, i) \<in> set ups" by auto
  with ir show "b \<in> {tr_book_id r | r i s e. (i, r) \<in> set (rows_of ts) \<and> (s, e, i) \<in> set ups}" by blast
qed

text \<open>
  C31: \<open>apply_fixes(apply=True)\<close> renumbers the segments of at
  most six books, three of each fixable kind, however many books it classifies as
  misaligned: the fixes are computed inside the loops that print the first three
  examples (lines 269 and 282).
\<close>

theorem apply_fixes_three_per_kind:
  assumes "apply_fixes db ap = Inr ts'"
  shows "length (changed_books (trans_segments db) ts') \<le> 6"
proof -
  let ?ts = "trans_segments db"
  show ?thesis
  proof (cases "ts' = ?ts")
    case True
    then have "changed_books ?ts ts' = []" by (simp add: changed_books_def zip_same_conv_map)
    then show ?thesis by simp
  next
    case False
    with apply_fixes_cases [OF assms] obtain fs where ts':
      "ts' = apply_updates
              (concat (map (\<lambda>(b, an). fix_section_as_line db b an) (take 3 (filter (\<lambda>(b, an). an_type an = SectionAsLine) fs))) @
               concat (map (\<lambda>(b, an). fix_reference_system db b an) (take 3 (filter (\<lambda>(b, an). an_type an = ReferenceSystem) fs))))
              ?ts" by blast
    let ?A = "take 3 (filter (\<lambda>(b, an). an_type an = SectionAsLine) fs)"
    let ?B = "take 3 (filter (\<lambda>(b, an). an_type an = ReferenceSystem) fs)"
    have sub: "set (changed_books ?ts ts') \<subseteq> fst ` (set ?A \<union> set ?B)"
    proof
      fix b assume "b \<in> set (changed_books ?ts ts')"
      with changed_books_updates ts' obtain r i s e where
        ri: "(i, r) \<in> set (rows_of ?ts)" "b = tr_book_id r"
        and u: "(s, e, i) \<in> set (concat (map (\<lambda>(b, an). fix_section_as_line db b an) ?A) @
                                   concat (map (\<lambda>(b, an). fix_reference_system db b an) ?B))"
        by blast
      from u obtain b' an where "(b', an) \<in> set ?A \<union> set ?B" "\<exists>r'. (i, r') \<in> set (book_rows db b')"
      proof (cases "(s, e, i) \<in> set (concat (map (\<lambda>(b, an). fix_section_as_line db b an) ?A))")
        case True
        then obtain p where "p \<in> set ?A" "(s, e, i) \<in> set (fix_section_as_line db (fst p) (snd p))"
          by (auto simp: case_prod_beta)
        then show ?thesis using that fix_section_ids by (metis UnI1 prod.collapse)
      next
        case False
        with u have "(s, e, i) \<in> set (concat (map (\<lambda>(b, an). fix_reference_system db b an) ?B))"
          unfolding set_append by blast
        then obtain p where "p \<in> set ?B" "(s, e, i) \<in> set (fix_reference_system db (fst p) (snd p))"
          by (auto simp: case_prod_beta)
        then show ?thesis using that fix_reference_ids by (metis UnI2 prod.collapse)
      qed
      moreover have "tr_book_id r = b'" if "(i, r') \<in> set (book_rows db b')" for r'
        using book_rows_book [OF that] rows_of_unique [OF ri(1)] by blast
      ultimately show "b \<in> fst ` (set ?A \<union> set ?B)" using ri(2) by force
    qed
    have "length (changed_books ?ts ts') = card (set (changed_books ?ts ts'))"
      unfolding changed_books_def by (rule distinct_card [symmetric]) simp
    also have "\<dots> \<le> card (fst ` (set ?A \<union> set ?B))" by (rule card_mono [OF _ sub]) simp
    also have "\<dots> \<le> card (set ?A \<union> set ?B)" by (rule card_image_le) simp
    also have "\<dots> \<le> card (set ?A) + card (set ?B)" by (rule card_Un_le)
    also have "\<dots> \<le> length ?A + length ?B" by (intro add_mono card_length)
    also have "\<dots> \<le> 6" by simp
    finally show ?thesis .
  qed
qed

lemma empty_catalogue_fixes: "apply_fixes empty_catalogue ap = Inr []"
  by (simp add: apply_fixes_def translated_books_def empty_catalogue_def)

lemma apply_fixes_three_per_kind_witness: "length (changed_books (trans_segments empty_catalogue) []) \<le> 6"
  by (rule apply_fixes_three_per_kind [where ap = True]) (rule empty_catalogue_fixes)

end
