(* ===== verification/Build_Script.thy ===== *)
theory Build_Script
  imports Lemma_Table Normalizer
begin

text \<open>
  \<open>src/data-prep/build_database.py\<close>, the master build: after \<open>create_perseus_database.py\<close>
  it adds Wiktionary inflections, Greek Wiktionary declensions and nu-movable variants
  to \<open>lemma_map\<close>. Its \<open>normalize_greek\<close> (lines 24-31) is the same code as that of
  \<open>create_perseus_database.py\<close> and is modelled by \<open>normalize_greek\<close>. Each function runs
  in one transaction committed at its end, so a \<open>sqlite3.IntegrityError\<close> raised by a
  plain \<open>INSERT\<close> leaves the table as it was (the \<open>Inl\<close> results below). A JSON file
  that does not exist is \<open>None\<close>.
\<close>

section \<open>The check-then-insert of every step\<close>

text \<open>\<open>SELECT 1 FROM lemma_map WHERE word_normalized = ? AND lemma = ?\<close>, then a plain \<open>INSERT\<close> when no row was found.\<close>

definition insert_if_new :: "lemma_row \<Rightarrow> lemma_table \<Rightarrow> sql_error + lemma_table \<times> bool" where
  "insert_if_new r t =
     (if exists_row (\<lambda>x. word_normalized x = word_normalized r \<and> lemma_col x = lemma_col r) t
      then Inr (t, False)
      else (case sql_insert r t of Inl e \<Rightarrow> Inl e | Inr t' \<Rightarrow> Inr (t', True)))"

text \<open>The loop of a step: the table and the count of inserted rows, or the error that ends the script.\<close>

definition insert_step :: "sql_error + lemma_table \<times> nat \<Rightarrow> lemma_row option \<Rightarrow> sql_error + lemma_table \<times> nat" where
  "insert_step st ro =
     (case st of
        Inl e \<Rightarrow> Inl e
      | Inr (t, n) \<Rightarrow> (case ro of
                        None \<Rightarrow> Inr (t, n)
                      | Some r \<Rightarrow> (case insert_if_new r t of
                                    Inl e \<Rightarrow> Inl e
                                  | Inr (t', b) \<Rightarrow> Inr (t', if b then n + 1 else n))))"

definition insert_rows :: "lemma_row option list \<Rightarrow> lemma_table \<Rightarrow> sql_error + lemma_table \<times> nat" where
  "insert_rows rs t = foldl insert_step (Inr (t, 0)) rs"

section \<open>Wiktionary inflections\<close>

text \<open>
  An entry of \<open>inflection_mappings_final.json\<close>: the word form and, when the value is
  a dict with a \<open>lemma\<close> key, the lemma and the \<open>morphology\<close> value (a string or a
  list of strings, \<open>''\<close> when absent).
\<close>

datatype morph_val = MorphStr string | MorphList "string list"

definition morph_string :: "morph_val \<Rightarrow> string" where
  "morph_string m = (case m of MorphStr s \<Rightarrow> s | MorphList ss \<Rightarrow> py_join '', '' ss)"

definition inflection_row :: "ucd \<Rightarrow> ustr \<times> (ustr \<times> morph_val) option \<Rightarrow> lemma_row option" where
  "inflection_row u e =
     (case snd e of
        None \<Rightarrow> None
      | Some (l, m) \<Rightarrow> Some \<lparr>word_form = fst e, word_normalized = normalize_greek u (fst e),
                              lemma_col = normalize_greek u l, confidence = 0.9,
                              source = ''wiktionary_inflection'', morph_info = Some (morph_string m)\<rparr>)"

definition add_wiktionary_inflections ::
  "ucd \<Rightarrow> (ustr \<times> (ustr \<times> morph_val) option) list option \<Rightarrow> lemma_table \<Rightarrow> sql_error + lemma_table" where
  "add_wiktionary_inflections u f t =
     (case f of
        None \<Rightarrow> Inr t
      | Some es \<Rightarrow> (case insert_rows (map (inflection_row u) es) t of Inl e \<Rightarrow> Inl e | Inr (t', n) \<Rightarrow> Inr t'))"

section \<open>Greek Wiktionary declensions\<close>

record decl_entry =
  de_word_form :: ustr
  de_lemma :: ustr
  de_case :: string
  de_number :: string
  de_gender :: string

text \<open>\<open>'_'.join\<close> of the non-empty case, number and gender.\<close>

definition decl_morph :: "decl_entry \<Rightarrow> string" where
  "decl_morph d = py_join ''_'' (filter (\<lambda>s. s \<noteq> []) [de_case d, de_number d, de_gender d])"

definition declension_row :: "ucd \<Rightarrow> decl_entry \<Rightarrow> lemma_row option" where
  "declension_row u d =
     (if de_word_form d \<noteq> [] \<and> de_lemma d \<noteq> [] then
        Some \<lparr>word_form = de_word_form d, word_normalized = normalize_greek u (de_word_form d),
              lemma_col = normalize_greek u (de_lemma d), confidence = 0.85,
              source = ''greek_wiktionary_declension'', morph_info = Some (decl_morph d)\<rparr>
      else None)"

definition add_greek_wiktionary_declensions ::
  "ucd \<Rightarrow> decl_entry list option \<Rightarrow> lemma_table \<Rightarrow> sql_error + lemma_table" where
  "add_greek_wiktionary_declensions u f t =
     (case f of
        None \<Rightarrow> Inr t
      | Some ds \<Rightarrow> (case insert_rows (map (declension_row u) ds) t of Inl e \<Rightarrow> Inl e | Inr (t', n) \<Rightarrow> Inr t'))"

section \<open>Nu-movable variants\<close>

text \<open>
  The query of lines 158-163: rows whose form ends in epsilon or iota (\<open>LIKE\<close> is exact
  on Greek letters) and that are not themselves variants. \<open>scan\<close> is the order in
  which SQLite returns the table's keys. The \<open>source\<close> column is a string here: SQL's
  \<open>source != 'nu_movable_variant'\<close> also drops rows whose source is NULL, which no writer
  of this model stores.
\<close>

definition nu_candidate :: "lemma_row \<Rightarrow> bool" where
  "nu_candidate r =
     ((py_endswith (word_form r) [0x3B5] \<or> py_endswith (word_form r) [0x3B9] \<or>
       py_endswith (word_form r) [0x3C3, 0x3B9]) \<and> source r \<noteq> ''nu_movable_variant'')"

definition nu_variant :: "ucd \<Rightarrow> lemma_row \<Rightarrow> lemma_row" where
  "nu_variant u r =
     \<lparr>word_form = word_form r @ [0x3BD], word_normalized = normalize_greek u (word_form r @ [0x3BD]),
      lemma_col = lemma_col r, confidence = 0.95, source = ''nu_movable_variant'',
      morph_info = Some (case morph_info r of Some m \<Rightarrow> if m \<noteq> [] then m @ ''_with_nu'' else ''with_nu''
                                            | None \<Rightarrow> ''with_nu'')\<rparr>"

definition add_nu_movable_variants :: "ucd \<Rightarrow> lemma_key list \<Rightarrow> lemma_table \<Rightarrow> sql_error + lemma_table" where
  "add_nu_movable_variants u scan t =
     (let cands = filter nu_candidate (List.map_filter t scan)
      in case insert_rows (map (\<lambda>r. Some (nu_variant u r)) cands) t of Inl e \<Rightarrow> Inl e | Inr (t', n) \<Rightarrow> Inr t')"

text \<open>Steps 2-4 of \<open>main\<close> (lines 280-282); a step that raises ends the build with the table of the steps before.\<close>

definition build_lemma_additions ::
  "ucd \<Rightarrow> (ustr \<times> (ustr \<times> morph_val) option) list option \<Rightarrow> decl_entry list option \<Rightarrow> (lemma_table \<Rightarrow> lemma_key list) \<Rightarrow>
   lemma_table \<Rightarrow> sql_error + lemma_table" where
  "build_lemma_additions u infl dec scan t =
     (case add_wiktionary_inflections u infl t of
        Inl e \<Rightarrow> Inl e
      | Inr t1 \<Rightarrow> (case add_greek_wiktionary_declensions u dec t1 of
                    Inl e \<Rightarrow> Inl e
                  | Inr t2 \<Rightarrow> add_nu_movable_variants u (scan t2) t2))"

text \<open>
  The same loop as a step relation on (rows still to insert, table, count): a row is
  consumed by a step, and a state whose next row raises has no step.
\<close>

inductive ins_step :: "lemma_row option list \<times> lemma_table \<times> nat \<Rightarrow> lemma_row option list \<times> lemma_table \<times> nat \<Rightarrow> bool" where
  ins_skip: "ins_step (None # rs, t, n) (rs, t, n)"
| ins_row: "insert_if_new r t = Inr (t', b) \<Longrightarrow> ins_step (Some r # rs, t, n) (rs, t', if b then n + 1 else n)"

section \<open>Specification\<close>

text \<open>A generated row of the base table: the vocative singular of the noun \<open>logos\<close>.\<close>

definition noun_voc_row :: lemma_row where
  "noun_voc_row = \<lparr>word_form = gk ''loge'', word_normalized = gk ''loge'', lemma_col = gk ''logos'',
                   confidence = 0.8, source = ''generated'', morph_info = None\<rparr>"

definition noun_table :: lemma_table where
  "noun_table = [(gk ''loge'', gk ''logos'') \<mapsto> noun_voc_row]"

text \<open>A row written as \<open>load_wiktionary_mappings\<close> writes it (\<open>word_normalized\<close> is the form as
  given, here with its accent) for the form \<open>logon\<close> with an acute on the omicron.\<close>

definition accented_form :: ustr where
  "accented_form = [0x3BB, 0x3CC, 0x3B3, 0x3BF, 0x3BD]"

definition accented_row :: lemma_row where
  "accented_row = \<lparr>word_form = accented_form, word_normalized = accented_form, lemma_col = gk ''logos'',
                   confidence = 0.9, source = ''wiktionary_en'', morph_info = None\<rparr>"

text \<open>A row whose \<open>word_normalized\<close> is \<open>nf\<close> of its form, and a table of such rows: \<open>nf\<close> is \<open>normalize_greek\<close> for the rows of \<open>build_database.py\<close>, the identity for rows that store a normalised form as both.\<close>

definition row_norm :: "(ustr \<Rightarrow> ustr) \<Rightarrow> lemma_row \<Rightarrow> bool" where
  "row_norm nf r \<longleftrightarrow> word_normalized r = nf (word_form r)"

definition norm_consistent :: "(ustr \<Rightarrow> ustr) \<Rightarrow> lemma_table \<Rightarrow> bool" where
  "norm_consistent nf t \<longleftrightarrow> (\<forall>r \<in> ran t. row_norm nf r)"

text \<open>The check of a row: some row has its normalised form and its lemma.\<close>

definition mapped :: "lemma_row \<Rightarrow> lemma_table \<Rightarrow> bool" where
  "mapped r t \<longleftrightarrow> exists_row (\<lambda>x. word_normalized x = word_normalized r \<and> lemma_col x = lemma_col r) t"

section \<open>The insertion loop\<close>

lemma insert_if_new_ok:
  assumes wf: "table_wf t" and nc: "norm_consistent nf t" and r: "row_norm nf r"
  shows "\<exists>t' b. insert_if_new r t = Inr (t', b) \<and> table_wf t' \<and> norm_consistent nf t' \<and>
           t \<subseteq>\<^sub>m t' \<and> ran t' \<subseteq> insert r (ran t) \<and> mapped r t' \<and> (\<not> b \<longrightarrow> t' = t)"
proof (cases "mapped r t")
  case True
  then show ?thesis using wf nc
    by (simp add: insert_if_new_def mapped_def map_le_refl) blast
next
  case False
  have free: "key_of r \<notin> dom t"
  proof
    assume "key_of r \<in> dom t"
    then obtain x where x: "t (key_of r) = Some x" by blast
    then have "key_of x = key_of r" using wf unfolding table_wf_def by blast
    moreover have "row_norm nf x" using nc x ranI unfolding norm_consistent_def by metis
    ultimately have "word_normalized x = word_normalized r \<and> lemma_col x = lemma_col r"
      using r by (simp add: key_of_def row_norm_def)
    then show False using False x ranI unfolding mapped_def exists_row_def by metis
  qed
  then have ran': "ran (t(key_of r \<mapsto> r)) = insert r (ran t)" by (simp add: ran_map_upd domIff)
  have ins: "sql_insert r t = Inr (t(key_of r \<mapsto> r))" using free by (simp add: sql_insert_def)
  have "table_wf (t(key_of r \<mapsto> r))" using sql_insert_wf [OF wf ins] .
  moreover have "norm_consistent nf (t(key_of r \<mapsto> r))" using nc r ran' by (simp add: norm_consistent_def)
  moreover have "t \<subseteq>\<^sub>m t(key_of r \<mapsto> r)" using free by (auto simp: map_le_def domIff)
  moreover have "mapped r (t(key_of r \<mapsto> r))" using ran' by (simp add: mapped_def exists_row_def)
  ultimately show ?thesis using False ins ran' by (simp add: insert_if_new_def mapped_def) (rule exI [of _ True], simp)
qed

text \<open>What the loop over a list of rows gives: the rows it inserts are the list's, nothing is overwritten, every row is mapped.\<close>

definition rows_result :: "(ustr \<Rightarrow> ustr) \<Rightarrow> lemma_row option list \<Rightarrow> lemma_table \<Rightarrow> lemma_table \<Rightarrow> bool" where
  "rows_result nf rs t t' \<longleftrightarrow> table_wf t' \<and> norm_consistent nf t' \<and> t \<subseteq>\<^sub>m t' \<and>
     ran t' \<subseteq> ran t \<union> {r. Some r \<in> set rs} \<and> (\<forall>r. Some r \<in> set rs \<longrightarrow> mapped r t')"

lemma mapped_mono: "mapped r t \<Longrightarrow> t \<subseteq>\<^sub>m t' \<Longrightarrow> mapped r t'"
  by (auto simp: mapped_def exists_row_def ran_def map_le_def dom_def) metis

lemma insert_step_fold:
  assumes "table_wf t" "norm_consistent nf t" "\<forall>r. Some r \<in> set rs \<longrightarrow> row_norm nf r"
  shows "\<exists>t' m. foldl insert_step (Inr (t, n)) rs = Inr (t', m) \<and> rows_result nf rs t t'"
  using assms
proof (induction rs arbitrary: t n)
  case Nil
  then show ?case by (simp add: rows_result_def map_le_refl)
next
  case (Cons ro rs)
  show ?case
  proof (cases ro)
    case None
    with Cons show ?thesis by (simp add: insert_step_def rows_result_def)
  next
    case (Some r)
    with Cons.prems obtain t1 b where i: "insert_if_new r t = Inr (t1, b)" and
      w1: "table_wf t1" "norm_consistent nf t1" and s1: "t \<subseteq>\<^sub>m t1" "ran t1 \<subseteq> insert r (ran t)"
      and m1: "mapped r t1"
      using insert_if_new_ok by (metis list.set_intros(1))
    have "\<forall>r. Some r \<in> set rs \<longrightarrow> row_norm nf r" using Cons.prems(3) by simp
    from Cons.IH [OF w1 this, of "if b then n + 1 else n"] obtain t' m where
      f: "foldl insert_step (Inr (t1, if b then n + 1 else n)) rs = Inr (t', m)" and rr: "rows_result nf rs t1 t'"
      by auto
    have "t \<subseteq>\<^sub>m t'" using s1(1) rr map_le_trans by (auto simp: rows_result_def)
    moreover have "mapped r t'" using m1 rr mapped_mono by (auto simp: rows_result_def)
    ultimately have "rows_result nf (ro # rs) t t'" using rr s1(2) Some by (auto simp: rows_result_def)
    moreover have "foldl insert_step (Inr (t, n)) (ro # rs) = foldl insert_step (Inr (t1, if b then n + 1 else n)) rs"
      using i Some by (simp only: foldl_Cons) (simp add: insert_step_def)
    ultimately show ?thesis using f by auto
  qed
qed

lemma insert_rows_ok:
  assumes "table_wf t" "norm_consistent nf t" "\<forall>r. Some r \<in> set rs \<longrightarrow> row_norm nf r"
  shows "\<exists>t'. (case insert_rows rs t of Inl e \<Rightarrow> Inl e | Inr (t', n) \<Rightarrow> Inr t') = Inr t' \<and> rows_result nf rs t t'"
  using insert_step_fold [OF assms, of 0] by (auto simp: insert_rows_def)

lemma inflection_row_norm: "inflection_row u e = Some r \<Longrightarrow> row_norm (normalize_greek u) r"
  by (auto simp: inflection_row_def row_norm_def split: option.splits)

lemma declension_row_norm: "declension_row u d = Some r \<Longrightarrow> row_norm (normalize_greek u) r"
  by (auto simp: declension_row_def row_norm_def split: if_splits)

lemma nu_variant_norm: "row_norm (normalize_greek u) (nu_variant u r)"
  by (simp add: nu_variant_def row_norm_def)

lemma add_wiktionary_inflections_ok:
  assumes "table_wf t" "norm_consistent (normalize_greek u) t"
  shows "\<exists>t'. add_wiktionary_inflections u f t = Inr t' \<and>
           (case f of None \<Rightarrow> t' = t | Some es \<Rightarrow> rows_result (normalize_greek u) (map (inflection_row u) es) t t')"
proof (cases f)
  case (Some es)
  have "\<forall>r. Some r \<in> set (map (inflection_row u) es) \<longrightarrow> row_norm (normalize_greek u) r"
    using inflection_row_norm by auto
  from insert_rows_ok [OF assms this] Some show ?thesis
    by (simp add: add_wiktionary_inflections_def)
qed (simp add: add_wiktionary_inflections_def)

lemma add_greek_wiktionary_declensions_ok:
  assumes "table_wf t" "norm_consistent (normalize_greek u) t"
  shows "\<exists>t'. add_greek_wiktionary_declensions u f t = Inr t' \<and>
           (case f of None \<Rightarrow> t' = t | Some ds \<Rightarrow> rows_result (normalize_greek u) (map (declension_row u) ds) t t')"
proof (cases f)
  case (Some ds)
  have "\<forall>r. Some r \<in> set (map (declension_row u) ds) \<longrightarrow> row_norm (normalize_greek u) r"
    using declension_row_norm by auto
  from insert_rows_ok [OF assms this] Some show ?thesis
    by (simp add: add_greek_wiktionary_declensions_def)
qed (simp add: add_greek_wiktionary_declensions_def)

definition nu_rows :: "ucd \<Rightarrow> lemma_key list \<Rightarrow> lemma_table \<Rightarrow> lemma_row option list" where
  "nu_rows u scan t = map (\<lambda>r. Some (nu_variant u r)) (filter nu_candidate (List.map_filter t scan))"

lemma add_nu_movable_variants_ok:
  assumes "table_wf t" "norm_consistent (normalize_greek u) t"
  shows "\<exists>t'. add_nu_movable_variants u scan t = Inr t' \<and> rows_result (normalize_greek u) (nu_rows u scan t) t t'"
proof -
  have "\<forall>r. Some r \<in> set (nu_rows u scan t) \<longrightarrow> row_norm (normalize_greek u) r"
    using nu_variant_norm by (auto simp: nu_rows_def)
  from insert_rows_ok [OF assms this] show ?thesis
    by (simp add: add_nu_movable_variants_def nu_rows_def Let_def)
qed

inductive_cases ins_step_NilE [elim!]: "ins_step ([], t, n) s"
inductive_cases ins_step_ConsE: "ins_step (ro # rs, t, n) s"

lemma foldl_insert_step_Inl [simp]: "foldl insert_step (Inl e) rs = Inl e"
  by (induction rs) (simp_all add: insert_step_def)

lemma ins_steps_Nil: "ins_step\<^sup>*\<^sup>* ([], t, n) s \<Longrightarrow> s = ([], t, n)"
  by (erule converse_rtranclpE) auto

text \<open>The final states of the step relation are the results of the fold.\<close>

lemma ins_step_Cons:
  "ins_step (ro # rs, t, n) s \<Longrightarrow> \<exists>t1 n1. s = (rs, t1, n1) \<and> insert_step (Inr (t, n)) ro = Inr (t1, n1)"
  by (erule ins_step_ConsE) (auto simp: insert_step_def)

lemma insert_step_ins_step:
  "insert_step (Inr (t, n)) ro = Inr (t1, n1) \<Longrightarrow> ins_step (ro # rs, t, n) (rs, t1, n1)"
  by (cases ro) (auto simp: insert_step_def intro: ins_skip ins_row split: sum.splits)

lemma ins_steps_foldl:
  "ins_step\<^sup>*\<^sup>* (rs, t, n) ([], t', m) \<longleftrightarrow> foldl insert_step (Inr (t, n)) rs = Inr (t', m)"
proof (induction rs arbitrary: t n)
  case Nil
  show ?case by (auto dest: ins_steps_Nil)
next
  case (Cons ro rs)
  show ?case
  proof
    assume "ins_step\<^sup>*\<^sup>* (ro # rs, t, n) ([], t', m)"
    then obtain s where "ins_step (ro # rs, t, n) s" "ins_step\<^sup>*\<^sup>* s ([], t', m)"
      by (auto elim: converse_rtranclpE)
    then obtain t1 n1 where "ins_step\<^sup>*\<^sup>* (rs, t1, n1) ([], t', m)" "insert_step (Inr (t, n)) ro = Inr (t1, n1)"
      using ins_step_Cons by blast
    then show "foldl insert_step (Inr (t, n)) (ro # rs) = Inr (t', m)"
      using Cons.IH by simp
  next
    assume f: "foldl insert_step (Inr (t, n)) (ro # rs) = Inr (t', m)"
    obtain t1 n1 where s: "insert_step (Inr (t, n)) ro = Inr (t1, n1)"
      using f by (cases "insert_step (Inr (t, n)) ro") auto
    then have "ins_step\<^sup>*\<^sup>* (rs, t1, n1) ([], t', m)" using f Cons.IH by simp
    then show "ins_step\<^sup>*\<^sup>* (ro # rs, t, n) ([], t', m)"
      using insert_step_ins_step [OF s] by (rule converse_rtranclp_into_rtranclp [rotated])
  qed
qed

lemma insert_if_new_mapped: "mapped r t \<Longrightarrow> insert_if_new r t = Inr (t, False)"
  by (simp add: insert_if_new_def mapped_def)

lemma insert_step_all_mapped:
  "\<forall>r. Some r \<in> set rs \<longrightarrow> mapped r t \<Longrightarrow> foldl insert_step (Inr (t, n)) rs = Inr (t, n)"
proof (induction rs)
  case (Cons ro rs)
  then show ?case by (cases ro) (simp_all add: insert_step_def insert_if_new_mapped)
qed simp

lemma set_nu_rows:
  "Some x \<in> set (nu_rows u scan t) \<longleftrightarrow> (\<exists>k r. k \<in> set scan \<and> t k = Some r \<and> nu_candidate r \<and> x = nu_variant u r)"
  unfolding nu_rows_def List.map_filter_def by force

lemma nu_variant_source: "source (nu_variant u r) = ''nu_movable_variant''"
  by (simp add: nu_variant_def)

lemmas greek_norm_eval = normalize_greek_def nfd_str_def drop_combining_def lower_str_def
  final_sigma_to_medial_def keep_char_def greek_ucd_def greek_nfd_def greek_basic_decomp_def
  ext_assigned_def greek_late_decomp_def greek_combining_def greek_lower_def greek_isalpha_def
  greek_range_def greek_lit

lemma norm_logos: "normalize_greek greek_ucd (gk ''logos'') = gk ''logos''"
  by (simp add: greek_norm_eval)

lemma norm_loge: "normalize_greek greek_ucd (gk ''loge'') = gk ''loge''"
  by (simp add: greek_norm_eval)

lemma norm_logen: "normalize_greek greek_ucd (gk ''loge'' @ [0x3BD]) = gk ''logen''"
  by (simp add: greek_norm_eval)

lemma norm_accented: "normalize_greek greek_ucd accented_form = gk ''logon''"
  by (simp add: accented_form_def greek_norm_eval)

lemma noun_nu_candidate: "nu_candidate noun_voc_row"
  by (simp add: nu_candidate_def noun_voc_row_def py_endswith_def gk_def beta_table_def)

lemma noun_nu_variant:
  "nu_variant greek_ucd noun_voc_row =
     \<lparr>word_form = gk ''logen'', word_normalized = gk ''logen'', lemma_col = gk ''logos'',
      confidence = 0.95, source = ''nu_movable_variant'', morph_info = Some ''with_nu''\<rparr>"
  using norm_logen by (simp add: nu_variant_def noun_voc_row_def gk_def beta_table_def)

lemma noun_nu_insert:
  "insert_if_new (nu_variant greek_ucd noun_voc_row) noun_table =
     Inr (noun_table((gk ''logen'', gk ''logos'') \<mapsto> nu_variant greek_ucd noun_voc_row), True)"
proof -
  have n: "\<not> mapped (nu_variant greek_ucd noun_voc_row) noun_table"
    unfolding noun_nu_variant
    by (simp add: mapped_def exists_row_def noun_table_def noun_voc_row_def gk_def beta_table_def)
  have k: "key_of (nu_variant greek_ucd noun_voc_row) = (gk ''logen'', gk ''logos'')"
    unfolding noun_nu_variant by (simp add: key_of_def)
  show ?thesis
    using n k unfolding insert_if_new_def mapped_def
    by (simp add: sql_insert_def noun_table_def gk_def beta_table_def)
qed

lemma noun_table_ok: "table_wf noun_table" "norm_consistent (normalize_greek greek_ucd) noun_table"
  using norm_loge by (simp_all add: table_wf_def noun_table_def noun_voc_row_def key_of_def
      norm_consistent_def row_norm_def)

lemma rows_result_wf: "rows_result (normalize_greek u) rs t t' \<Longrightarrow> table_wf t' \<and> norm_consistent (normalize_greek u) t' \<and> t \<subseteq>\<^sub>m t'"
  by (simp add: rows_result_def)

text \<open>C1: on a well-formed table whose normalised forms are those of
  \<open>normalize_greek\<close>, steps 2-4 of the build never raise \<open>IntegrityError\<close>, keep the table
  well-formed and consistent, and keep every row it had.\<close>

theorem build_lemma_additions_safe:
  assumes "table_wf t" "norm_consistent (normalize_greek u) t"
  shows "\<exists>t'. build_lemma_additions u infl dec scan t = Inr t' \<and>
           table_wf t' \<and> norm_consistent (normalize_greek u) t' \<and> t \<subseteq>\<^sub>m t'"
proof -
  obtain t1 where t1: "add_wiktionary_inflections u infl t = Inr t1" "table_wf t1" "norm_consistent (normalize_greek u) t1" "t \<subseteq>\<^sub>m t1"
    using assms add_wiktionary_inflections_ok [OF assms, of infl] rows_result_wf map_le_refl
    by (cases infl) auto
  obtain t2 where t2: "add_greek_wiktionary_declensions u dec t1 = Inr t2" "table_wf t2" "norm_consistent (normalize_greek u) t2" "t1 \<subseteq>\<^sub>m t2"
    using t1(2,3) add_greek_wiktionary_declensions_ok [OF t1(2,3), of dec] rows_result_wf map_le_refl
    by (cases dec) auto
  obtain t3 where t3: "add_nu_movable_variants u (scan t2) t2 = Inr t3" "table_wf t3" "norm_consistent (normalize_greek u) t3" "t2 \<subseteq>\<^sub>m t3"
    using add_nu_movable_variants_ok [OF t2(2,3)] rows_result_wf by blast
  have "t \<subseteq>\<^sub>m t3" using t1(4) t2(4) t3(4) map_le_trans by blast
  then show ?thesis using t1 t2 t3 by (simp add: build_lemma_additions_def)
qed

text \<open>C4: from a well-formed, consistent table, the insertion loop of
  every step always reaches the state with no rows left (it never stops at an
  \<open>IntegrityError\<close>), and the table it reaches has each row of the list mapped.\<close>

theorem insert_loop_reaches_end:
  assumes "table_wf t" "norm_consistent nf t" "\<forall>r. Some r \<in> set rs \<longrightarrow> row_norm nf r"
  shows "\<exists>t' m. ins_step\<^sup>*\<^sup>* (rs, t, n) ([], t', m) \<and> table_wf t' \<and> (\<forall>r. Some r \<in> set rs \<longrightarrow> mapped r t')"
  using insert_step_fold [OF assms, of n] ins_steps_foldl by (auto simp: rows_result_def)

theorem insert_loop_reaches_end_witness:
  "\<exists>t' m. ins_step\<^sup>*\<^sup>* ([None, Some noun_voc_row], Map.empty, 0) ([], t', m) \<and> table_wf t' \<and>
     mapped noun_voc_row t'"
proof -
  have "row_norm (normalize_greek greek_ucd) noun_voc_row" using norm_loge by (simp add: row_norm_def noun_voc_row_def)
  then show ?thesis
    using insert_loop_reaches_end [of "Map.empty" "normalize_greek greek_ucd" "[None, Some noun_voc_row]" 0]
    by (simp add: norm_consistent_def)
qed

text \<open>C3: every row the query of \<open>add_nu_movable_variants\<close> selects
  (its form ends in epsilon or iota and it is not a variant) has, after the step, a
  row of the form with nu added and the same lemma.\<close>

theorem nu_variants_complete:
  assumes "table_wf t" "norm_consistent (normalize_greek u) t" "k \<in> set scan" "t k = Some r" "nu_candidate r"
  shows "\<exists>t'. add_nu_movable_variants u scan t = Inr t' \<and>
           exists_row (\<lambda>x. word_normalized x = normalize_greek u (word_form r @ [0x3BD]) \<and> lemma_col x = lemma_col r) t'"
proof -
  obtain t' where "add_nu_movable_variants u scan t = Inr t'" "rows_result (normalize_greek u) (nu_rows u scan t) t t'"
    using add_nu_movable_variants_ok [OF assms(1,2)] by blast
  moreover have "Some (nu_variant u r) \<in> set (nu_rows u scan t)"
    using assms(3-5) set_nu_rows by blast
  ultimately show ?thesis by (auto simp: rows_result_def mapped_def nu_variant_def)
qed

text \<open>when the scan reads every key of the table, running
  \<open>add_nu_movable_variants\<close> again on its result changes nothing.\<close>

theorem nu_variants_idempotent:
  assumes "table_wf t" "norm_consistent (normalize_greek u) t" "dom t \<subseteq> set scan"
    and "add_nu_movable_variants u scan t = Inr t'"
  shows "add_nu_movable_variants u scan' t' = Inr t'"
proof -
  have rr: "rows_result (normalize_greek u) (nu_rows u scan t) t t'"
    using add_nu_movable_variants_ok [OF assms(1,2), of scan] assms(4) by auto
  have "mapped x t'" if x: "Some x \<in> set (nu_rows u scan' t')" for x
  proof -
    obtain k r where r: "t' k = Some r" "nu_candidate r" "x = nu_variant u r"
      using x set_nu_rows by blast
    have "r \<in> ran t'" using r(1) by (rule ranI)
    moreover have "\<not> Some r \<in> set (nu_rows u scan t)"
      using r(2) set_nu_rows nu_variant_source by (fastforce simp: nu_candidate_def)
    ultimately have "r \<in> ran t" using rr by (auto simp: rows_result_def)
    then obtain k' where "t k' = Some r" "k' \<in> set scan" using assms(3) by (auto simp: ran_def)
    then have "Some x \<in> set (nu_rows u scan t)" using r set_nu_rows by blast
    then show ?thesis using rr by (simp add: rows_result_def)
  qed
  then show ?thesis
    using insert_step_all_mapped by (simp add: add_nu_movable_variants_def nu_rows_def insert_rows_def Let_def)
qed

theorem nu_variants_complete_witness:
  "\<exists>t'. add_nu_movable_variants greek_ucd [(gk ''loge'', gk ''logos'')] noun_table = Inr t' \<and>
     exists_row (\<lambda>x. word_normalized x = normalize_greek greek_ucd (gk ''loge'' @ [0x3BD]) \<and>
                     lemma_col x = gk ''logos'') t'"
  using nu_variants_complete [OF noun_table_ok, of "(gk ''loge'', gk ''logos'')"
      "[(gk ''loge'', gk ''logos'')]" noun_voc_row] noun_nu_candidate
  by (simp add: noun_table_def noun_voc_row_def)

theorem nu_variants_idempotent_witness:
  "add_nu_movable_variants greek_ucd [(gk ''loge'', gk ''logos''), (gk ''logen'', gk ''logos'')]
     (noun_table((gk ''logen'', gk ''logos'') \<mapsto> nu_variant greek_ucd noun_voc_row)) =
   Inr (noun_table((gk ''logen'', gk ''logos'') \<mapsto> nu_variant greek_ucd noun_voc_row))"
proof -
  have "add_nu_movable_variants greek_ucd [(gk ''loge'', gk ''logos'')] noun_table =
        Inr (noun_table((gk ''logen'', gk ''logos'') \<mapsto> nu_variant greek_ucd noun_voc_row))"
    using noun_nu_insert noun_nu_candidate
    by (simp add: add_nu_movable_variants_def insert_rows_def insert_step_def List.map_filter_def noun_table_def)
  moreover have "dom noun_table \<subseteq> set [(gk ''loge'', gk ''logos'')]" by (simp add: noun_table_def)
  ultimately show ?thesis using nu_variants_idempotent [OF noun_table_ok] by blast
qed

theorem build_lemma_additions_safe_witness:
  "\<exists>t'. build_lemma_additions greek_ucd None None (\<lambda>t. [(gk ''loge'', gk ''logos'')]) noun_table = Inr t' \<and>
     table_wf t' \<and> norm_consistent (normalize_greek greek_ucd) t' \<and> noun_table \<subseteq>\<^sub>m t'"
  by (rule build_lemma_additions_safe [OF noun_table_ok])

text \<open>C2: the test before each \<open>INSERT\<close> looks for the normalised
  form, but the primary key is the form as written. When the table holds the key
  (form, lemma) under another normalised form, as the rows of \<open>load_wiktionary_mappings\<close>
  do, the \<open>INSERT\<close> raises \<open>IntegrityError\<close>, which nothing catches: the build stops.\<close>

theorem inflection_key_clash_aborts:
  assumes "t (w, normalize_greek u l) \<noteq> None"
    and "\<not> exists_row (\<lambda>x. word_normalized x = normalize_greek u w \<and> lemma_col x = normalize_greek u l) t"
  shows "build_lemma_additions u (Some ((w, Some (l, mo)) # es)) dec scan t = Inl IntegrityError"
proof -
  have "insert_if_new (the (inflection_row u (w, Some (l, mo)))) t = Inl IntegrityError"
    using assms by (auto simp: insert_if_new_def inflection_row_def sql_insert_def key_of_def)
  then show ?thesis
    by (simp add: build_lemma_additions_def add_wiktionary_inflections_def insert_rows_def
        insert_step_def inflection_row_def)
qed

theorem inflection_key_clash_aborts_witness:
  "build_lemma_additions greek_ucd (Some [(accented_form, Some (gk ''logos'', MorphStr ''acc_sg''))]) None
     (\<lambda>t. []) [(accented_form, gk ''logos'') \<mapsto> accented_row] = Inl IntegrityError"
proof (rule inflection_key_clash_aborts)
  show "[(accented_form, gk ''logos'') \<mapsto> accented_row] (accented_form, normalize_greek greek_ucd (gk ''logos'')) \<noteq> None"
    by (simp add: norm_logos)
  show "\<not> exists_row (\<lambda>x. word_normalized x = normalize_greek greek_ucd accented_form \<and>
           lemma_col x = normalize_greek greek_ucd (gk ''logos'')) [(accented_form, gk ''logos'') \<mapsto> accented_row]"
    by (simp add: exists_row_def norm_accented norm_logos accented_row_def)
      (simp add: accented_form_def gk_def beta_table_def)
qed

end
