(* ===== verification/Translation_Lookup.thy ===== *)
theory Translation_Lookup
  imports Fix_Alignment Alignment
begin

text \<open>
  \<open>create_translation_lookup_table\<close> (\<open>src/data-prep/create_perseus_database.py\<close>,
  lines 2963-3087), the last step of \<open>create_database\<close>: the table \<open>translation_lookup\<close>
  of rows (\<open>book_id\<close>, \<open>line_number\<close>, \<open>segment_id\<close>) that tells the reader which
  translation segment belongs to a line of the Greek text. A segment's lines are
  its own range, or, when the translation is numbered by sections, a proportional
  spread over the book's lines in binary64 arithmetic (\<open>Py_Float\<close>); a line that no
  segment covers gets the segment with the nearest end point within 100 lines.
  The table is a list of rows with \<open>INSERT OR IGNORE\<close> on its primary key.
\<close>

type_synonym lookup_row = "ustr \<times> int \<times> nat"

definition lookup_insert :: "lookup_row \<Rightarrow> lookup_row list \<Rightarrow> lookup_row list" where
  "lookup_insert x t = (if x \<in> set t then t else t @ [x])"

text \<open>\<open>SELECT DISTINCT line_number FROM text_lines WHERE book_id = ?\<close>\<close>

definition book_line_numbers :: "corpus_db \<Rightarrow> ustr \<Rightarrow> int list" where
  "book_line_numbers c b = remdups (map line_number (filter (\<lambda>l. line_book_id l = b) (text_lines c)))"

text \<open>The books of the first query: rows of \<open>books\<close> with a text line and a translation segment, grouped by id.\<close>

definition lookup_books :: "catalogue_db \<Rightarrow> ustr list" where
  "lookup_books db =
     sort (filter (\<lambda>b. books (corpus db) b \<noteq> None \<and> book_line_numbers (corpus db) b \<noteq> [])
             (remdups (map tr_book_id (trans_segments db))))"

text \<open>\<open>SELECT id, start_line, end_line FROM translation_segments WHERE book_id = ? ORDER BY start_line\<close>\<close>

definition lookup_segs :: "catalogue_db \<Rightarrow> ustr \<Rightarrow> (nat \<times> trans_row) list" where
  "lookup_segs db b = sort_key (\<lambda>(i, r). tr_start r) (book_rows db b)"

text \<open>\<open>max_trans_line < max_line / 2 or max_trans_line > max_line * 2\<close>\<close>

definition needs_mapping :: "int \<Rightarrow> int \<Rightarrow> bool" where
  "needs_mapping mt maxl = (flt_int mt (fdiv_int maxl 2) \<or> maxl * 2 < mt)"

text \<open>The candidate lines of a segment, in the two branches of the segment loop.\<close>

definition segment_lines :: "bool \<Rightarrow> int \<Rightarrow> int \<Rightarrow> int \<Rightarrow> trans_row \<Rightarrow> int list" where
  "segment_lines nm mt minl maxl r =
     (if nm \<and> mt < 500 \<and> 0 < mt then
        [ftrunc (fadd (float_of_int minl) (fmul_int (maxl - minl) (fdiv_int (tr_start r - 1) mt))) ..
         ftrunc (fadd (float_of_int minl) (fmul_int (maxl - minl) (fdiv_int (tr_end r) mt)))]
      else [tr_start r .. tr_end r])"

definition map_segment ::
  "ustr \<Rightarrow> int list \<Rightarrow> bool \<Rightarrow> int \<Rightarrow> int \<Rightarrow> int \<Rightarrow> lookup_row list \<Rightarrow> nat \<times> trans_row \<Rightarrow> lookup_row list" where
  "map_segment b valid nm mt minl maxl t ir =
     foldl (\<lambda>t l. if l \<in> set valid then lookup_insert (b, l, fst ir) t else t) t
       (segment_lines nm mt minl maxl (snd ir))"

text \<open>The search for the nearest segment: \<open>min_dist\<close> starts at \<open>float('inf')\<close>, here \<open>None\<close>.\<close>

definition nearest_step :: "int \<Rightarrow> nat option \<times> int option \<Rightarrow> nat \<times> trans_row \<Rightarrow> nat option \<times> int option" where
  "nearest_step l st ir =
     (let d = min \<bar>l - tr_start (snd ir)\<bar> \<bar>l - tr_end (snd ir)\<bar>
      in if (case snd st of None \<Rightarrow> True | Some m \<Rightarrow> d < m) \<and> d < 100 then (Some (fst ir), Some d) else st)"

definition nearest_segment :: "(nat \<times> trans_row) list \<Rightarrow> int \<Rightarrow> nat option" where
  "nearest_segment segs l = fst (foldl (nearest_step l) (None, None) segs)"

text \<open>\<open>if best_seg:\<close> is false for \<open>None\<close> and for the id 0.\<close>

definition nearest_fill :: "ustr \<Rightarrow> (nat \<times> trans_row) list \<Rightarrow> lookup_row list \<Rightarrow> int \<Rightarrow> lookup_row list" where
  "nearest_fill b segs t l =
     (case nearest_segment segs l of Some i \<Rightarrow> if i \<noteq> 0 then lookup_insert (b, l, i) t else t | None \<Rightarrow> t)"

text \<open>One iteration of the loop over the books. The unmapped lines are a set in the
  code; each is filled independently of the others, so their order does not matter.\<close>

definition lookup_book :: "catalogue_db \<Rightarrow> lookup_row list \<Rightarrow> ustr \<Rightarrow> lookup_row list" where
  "lookup_book db t b =
     (let segs = lookup_segs db b; valid = book_line_numbers (corpus db) b
      in if segs = [] then t
         else (let minl = Min (set valid); maxl = Max (set valid);
                   mt = Max (set (map (\<lambda>(i, r). tr_end r) segs));
                   nm = needs_mapping mt maxl;
                   t1 = foldl (map_segment b valid nm mt minl maxl) t segs;
                   unmapped = filter (\<lambda>l. l \<notin> set (map (\<lambda>(b', l', i). l') (filter (\<lambda>(b', l', i). b' = b) t1))) valid
               in foldl (nearest_fill b segs) t1 unmapped))"

definition create_translation_lookup_table :: "catalogue_db \<Rightarrow> lookup_row list" where
  "create_translation_lookup_table db = foldl (lookup_book db) [] (lookup_books db)"

section \<open>Specification\<close>

text \<open>The values the loop body computes for a book, and the candidate lines of its segments.\<close>

definition lookup_params :: "catalogue_db \<Rightarrow> ustr \<Rightarrow> bool \<times> int \<times> int \<times> int" where
  "lookup_params db b =
     (let valid = book_line_numbers (corpus db) b; maxl = Max (set valid);
          mt = Max (set (map (\<lambda>(i, r). tr_end r) (lookup_segs db b)))
      in (needs_mapping mt maxl, mt, Min (set valid), maxl))"

definition seg_lines :: "catalogue_db \<Rightarrow> ustr \<Rightarrow> trans_row \<Rightarrow> int list" where
  "seg_lines db b r = (case lookup_params db b of (nm, mt, minl, maxl) \<Rightarrow> segment_lines nm mt minl maxl r)"

text \<open>A row of the table: a line of a book with translations, and a segment of that book whose
  candidate lines hold it, or, when no segment's do, the nearest segment.\<close>

definition lookup_spec :: "catalogue_db \<Rightarrow> lookup_row \<Rightarrow> bool" where
  "lookup_spec db x =
     (case x of (b, l, i) \<Rightarrow>
        b \<in> set (lookup_books db) \<and> l \<in> set (book_line_numbers (corpus db) b) \<and>
        ((\<exists>r. (i, r) \<in> set (book_rows db b) \<and> l \<in> set (seg_lines db b r)) \<or>
         ((\<forall>(j, r) \<in> set (book_rows db b). l \<notin> set (seg_lines db b r)) \<and>
          nearest_segment (lookup_segs db b) l = Some i)))"

text \<open>A book with the lines 1 and 2 and one translation segment numbered \<open>s\<close> to \<open>e\<close>.\<close>

definition ex_line :: "int \<Rightarrow> line_row" where
  "ex_line n = \<lparr>line_book_id = asc ''b1'', line_number = n, line_text = [], line_xml = [], line_speaker = None\<rparr>"

definition two_line_db :: "int \<Rightarrow> int \<Rightarrow> catalogue_db" where
  "two_line_db s e =
     \<lparr>authors = Map.empty, works = Map.empty,
      corpus = \<lparr>books = [asc ''b1'' \<mapsto> \<lparr>book_id = asc ''b1'', book_work_id = asc ''w1'', book_number = 1,
                   book_label = [], book_start_line = 1, book_end_line = 2, book_line_count = 2\<rparr>],
                text_lines = [ex_line 1, ex_line 2], words = []\<rparr>,
      trans_segments = [\<lparr>tr_book_id = asc ''b1'', tr_start = s, tr_end = e, tr_text = asc ''text'',
                          tr_translator = [], tr_speaker = None\<rparr>]\<rparr>"

section \<open>The phases of a book\<close>

lemma set_lookup_insert [simp]: "set (lookup_insert x t) = insert x (set t)"
  by (auto simp: lookup_insert_def)

lemma distinct_lookup_insert [simp]: "distinct t \<Longrightarrow> distinct (lookup_insert x t)"
  by (simp add: lookup_insert_def)

lemma set_fold_lines:
  "set (foldl (\<lambda>t l. if l \<in> V then lookup_insert (b, l, i) t else t) t ls) =
   set t \<union> {(b, l, i) | l. l \<in> set ls \<and> l \<in> V}"
  by (induction ls arbitrary: t) auto

lemma set_map_segments:
  "set (foldl (map_segment b valid nm mt minl maxl) t segs) =
   set t \<union> {(b, l, i) | l i. \<exists>r. (i, r) \<in> set segs \<and> l \<in> set (segment_lines nm mt minl maxl r) \<and> l \<in> set valid}"
proof (induction segs arbitrary: t)
  case (Cons ir segs)
  show ?case
    by (simp only: foldl_Cons Cons.IH) (cases ir, auto simp: map_segment_def set_fold_lines)
qed simp

lemma set_nearest_fill:
  "set (foldl (nearest_fill b segs) t ls) =
   set t \<union> {(b, l, i) | l i. l \<in> set ls \<and> nearest_segment segs l = Some i \<and> i \<noteq> 0}"
  by (induction ls arbitrary: t) (auto simp: nearest_fill_def split: option.splits)

lemma distinct_fold_lines:
  "distinct t \<Longrightarrow> distinct (foldl (\<lambda>t l. if l \<in> V then lookup_insert (b, l, i) t else t) t ls)"
  by (induction ls arbitrary: t) auto

lemma distinct_map_segments: "distinct t \<Longrightarrow> distinct (foldl (map_segment b valid nm mt minl maxl) t segs)"
  by (induction segs arbitrary: t) (simp_all add: map_segment_def distinct_fold_lines)

lemma distinct_nearest_fill: "distinct t \<Longrightarrow> distinct (foldl (nearest_fill b segs) t ls)"
  by (induction ls arbitrary: t) (simp_all add: nearest_fill_def split: option.splits)

lemma distinct_lookup_book: "distinct t \<Longrightarrow> distinct (lookup_book db t b)"
  by (simp add: lookup_book_def Let_def distinct_map_segments distinct_nearest_fill)

section \<open>The nearest segment\<close>

definition seg_dist :: "int \<Rightarrow> trans_row \<Rightarrow> int" where
  "seg_dist l r = min \<bar>l - tr_start r\<bar> \<bar>l - tr_end r\<bar>"

lemma nearest_fold_mem:
  "(case fst st of None \<Rightarrow> True | Some i \<Rightarrow> \<exists>r. (i, r) \<in> S \<and> seg_dist l r < 100) \<Longrightarrow> set segs \<subseteq> S \<Longrightarrow>
   (case fst (foldl (nearest_step l) st segs) of None \<Rightarrow> True | Some i \<Rightarrow> \<exists>r. (i, r) \<in> S \<and> seg_dist l r < 100)"
proof (induction segs arbitrary: st)
  case (Cons ir segs)
  have "case fst (nearest_step l st ir) of None \<Rightarrow> True | Some i \<Rightarrow> \<exists>r. (i, r) \<in> S \<and> seg_dist l r < 100"
    using Cons.prems by (cases ir) (auto simp: nearest_step_def seg_dist_def Let_def)
  then show ?case using Cons.IH Cons.prems(2) by simp
qed simp

lemma nearest_segment_mem:
  "nearest_segment segs l = Some i \<Longrightarrow> \<exists>r. (i, r) \<in> set segs \<and> seg_dist l r < 100"
  using nearest_fold_mem [where st="(None, None)" and S="set segs" and l=l and segs=segs] by (simp add: nearest_segment_def)

lemma nearest_fold_found:
  "(fst st = None \<longleftrightarrow> snd st = None) \<Longrightarrow> (fst st \<noteq> None \<or> (\<exists>ir \<in> set segs. seg_dist l (snd ir) < 100)) \<Longrightarrow>
   fst (foldl (nearest_step l) st segs) \<noteq> None"
proof (induction segs arbitrary: st)
  case (Cons ir segs)
  have "fst (nearest_step l st ir) = None \<longleftrightarrow> snd (nearest_step l st ir) = None"
    using Cons.prems(1) by (auto simp: nearest_step_def Let_def)
  moreover have "fst (nearest_step l st ir) \<noteq> None \<or> (\<exists>ir \<in> set segs. seg_dist l (snd ir) < 100)"
    using Cons.prems by (auto simp: nearest_step_def seg_dist_def Let_def split: option.splits)
  ultimately show ?case using Cons.IH by simp
qed simp

lemma nearest_segment_found:
  "(i, r) \<in> set segs \<Longrightarrow> seg_dist l r < 100 \<Longrightarrow> nearest_segment segs l \<noteq> None"
  using nearest_fold_found [where st="(None, None)" and segs=segs and l=l] by (force simp: nearest_segment_def)

section \<open>The table\<close>

lemma book_rows_ne: "b \<in> set (map tr_book_id (trans_segments db)) \<Longrightarrow> book_rows db b \<noteq> []"
proof -
  assume "b \<in> set (map tr_book_id (trans_segments db))"
  then obtain r where r: "r \<in> set (trans_segments db)" "tr_book_id r = b" by auto
  then have "r \<in> snd ` set (rows_of (trans_segments db))" by (metis map_snd_rows_of set_map)
  then obtain i where "(i, r) \<in> set (rows_of (trans_segments db))" by force
  then show ?thesis using r(2) by (auto simp: book_rows_def filter_empty_conv)
qed

lemma lookup_books_props:
  "b \<in> set (lookup_books db) \<Longrightarrow>
   book_rows db b \<noteq> [] \<and> book_line_numbers (corpus db) b \<noteq> [] \<and> books (corpus db) b \<noteq> None"
  using book_rows_ne by (auto simp: lookup_books_def)

lemma set_lookup_segs [simp]: "set (lookup_segs db b) = set (book_rows db b)"
  by (simp add: lookup_segs_def)

lemma book_rows_id: "(i, r) \<in> set (book_rows db b) \<Longrightarrow> i \<noteq> 0"
  using book_rows_book rows_of_nth by fastforce

lemma lookup_book_set:
  assumes b: "b \<in> set (lookup_books db)" and t: "\<forall>x \<in> set t. fst x \<noteq> b"
  shows "set (lookup_book db t b) = set t \<union> {x. fst x = b \<and> lookup_spec db x}"
proof -
  define segs where "segs = lookup_segs db b"
  define valid where "valid = book_line_numbers (corpus db) b"
  define minl where "minl = Min (set valid)"
  define maxl where "maxl = Max (set valid)"
  define mt where "mt = Max (set (map (\<lambda>(i, r). tr_end r) segs))"
  define nm where "nm = needs_mapping mt maxl"
  have p: "lookup_params db b = (nm, mt, minl, maxl)"
    by (simp add: lookup_params_def Let_def nm_def mt_def minl_def maxl_def segs_def valid_def)
  have sl: "seg_lines db b r = segment_lines nm mt minl maxl r" for r
    by (simp add: seg_lines_def p)
  define t1 where "t1 = foldl (map_segment b valid nm mt minl maxl) t segs"
  define M where "M = {(b, l, i) | l i. \<exists>r. (i, r) \<in> set segs \<and> l \<in> set (segment_lines nm mt minl maxl r) \<and> l \<in> set valid}"
  have t1: "set t1 = set t \<union> M" by (simp add: t1_def M_def set_map_segments)
  have ne: "segs \<noteq> []"
  proof
    assume "segs = []"
    then have "set (book_rows db b) = {}" by (metis set_lookup_segs segs_def set_empty)
    then show False using lookup_books_props [OF b] by simp
  qed
  have lb: "lookup_book db t b =
      foldl (nearest_fill b segs) t1
        (filter (\<lambda>l. l \<notin> set (map (\<lambda>(b', l', i). l') (filter (\<lambda>(b', l', i). b' = b) t1))) valid)"
    unfolding lookup_book_def Let_def segs_def [symmetric] valid_def [symmetric] minl_def [symmetric]
      maxl_def [symmetric] mt_def [symmetric] nm_def [symmetric] t1_def [symmetric]
    using ne by simp
  have f: "set (filter (\<lambda>(b', l', i). b' = b) t1) = M"
    using t unfolding set_filter t1 by (auto simp: M_def)
  have um: "l \<notin> set (map (\<lambda>(b', l', i). l') (filter (\<lambda>(b', l', i). b' = b) t1)) \<longleftrightarrow>
            (\<forall>(j, r) \<in> set segs. l \<notin> set (segment_lines nm mt minl maxl r)) \<or> l \<notin> set valid" for l
    unfolding set_map f by (auto simp: M_def image_iff)
  have nz: "nearest_segment segs l = Some i \<Longrightarrow> i \<noteq> 0" for l i
    using nearest_segment_mem book_rows_id by (fastforce simp: segs_def)
  have "set (lookup_book db t b) = set t \<union> M \<union>
      {(b, l, i) | l i. l \<in> set valid \<and> (\<forall>(j, r) \<in> set segs. l \<notin> set (segment_lines nm mt minl maxl r)) \<and>
                        nearest_segment segs l = Some i}"
    unfolding lb set_nearest_fill t1 set_filter um using nz by blast
  also have "\<dots> = set t \<union> {x. fst x = b \<and> lookup_spec db x}"
  proof -
    have "(b, l, i) \<in> M \<longleftrightarrow> l \<in> set valid \<and> (\<exists>r. (i, r) \<in> set (book_rows db b) \<and> l \<in> set (seg_lines db b r))" for l i
      by (auto simp: M_def sl segs_def)
    moreover have "x \<in> M \<Longrightarrow> fst x = b" for x by (auto simp: M_def)
    moreover have "lookup_spec db (b, l, i) \<longleftrightarrow> l \<in> set valid \<and>
        ((\<exists>r. (i, r) \<in> set (book_rows db b) \<and> l \<in> set (seg_lines db b r)) \<or>
         ((\<forall>(j, r) \<in> set segs. l \<notin> set (segment_lines nm mt minl maxl r)) \<and> nearest_segment segs l = Some i))" for l i
      using b by (simp add: lookup_spec_def sl segs_def valid_def)
    ultimately show ?thesis by (auto simp: set_eq_iff)
  qed
  finally show ?thesis .
qed

lemma set_lookup_fold:
  "distinct bs \<Longrightarrow> set bs \<subseteq> set (lookup_books db) \<Longrightarrow> \<forall>x \<in> set t. fst x \<notin> set bs \<Longrightarrow>
   set (foldl (lookup_book db) t bs) = set t \<union> {x. fst x \<in> set bs \<and> lookup_spec db x}"
proof (induction bs arbitrary: t)
  case (Cons b bs)
  have s: "set (lookup_book db t b) = set t \<union> {x. fst x = b \<and> lookup_spec db x}"
    using Cons.prems by (intro lookup_book_set) auto
  then have "\<forall>x \<in> set (lookup_book db t b). fst x \<notin> set bs" using Cons.prems by auto
  then show ?case using Cons.IH [of "lookup_book db t b"] Cons.prems s by auto
qed simp

lemma lookup_table_rows: "x \<in> set (create_translation_lookup_table db) \<longleftrightarrow> lookup_spec db x"
proof -
  have "distinct (lookup_books db)" by (simp add: lookup_books_def)
  then have "set (create_translation_lookup_table db) = {x. fst x \<in> set (lookup_books db) \<and> lookup_spec db x}"
    by (simp add: create_translation_lookup_table_def set_lookup_fold)
  then show ?thesis by (cases x) (auto simp: lookup_spec_def)
qed

lemma lookup_two_lines: "create_translation_lookup_table (two_line_db 1 2) = [(asc ''b1'', 1, 1), (asc ''b1'', 2, 1)]"
proof -
  have "needs_mapping 2 2 = False" by (simp add: needs_mapping_def float_eval flt_int_def Let_def)
  then show ?thesis
    by (simp add: create_translation_lookup_table_def lookup_books_def two_line_db_def book_line_numbers_def
        ex_line_def lookup_book_def lookup_segs_def book_rows_def rows_of_def map_segment_def segment_lines_def
        lookup_insert_def nearest_fill_def asc_def Let_def upto.simps image_iff)
qed

text \<open>the table the loop builds has no duplicate row, so its
  \<open>INSERT OR IGNORE\<close> statements never meet the primary key.\<close>

theorem lookup_table_distinct: "distinct (create_translation_lookup_table db)"
proof -
  have "distinct (foldl (lookup_book db) t bs)" if "distinct t" for t bs
    using that by (induction bs arbitrary: t) (simp_all add: distinct_lookup_book)
  then show ?thesis by (simp add: create_translation_lookup_table_def)
qed

text \<open>C5: every row of \<open>translation_lookup\<close> satisfies the
  table's foreign keys and more: its book exists, its line is a line of that book,
  and its segment is a translation segment of that same book.\<close>

theorem lookup_rows_reference_segments:
  assumes "(b, l, i) \<in> set (create_translation_lookup_table db)"
  shows "books (corpus db) b \<noteq> None \<and> l \<in> set (book_line_numbers (corpus db) b) \<and>
         (\<exists>r. (i, r) \<in> set (rows_of (trans_segments db)) \<and> tr_book_id r = b)"
proof -
  have sp: "lookup_spec db (b, l, i)" using assms lookup_table_rows by blast
  then obtain r where "(i, r) \<in> set (book_rows db b)"
    using nearest_segment_mem [of "lookup_segs db b" l i] by (auto simp: lookup_spec_def)
  then have "(i, r) \<in> set (rows_of (trans_segments db)) \<and> tr_book_id r = b" by (rule book_rows_book)
  then show ?thesis using sp lookup_books_props by (auto simp: lookup_spec_def)
qed

theorem lookup_rows_reference_segments_witness:
  "books (corpus (two_line_db 1 2)) (asc ''b1'') \<noteq> None \<and> 2 \<in> set (book_line_numbers (corpus (two_line_db 1 2)) (asc ''b1'')) \<and>
   (\<exists>r. (1, r) \<in> set (rows_of (trans_segments (two_line_db 1 2))) \<and> tr_book_id r = asc ''b1'')"
  by (rule lookup_rows_reference_segments) (simp add: lookup_two_lines)

text \<open>C6: a line of a book with translations that lies within 99
  lines of an end point of one of the book's segments gets a segment.\<close>

theorem lookup_near_lines_mapped:
  assumes "b \<in> set (lookup_books db)" "l \<in> set (book_line_numbers (corpus db) b)"
    and "(j, r) \<in> set (book_rows db b)" "min \<bar>l - tr_start r\<bar> \<bar>l - tr_end r\<bar> < 100"
  shows "\<exists>i. (b, l, i) \<in> set (create_translation_lookup_table db)"
proof (cases "\<exists>(k, r') \<in> set (book_rows db b). l \<in> set (seg_lines db b r')")
  case True
  then show ?thesis using assms(1,2) by (auto simp: lookup_table_rows lookup_spec_def)
next
  case False
  obtain i where "nearest_segment (lookup_segs db b) l = Some i"
    using nearest_segment_found [of j r "lookup_segs db b" l] assms(3,4) by (auto simp: seg_dist_def)
  then show ?thesis using False assms(1,2) by (auto simp: lookup_table_rows lookup_spec_def)
qed

theorem lookup_near_lines_mapped_witness:
  "\<exists>i. (asc ''b1'', 2, i) \<in> set (create_translation_lookup_table (two_line_db 1 2))"
proof (rule lookup_near_lines_mapped)
  show "asc ''b1'' \<in> set (lookup_books (two_line_db 1 2))"
    by (simp add: lookup_books_def two_line_db_def book_line_numbers_def ex_line_def)
  show "2 \<in> set (book_line_numbers (corpus (two_line_db 1 2)) (asc ''b1''))"
    by (simp add: two_line_db_def book_line_numbers_def ex_line_def)
  show "(1, \<lparr>tr_book_id = asc ''b1'', tr_start = 1, tr_end = 2, tr_text = asc ''text'', tr_translator = [], tr_speaker = None\<rparr>)
          \<in> set (book_rows (two_line_db 1 2) (asc ''b1''))"
    by (simp add: book_rows_def rows_of_def two_line_db_def)
qed simp

text \<open>C7: the proportional spread is guarded by
  \<open>max_trans_line < 500\<close>, so a book whose translation segments are numbered from 500 on
  and at least 100 past every line of the book (Stephanus or Bekker references) goes to
  the direct branch, although \<open>needs_mapping\<close> finds its numbering foreign: none of its
  lines is a candidate line of a segment or within 100 of one, and the book gets no
  lookup row at all.\<close>

theorem lookup_large_numbering_unmapped:
  assumes far: "\<forall>(j, r) \<in> set (book_rows db b). 500 \<le> tr_end r \<and> tr_start r \<le> tr_end r \<and>
                  (\<forall>l' \<in> set (book_line_numbers (corpus db) b). l' + 100 \<le> tr_start r)"
  shows "(b, l, i) \<notin> set (create_translation_lookup_table db)"
proof
  assume "(b, l, i) \<in> set (create_translation_lookup_table db)"
  then have sp: "lookup_spec db (b, l, i)" by (simp add: lookup_table_rows)
  then have l: "l \<in> set (book_line_numbers (corpus db) b)" and bb: "b \<in> set (lookup_books db)"
    by (simp_all add: lookup_spec_def)
  from bb have "book_rows db b \<noteq> []" by (simp add: lookup_books_props)
  then obtain j r where jr: "(j, r) \<in> set (book_rows db b)" by (metis list.set_sel(1) surj_pair)
  have "tr_end r \<le> Max (set (map (\<lambda>(i, r). tr_end r) (lookup_segs db b)))"
    using jr by (intro Max_ge) force+
  with far jr have "\<not> Max (set (map (\<lambda>(i, r). tr_end r) (lookup_segs db b))) < 500" by auto
  then have sl: "seg_lines db b r' = [tr_start r' .. tr_end r']" for r'
    by (simp add: seg_lines_def lookup_params_def segment_lines_def Let_def)
  have no: "l \<notin> set (seg_lines db b r')" if "(j', r') \<in> set (book_rows db b)" for j' r'
    using far that l by (fastforce simp: sl)
  have nd: "\<not> seg_dist l r' < 100" if "(j', r') \<in> set (book_rows db b)" for j' r'
    using far that l by (fastforce simp: seg_dist_def)
  from sp no nd show False
    using nearest_segment_mem [of "lookup_segs db b" l i] by (fastforce simp: lookup_spec_def)
qed

theorem lookup_large_numbering_unmapped_witness:
  "(asc ''b1'', 1, 1) \<notin> set (create_translation_lookup_table (two_line_db 1000 1000))"
  by (rule lookup_large_numbering_unmapped)
     (simp add: book_rows_def rows_of_def two_line_db_def book_line_numbers_def ex_line_def)

end
