(* ===== verification/Mapping_Scripts.thy ===== *)
theory Mapping_Scripts
  imports Build_Script
begin

text \<open>
  The stand-alone passes over \<open>lemma_map\<close> in \<open>src/data-prep\<close>:
  \<open>add_inflection_mappings.py\<close> and \<open>add_declension_mappings.py\<close> (Wiktionary rows,
  tested on the primary key before the \<open>INSERT\<close>), \<open>add_nu_movable_variants.py\<close>
  (variants tested on the form alone) and \<open>add_adverb_mappings.py\<close> (fixed tables of
  common forms, tested on the normalised form as in \<open>build_database.py\<close>). Each script
  commits once at its end, so a raised exception leaves the table as it was: the
  \<open>Inl\<close> results. A JSON file is given as the list of its decoded entries.
\<close>

datatype script_error = KeyError | SqlError sql_error

section \<open>add_inflection_mappings.py\<close>

text \<open>An entry \<open>info\<close>: \<open>info['lemma_normalized']\<close> (\<open>None\<close> when the key is missing) and
  \<open>info.get('morphology')\<close> (\<open>[]\<close> when absent).\<close>

record infl_info =
  ii_lemma_normalized :: "ustr option"
  ii_morphology :: "string list"

text \<open>The \<open>INSERT\<close> names no confidence: the column default 1.0 applies.\<close>

definition infl_mapping_row :: "ustr \<Rightarrow> ustr \<Rightarrow> infl_info \<Rightarrow> lemma_row" where
  "infl_mapping_row w l i =
     \<lparr>word_form = w, word_normalized = w, lemma_col = l, confidence = 1,
      source = ''wiktionary:inflection_of'',
      morph_info = (if ii_morphology i = [] then None else Some (py_join '';'' (ii_morphology i)))\<rparr>"

text \<open>The table and the counters \<open>added\<close> and \<open>skipped\<close>.\<close>

definition infl_mapping_step ::
  "script_error + lemma_table \<times> nat \<times> nat \<Rightarrow> ustr \<times> infl_info \<Rightarrow> script_error + lemma_table \<times> nat \<times> nat" where
  "infl_mapping_step st e =
     (case st of
        Inl err \<Rightarrow> Inl err
      | Inr (t, a, sk) \<Rightarrow>
          (case ii_lemma_normalized (snd e) of
             None \<Rightarrow> Inl KeyError
           | Some l \<Rightarrow>
               if (fst e, l) \<in> dom t then Inr (t, a, sk + 1)
               else (case sql_insert (infl_mapping_row (fst e) l (snd e)) t of
                       Inl x \<Rightarrow> Inl (SqlError x)
                     | Inr t' \<Rightarrow> Inr (t', a + 1, sk))))"

definition add_inflection_mappings ::
  "(ustr \<times> infl_info) list \<Rightarrow> lemma_table \<Rightarrow> script_error + lemma_table \<times> nat \<times> nat" where
  "add_inflection_mappings ms t = foldl infl_mapping_step (Inr (t, 0, 0)) ms"

section \<open>add_declension_mappings.py\<close>

text \<open>\<open>mapping['word_form']\<close>, \<open>mapping['lemma']\<close> and the \<open>mapping.get\<close> fields with their defaults.\<close>

record decl_mapping =
  dm_word_form :: "ustr option"
  dm_lemma :: "ustr option"
  dm_case :: "string option"
  dm_source :: "string option"
  dm_confidence :: "real option"

definition decl_mapping_row :: "ustr \<Rightarrow> ustr \<Rightarrow> decl_mapping \<Rightarrow> lemma_row" where
  "decl_mapping_row w l m =
     \<lparr>word_form = w, word_normalized = w, lemma_col = l,
      confidence = (case dm_confidence m of None \<Rightarrow> 0.9 | Some c \<Rightarrow> c),
      source = (case dm_source m of None \<Rightarrow> ''elwiktionary:declension:unknown'' | Some s \<Rightarrow> s),
      morph_info = Some (case dm_case m of None \<Rightarrow> [] | Some c \<Rightarrow> c)\<rparr>"

definition decl_mapping_step ::
  "script_error + lemma_table \<times> nat \<times> nat \<Rightarrow> decl_mapping \<Rightarrow> script_error + lemma_table \<times> nat \<times> nat" where
  "decl_mapping_step st m =
     (case st of
        Inl err \<Rightarrow> Inl err
      | Inr (t, a, sk) \<Rightarrow>
          (case (dm_word_form m, dm_lemma m) of
             (Some w, Some l) \<Rightarrow>
               if (w, l) \<in> dom t then Inr (t, a, sk + 1)
               else (case sql_insert (decl_mapping_row w l m) t of
                       Inl x \<Rightarrow> Inl (SqlError x)
                     | Inr t' \<Rightarrow> Inr (t', a + 1, sk))
           | _ \<Rightarrow> Inl KeyError))"

definition add_declension_mappings ::
  "decl_mapping list \<Rightarrow> lemma_table \<Rightarrow> script_error + lemma_table \<times> nat \<times> nat" where
  "add_declension_mappings ms t = foldl decl_mapping_step (Inr (t, 0, 0)) ms"

section \<open>add_nu_movable_variants.py\<close>

text \<open>SQLite \<open>LIKE\<close>: \<open>%\<close> matches any run, \<open>_\<close> one character, letters of ASCII compare
  without case, every other character exactly.\<close>

definition ascii_fold :: "char \<Rightarrow> char" where
  "ascii_fold c = (let n = (of_char c :: nat) in if 65 \<le> n \<and> n \<le> 90 then char_of (n + 32) else c)"

fun like_match :: "string \<Rightarrow> string \<Rightarrow> bool" where
  "like_match [] s = (s = [])"
| "like_match (c # p) s =
     (if c = CHR ''%'' then like_match p s \<or> (case s of [] \<Rightarrow> False | x # s' \<Rightarrow> like_match (c # p) s')
      else case s of [] \<Rightarrow> False
                   | x # s' \<Rightarrow> (c = CHR ''_'' \<or> ascii_fold x = ascii_fold c) \<and> like_match p s')"

text \<open>The first query (lines 18-23); a \<open>NULL\<close> morphology matches no \<open>LIKE\<close>.\<close>

definition third_person_candidate :: "lemma_row \<Rightarrow> bool" where
  "third_person_candidate r =
     (source r \<in> {''algorithmic'', ''enwiktionary:ancient-greek'', ''wiktionary:inflection_of''} \<and>
      (case morph_info r of
         None \<Rightarrow> False
       | Some m \<Rightarrow> like_match ''%3%s%'' m \<or> like_match ''%3%p%'' m \<or> like_match ''third%'' m))"

definition nu_script_row :: "lemma_row \<Rightarrow> ustr \<Rightarrow> real \<Rightarrow> string option \<Rightarrow> lemma_row" where
  "nu_script_row r v c m =
     \<lparr>word_form = v, word_normalized = v, lemma_col = lemma_col r, confidence = c,
      source = ''generated:nu-movable'', morph_info = m\<rparr>"

text \<open>The variant of the first loop (lines 30-56): nu added after a final epsilon, or removed after a final epsilon-nu.\<close>

definition third_person_variant :: "lemma_row \<Rightarrow> lemma_row option" where
  "third_person_variant r =
     (if py_endswith (word_form r) [0x3B5] \<and> \<not> py_endswith (word_form r) [0x3B5, 0x3BD]
      then Some (nu_script_row r (word_form r @ [0x3BD]) 0.9 (morph_info r))
      else if py_endswith (word_form r) [0x3B5, 0x3BD]
      then Some (nu_script_row r (butlast (word_form r)) 0.9 (morph_info r))
      else None)"

text \<open>The second query and its variant (lines 60-81).\<close>

definition epsilon_candidate :: "lemma_row \<Rightarrow> bool" where
  "epsilon_candidate r =
     (py_endswith (word_form r) [0x3B5] \<and> 3 < length (word_form r) \<and>
      source r \<in> {''algorithmic'', ''enwiktionary:ancient-greek''})"

definition epsilon_variant :: "lemma_row \<Rightarrow> lemma_row" where
  "epsilon_variant r =
     nu_script_row r (word_form r @ [0x3BD]) 0.8
       (Some (case morph_info r of Some m \<Rightarrow> if m \<noteq> [] then m else ''3 s (nu-movable)'' | None \<Rightarrow> ''3 s (nu-movable)''))"

text \<open>\<open>SELECT COUNT(*) FROM lemma_map WHERE word_form = ?\<close>, then a plain \<open>INSERT\<close> when it is 0.\<close>

definition insert_if_form_new :: "lemma_row \<Rightarrow> lemma_table \<Rightarrow> sql_error + lemma_table \<times> bool" where
  "insert_if_form_new r t =
     (if exists_row (\<lambda>x. word_form x = word_form r) t then Inr (t, False)
      else (case sql_insert r t of Inl e \<Rightarrow> Inl e | Inr t' \<Rightarrow> Inr (t', True)))"

definition form_step :: "sql_error + lemma_table \<times> nat \<Rightarrow> lemma_row option \<Rightarrow> sql_error + lemma_table \<times> nat" where
  "form_step st ro =
     (case st of
        Inl e \<Rightarrow> Inl e
      | Inr (t, n) \<Rightarrow> (case ro of
                        None \<Rightarrow> Inr (t, n)
                      | Some r \<Rightarrow> (case insert_if_form_new r t of
                                    Inl e \<Rightarrow> Inl e
                                  | Inr (t', b) \<Rightarrow> Inr (t', if b then n + 1 else n))))"

text \<open>\<open>main\<close>: both loops in one transaction; the second query reads the table after the
  first loop. \<open>scan\<close> is the order in which SQLite returns the keys of a table.\<close>

definition add_nu_script :: "(lemma_table \<Rightarrow> lemma_key list) \<Rightarrow> lemma_table \<Rightarrow> sql_error + lemma_table \<times> nat" where
  "add_nu_script scan t =
     (case foldl form_step (Inr (t, 0))
             (map third_person_variant (filter third_person_candidate (List.map_filter t (scan t)))) of
        Inl e \<Rightarrow> Inl e
      | Inr (t1, n1) \<Rightarrow>
          foldl form_step (Inr (t1, n1))
            (map (\<lambda>r. Some (epsilon_variant r)) (filter epsilon_candidate (List.map_filter t1 (scan t1)))))"

section \<open>add_adverb_mappings.py\<close>

text \<open>The tables of lines 25-107 and 131-138, in the transliteration of \<open>gk\<close>. (The
  script's own \<open>normalize_greek\<close>, lines 9-16, is never called.)\<close>

definition adverb_mappings :: "(ustr \<times> ustr \<times> string) list" where
  "adverb_mappings =
    [(gk ''kakws'', gk ''kakos'', ''adverb''),
     (gk ''orqws'', gk ''orqos'', ''adverb''),
     (gk ''kalws'', gk ''kalos'', ''adverb''),
     (gk ''eu'', gk ''eus'', ''adverb''),
     (gk ''safws'', gk ''safhs'', ''adverb''),
     (gk ''alhqws'', gk ''alhqhs'', ''adverb''),
     (gk ''omoiws'', gk ''omoios'', ''adverb''),
     (gk ''htton'', gk ''hsswn'', ''adverb_comparative''),
     (gk ''mallon'', gk ''mala'', ''adverb_comparative'')]"
definition superlative_mappings :: "(ustr \<times> ustr \<times> string) list" where
  "superlative_mappings =
    [(gk ''malista'', gk ''mala'', ''adverb_superlative''),
     (gk ''prwton'', gk ''prwtos'', ''neuter_acc_sg''),
     (gk ''prwtos'', gk ''prwtos'', ''lemma''),
     (gk ''megiston'', gk ''megas'', ''superlative_neut_acc_sg'')]"
definition pronoun_mappings :: "(ustr \<times> ustr \<times> string) list" where
  "pronoun_mappings =
    [(gk ''hmin'', gk ''egw'', ''1p_dat_pl''),
     (gk ''hmas'', gk ''egw'', ''1p_acc_pl''),
     (gk ''hmeis'', gk ''egw'', ''1p_nom_pl''),
     (gk ''umin'', gk ''su'', ''2p_dat_pl''),
     (gk ''umas'', gk ''su'', ''2p_acc_pl''),
     (gk ''umeis'', gk ''su'', ''2p_nom_pl''),
     (gk ''umwn'', gk ''su'', ''2p_gen_pl''),
     (gk ''emoi'', gk ''egw'', ''1s_dat''),
     (gk ''eme'', gk ''egw'', ''1s_acc''),
     (gk ''mou'', gk ''egw'', ''1s_gen''),
     (gk ''moi'', gk ''egw'', ''1s_dat''),
     (gk ''sou'', gk ''su'', ''2s_gen''),
     (gk ''soi'', gk ''su'', ''2s_dat''),
     (gk ''se'', gk ''su'', ''2s_acc'')]"
definition particle_mappings :: "(ustr \<times> ustr \<times> string) list" where
  "particle_mappings =
    [(gk ''oux'', gk ''ou'', ''negative_rough''),
     (gk ''ouxi'', gk ''ou'', ''negative_emphatic''),
     (gk ''mh'', gk ''mh'', ''negative_subjunctive''),
     (gk ''mht'', gk ''mh'', ''negative_elided''),
     (gk ''ouk'', gk ''ou'', ''negative_smooth''),
     (gk ''oud'', gk ''oude'', ''conjunction_elided'')]"
definition preposition_mappings :: "(ustr \<times> ustr \<times> string) list" where
  "preposition_mappings =
    [(gk ''up'', gk ''upo'', ''preposition_elided''),
     (gk ''ap'', gk ''apo'', ''preposition_elided''),
     (gk ''ef'', gk ''epi'', ''preposition_elided_rough''),
     (gk ''ep'', gk ''epi'', ''preposition_elided''),
     (gk ''ec'', gk ''ek'', ''preposition_prevocalic''),
     (gk ''eis'', gk ''eis'', ''preposition_acc''),
     (gk ''ek'', gk ''ek'', ''preposition_gen''),
     (gk ''pros'', gk ''pros'', ''preposition_acc'')]"
definition particle_conj_mappings :: "(ustr \<times> ustr \<times> string) list" where
  "particle_conj_mappings =
    [(gk ''autar'', gk ''autar'', ''particle''),
     (gk ''mentoi'', gk ''mentoi'', ''particle''),
     (gk ''egwge'', gk ''egw'', ''pronoun_emphatic''),
     (gk ''kaqaper'', gk ''kaqaper'', ''conjunction''),
     (gk ''epeidh'', gk ''epeidh'', ''conjunction''),
     (gk ''wst'', gk ''wste'', ''conjunction_elided''),
     (gk ''tod'', gk ''ode'', ''demonstrative_neut_acc''),
     (gk ''tad'', gk ''ode'', ''demonstrative_neut_acc_pl''),
     (gk ''tout'', gk ''outos'', ''demonstrative_neut_nom_acc''),
     (gk ''talla'', gk ''allos'', ''pronoun_neut_acc_pl_crasis'')]"
definition verb_mappings :: "(ustr \<times> ustr \<times> string) list" where
  "verb_mappings =
    [(gk ''exonta'', gk ''exw'', ''participle_pres_act_masc_acc_sg''),
     (gk ''exontes'', gk ''exw'', ''participle_pres_act_masc_nom_pl''),
     (gk ''prattein'', gk ''prassw'', ''infinitive_pres_act''),
     (gk ''xairein'', gk ''xairw'', ''infinitive_pres_act''),
     (gk ''fronein'', gk ''fronew'', ''infinitive_pres_act''),
     (gk ''genomenhs'', gk ''gignomai'', ''participle_aor_mid_fem_gen_sg'')]"
definition roman_names :: "(ustr \<times> ustr \<times> string) list" where
  "roman_names =
    [(gk ''rwmaiwn'', gk ''rwmaios'', ''proper_noun_gen_pl''),
     (gk ''kaisaros'', gk ''kaisar'', ''proper_noun_gen_sg''),
     (gk ''kaisar'', gk ''kaisar'', ''proper_noun_nom''),
     (gk ''pomphion'', gk ''pomphios'', ''proper_noun_acc_sg''),
     (gk ''pomphios'', gk ''pomphios'', ''proper_noun_nom''),
     (gk ''pomphiou'', gk ''pomphios'', ''proper_noun_gen_sg'')]"

definition all_mappings :: "(ustr \<times> ustr \<times> string) list" where
  "all_mappings = adverb_mappings @ superlative_mappings @ pronoun_mappings @ particle_mappings @
                  preposition_mappings @ particle_conj_mappings @ verb_mappings"

definition manual_row :: "string \<Rightarrow> real \<Rightarrow> ustr \<times> ustr \<times> string \<Rightarrow> lemma_row option" where
  "manual_row src c e =
     (case e of (w, l, m) \<Rightarrow>
        Some \<lparr>word_form = w, word_normalized = w, lemma_col = l, confidence = c, source = src, morph_info = Some m\<rparr>)"

text \<open>\<open>add_morphological_mappings\<close>: both loops test \<open>(word_normalized, lemma)\<close> and insert; the
  dictionary check after the commit only prints.\<close>

definition add_morphological_mappings :: "lemma_table \<Rightarrow> sql_error + lemma_table \<times> nat" where
  "add_morphological_mappings t =
     (case insert_rows (map (manual_row ''manual_common_forms'' 1) all_mappings) t of
        Inl e \<Rightarrow> Inl e
      | Inr (t1, n1) \<Rightarrow> foldl insert_step (Inr (t1, n1)) (map (manual_row ''proper_nouns'' 0.9) roman_names))"

text \<open>A declension entry with every field, and one whose \<open>word_form\<close> key is missing.\<close>

definition decl_example :: decl_mapping where
  "decl_example = \<lparr>dm_word_form = Some (gk ''logou''), dm_lemma = Some (gk ''logos''), dm_case = Some ''genitive'',
                    dm_source = None, dm_confidence = None\<rparr>"

definition decl_no_form :: decl_mapping where
  "decl_no_form = \<lparr>dm_word_form = None, dm_lemma = Some (gk ''logos''), dm_case = None,
                    dm_source = None, dm_confidence = None\<rparr>"

section \<open>Lemmas\<close>

lemma foldl_decl_Inl [simp]: "foldl decl_mapping_step (Inl e) ms = Inl e"
  by (induction ms) (simp_all add: decl_mapping_step_def)

lemma decl_mapping_fold:
  assumes "table_wf t" "\<forall>m \<in> set ms. dm_word_form m \<noteq> None \<and> dm_lemma m \<noteq> None"
  shows "\<exists>t' a sk. foldl decl_mapping_step (Inr (t, a0, s0)) ms = Inr (t', a, sk) \<and> table_wf t' \<and> t \<subseteq>\<^sub>m t' \<and>
           a + sk = a0 + s0 + length ms \<and> (\<forall>m \<in> set ms. (the (dm_word_form m), the (dm_lemma m)) \<in> dom t')"
  using assms
proof (induction ms arbitrary: t a0 s0)
  case Nil
  then show ?case by (simp add: map_le_refl)
next
  case (Cons m ms)
  obtain w l where wl: "dm_word_form m = Some w" "dm_lemma m = Some l" using Cons.prems(2) by auto
  have k: "key_of (decl_mapping_row w l m) = (w, l)" by (simp add: key_of_def decl_mapping_row_def)
  obtain t1 a1 s1 where st: "decl_mapping_step (Inr (t, a0, s0)) m = Inr (t1, a1, s1)"
    and w1: "table_wf t1" "t \<subseteq>\<^sub>m t1" "(w, l) \<in> dom t1" "a1 + s1 = a0 + s0 + 1"
  proof (cases "(w, l) \<in> dom t")
    case True
    then show ?thesis using that wl Cons.prems(1) by (simp add: decl_mapping_step_def map_le_refl)
  next
    case False
    have "sql_insert (decl_mapping_row w l m) t = Inr (t((w, l) \<mapsto> decl_mapping_row w l m))"
      using False k by (simp add: sql_insert_def)
    moreover have "t \<subseteq>\<^sub>m t((w, l) \<mapsto> decl_mapping_row w l m)" using False by (auto simp: map_le_def)
    ultimately show ?thesis using that wl False sql_insert_wf [OF Cons.prems(1)] by (simp add: decl_mapping_step_def)
  qed
  from Cons.IH [OF w1(1), of a1 s1] Cons.prems(2) obtain t' a sk where
    f: "foldl decl_mapping_step (Inr (t1, a1, s1)) ms = Inr (t', a, sk)" "table_wf t'" "t1 \<subseteq>\<^sub>m t'"
       "a + sk = a1 + s1 + length ms" "\<forall>m \<in> set ms. (the (dm_word_form m), the (dm_lemma m)) \<in> dom t'"
    by auto
  have "(w, l) \<in> dom t'" using w1(3) map_le_implies_dom_le [OF f(3)] by blast
  then show ?case using st f w1 wl map_le_trans by fastforce
qed

lemma insert_if_form_new_ok:
  assumes "table_wf t"
  shows "\<exists>t' b. insert_if_form_new r t = Inr (t', b) \<and> table_wf t' \<and> t \<subseteq>\<^sub>m t'"
proof (cases "exists_row (\<lambda>x. word_form x = word_form r) t")
  case True
  then show ?thesis using assms by (simp add: insert_if_form_new_def map_le_refl) (rule exI [of _ False], simp)
next
  case False
  have free: "key_of r \<notin> dom t"
  proof
    assume "key_of r \<in> dom t"
    then obtain x where x: "t (key_of r) = Some x" by blast
    then have "key_of x = key_of r" using assms unfolding table_wf_def by blast
    then show False using False x ranI unfolding exists_row_def key_of_def by (metis fst_conv)
  qed
  then have ins: "sql_insert r t = Inr (t(key_of r \<mapsto> r))" by (simp add: sql_insert_def)
  have "t \<subseteq>\<^sub>m t(key_of r \<mapsto> r)" using free by (auto simp: map_le_def domIff)
  then show ?thesis using False ins sql_insert_wf [OF assms ins] by (simp add: insert_if_form_new_def) blast
qed

lemma form_step_fold:
  "table_wf t \<Longrightarrow> \<exists>t' m. foldl form_step (Inr (t, n)) rs = Inr (t', m) \<and> table_wf t' \<and> t \<subseteq>\<^sub>m t'"
proof (induction rs arbitrary: t n)
  case Nil
  then show ?case by (simp add: map_le_refl)
next
  case (Cons ro rs)
  obtain t1 n1 where s: "form_step (Inr (t, n)) ro = Inr (t1, n1)" "table_wf t1" "t \<subseteq>\<^sub>m t1"
  proof (cases ro)
    case None
    then show ?thesis using that Cons.prems by (simp add: form_step_def map_le_refl)
  next
    case (Some r)
    then show ?thesis using that insert_if_form_new_ok [OF Cons.prems, of r]
      by (auto simp: form_step_def)
  qed
  from Cons.IH [OF s(2), of n1] obtain t' m where
    "foldl form_step (Inr (t1, n1)) rs = Inr (t', m)" "table_wf t'" "t1 \<subseteq>\<^sub>m t'" by blast
  then show ?case using s map_le_trans by fastforce
qed

lemma manual_row_norm: "manual_row src c e = Some r \<Longrightarrow> row_norm id r"
  by (auto simp: manual_row_def row_norm_def split: prod.splits)

lemma manual_row_mapped:
  "(w, l, m) \<in> set es \<Longrightarrow> rows_result nf (map (manual_row src c) es) t t' \<Longrightarrow>
   exists_row (\<lambda>x. word_normalized x = w \<and> lemma_col x = l) t'"
  by (force simp: rows_result_def mapped_def manual_row_def)

text \<open>C9: when every entry has its \<open>word_form\<close> and \<open>lemma\<close>,
  \<open>add_declension_mappings.py\<close> never raises (its test is on the primary key), keeps the
  table well-formed and every row it had, every entry's key is in the table after it,
  and the counters \<open>added\<close> and \<open>skipped\<close> add up to the number of entries.\<close>

theorem declension_mappings_counts:
  assumes "table_wf t" "\<forall>m \<in> set ms. dm_word_form m \<noteq> None \<and> dm_lemma m \<noteq> None"
  shows "\<exists>t' a sk. add_declension_mappings ms t = Inr (t', a, sk) \<and> table_wf t' \<and> t \<subseteq>\<^sub>m t' \<and>
           a + sk = length ms \<and> (\<forall>m \<in> set ms. (the (dm_word_form m), the (dm_lemma m)) \<in> dom t')"
  using decl_mapping_fold [OF assms, of 0 0] by (simp add: add_declension_mappings_def)

theorem declension_mappings_counts_witness:
  "\<exists>t' a sk. add_declension_mappings [decl_example, decl_example] Map.empty = Inr (t', a, sk) \<and> table_wf t' \<and>
     Map.empty \<subseteq>\<^sub>m t' \<and> a + sk = 2 \<and> (gk ''logou'', gk ''logos'') \<in> dom t'"
proof -
  have "\<exists>t' a sk. add_declension_mappings [decl_example, decl_example] Map.empty = Inr (t', a, sk) \<and>
     table_wf t' \<and> Map.empty \<subseteq>\<^sub>m t' \<and> a + sk = length [decl_example, decl_example] \<and>
     (\<forall>m \<in> set [decl_example, decl_example]. (the (dm_word_form m), the (dm_lemma m)) \<in> dom t')"
    by (rule declension_mappings_counts) (simp_all add: decl_example_def)
  then show ?thesis by (simp add: decl_example_def numeral_2_eq_2)
qed

text \<open>\<open>mapping['word_form']\<close> raises \<open>KeyError\<close> on an entry
  without that key; nothing catches it, so the script ends without committing any of
  the rows it inserted before.\<close>

theorem declension_missing_key_aborts:
  assumes "table_wf t" "\<forall>m \<in> set ms1. dm_word_form m \<noteq> None \<and> dm_lemma m \<noteq> None" "dm_word_form m = None"
  shows "add_declension_mappings (ms1 @ m # ms2) t = Inl KeyError"
proof -
  obtain t' a sk where "foldl decl_mapping_step (Inr (t, 0, 0)) ms1 = Inr (t', a, sk)"
    using decl_mapping_fold [OF assms(1,2), of 0 0] by blast
  then show ?thesis using assms(3) by (simp add: add_declension_mappings_def decl_mapping_step_def)
qed

theorem declension_missing_key_aborts_witness:
  "add_declension_mappings ([decl_example] @ decl_no_form # [decl_example]) Map.empty = Inl KeyError"
  by (rule declension_missing_key_aborts) (simp_all add: decl_example_def decl_no_form_def)

text \<open>C8: \<open>add_nu_movable_variants.py\<close> tests a variant by its form alone,
  so its plain \<open>INSERT\<close> can never meet the primary key: on any well-formed table
  both loops run to the end, and the table stays well-formed and keeps every row.\<close>

theorem nu_script_safe:
  assumes "table_wf t"
  shows "\<exists>t' n. add_nu_script scan t = Inr (t', n) \<and> table_wf t' \<and> t \<subseteq>\<^sub>m t'"
proof -
  obtain t1 n1 where 1: "foldl form_step (Inr (t, 0))
      (map third_person_variant (filter third_person_candidate (List.map_filter t (scan t)))) = Inr (t1, n1)"
    "table_wf t1" "t \<subseteq>\<^sub>m t1"
    using form_step_fold [OF assms] by blast
  obtain t2 n2 where 2: "foldl form_step (Inr (t1, n1))
      (map (\<lambda>r. Some (epsilon_variant r)) (filter epsilon_candidate (List.map_filter t1 (scan t1)))) = Inr (t2, n2)"
    "table_wf t2" "t1 \<subseteq>\<^sub>m t2"
    using form_step_fold [OF 1(2)] by blast
  show ?thesis using 1 2 map_le_trans by (fastforce simp: add_nu_script_def)
qed

theorem nu_script_safe_witness:
  "\<exists>t' n. add_nu_script (\<lambda>t. [(gk ''loge'', gk ''logos'')]) noun_table = Inr (t', n) \<and> table_wf t' \<and>
     noun_table \<subseteq>\<^sub>m t'"
  by (rule nu_script_safe) (rule noun_table_ok)

text \<open>C10: on a well-formed table whose rows store their form as
  their normalised form, \<open>add_adverb_mappings.py\<close> never raises, and afterwards every pair
  of its tables (common forms and Roman names) is mapped.\<close>

theorem adverb_mappings_complete:
  assumes "table_wf t" "norm_consistent id t"
  shows "\<exists>t' n. add_morphological_mappings t = Inr (t', n) \<and> table_wf t' \<and> norm_consistent id t' \<and>
           (\<forall>(w, l, m) \<in> set (all_mappings @ roman_names). exists_row (\<lambda>x. word_normalized x = w \<and> lemma_col x = l) t')"
proof -
  have n1: "\<forall>r. Some r \<in> set (map (manual_row ''manual_common_forms'' 1) all_mappings) \<longrightarrow> row_norm id r"
    using manual_row_norm by auto
  obtain t1 n where i1: "insert_rows (map (manual_row ''manual_common_forms'' 1) all_mappings) t = Inr (t1, n)"
    and r1: "rows_result id (map (manual_row ''manual_common_forms'' 1) all_mappings) t t1"
    using insert_step_fold [OF assms n1, of 0] by (auto simp: insert_rows_def)
  have w1: "table_wf t1" "norm_consistent id t1" using r1 by (simp_all add: rows_result_def)
  have n2: "\<forall>r. Some r \<in> set (map (manual_row ''proper_nouns'' 0.9) roman_names) \<longrightarrow> row_norm id r"
    using manual_row_norm by auto
  obtain t2 m where i2: "foldl insert_step (Inr (t1, n)) (map (manual_row ''proper_nouns'' 0.9) roman_names) = Inr (t2, m)"
    and r2: "rows_result id (map (manual_row ''proper_nouns'' 0.9) roman_names) t1 t2"
    using insert_step_fold [OF w1 n2, of n] by auto
  have "exists_row (\<lambda>x. word_normalized x = w \<and> lemma_col x = l) t2" if "(w, l, m') \<in> set (all_mappings @ roman_names)" for w l m'
  proof (cases "(w, l, m') \<in> set all_mappings")
    case True
    then have "exists_row (\<lambda>x. word_normalized x = w \<and> lemma_col x = l) t1" using r1 by (rule manual_row_mapped)
    then show ?thesis using r2 by (auto simp: rows_result_def exists_row_def ran_def map_le_def dom_def) metis
  next
    case False
    then show ?thesis using that r2 manual_row_mapped by auto
  qed
  then show ?thesis using i1 i2 r2 by (auto simp: add_morphological_mappings_def rows_result_def)
qed

theorem adverb_mappings_complete_witness:
  "\<exists>t' n. add_morphological_mappings Map.empty = Inr (t', n) \<and> table_wf t' \<and> norm_consistent id t' \<and>
     exists_row (\<lambda>x. word_normalized x = gk ''kakws'' \<and> lemma_col x = gk ''kakos'') t'"
proof -
  have "\<exists>t' n. add_morphological_mappings Map.empty = Inr (t', n) \<and> table_wf t' \<and> norm_consistent id t' \<and>
     (\<forall>(w, l, m) \<in> set (all_mappings @ roman_names). exists_row (\<lambda>x. word_normalized x = w \<and> lemma_col x = l) t')"
    by (rule adverb_mappings_complete) (simp_all add: norm_consistent_def)
  moreover have "(gk ''kakws'', gk ''kakos'', ''adverb'') \<in> set (all_mappings @ roman_names)"
    by (simp add: all_mappings_def adverb_mappings_def)
  ultimately show ?thesis by fastforce
qed

end
