(* ===== verification/Batch_Insert.thy ===== *)
theory Batch_Insert
  imports Tei_Text "HOL-Library.List_Lexorder"
begin

text \<open>
  \<open>src/data-prep/process_perseus_author_optimized.py\<close>: \<open>process_text_with_batching\<close>
  inserts a book's lines into \<open>text_lines\<close> and its words, with their character
  offsets, into \<open>word_forms\<close>, collecting the rows in batches that are flushed with
  \<open>executemany\<close> when they reach 5000 lines or 10000 words, and once more at the end.
  \<open>word_forms\<close> is the table of the backup builds
  (\<open>backup/create_perseus_database_all_authors.py\<close>, lines 2544-2555), with primary key
  (\<open>book_id\<close>, \<open>line_number\<close>, \<open>word_position\<close>) and \<open>INSERT OR IGNORE\<close>; the current
  \<open>create_database\<close> no longer creates it.
\<close>

record wf_row =
  wf_word :: ustr
  wf_normalized :: ustr
  wf_book_id :: ustr
  wf_line_number :: int
  wf_position :: nat
  wf_char_start :: int
  wf_char_end :: int

type_synonym wf_key = "ustr \<times> int \<times> nat"
type_synonym wf_table = "wf_key \<rightharpoonup> wf_row"

definition wf_key_of :: "wf_row \<Rightarrow> wf_key" where
  "wf_key_of r = (wf_book_id r, wf_line_number r, wf_position r)"

text \<open>\<open>executemany("INSERT OR IGNORE INTO word_forms ...")\<close>: the rows in order, the first of a key kept.\<close>

definition batch_insert_word_forms :: "wf_table \<Rightarrow> wf_row list \<Rightarrow> wf_table" where
  "batch_insert_word_forms t rs =
     foldl (\<lambda>t r. if wf_key_of r \<in> dom t then t else t(wf_key_of r \<mapsto> r)) t rs"

text \<open>\<open>executemany("INSERT INTO text_lines ...")\<close>: the table's key is its \<open>AUTOINCREMENT\<close> id, so every row is appended.\<close>

definition batch_insert_text_lines :: "line_row list \<Rightarrow> line_row list \<Rightarrow> line_row list" where
  "batch_insert_text_lines t ls = t @ ls"

text \<open>\<open>str.find(sub, start)\<close>: the first index at or after \<open>start\<close> where \<open>sub\<close> occurs, or -1.\<close>

definition py_find :: "ustr \<Rightarrow> ustr \<Rightarrow> nat \<Rightarrow> int" where
  "py_find s w k =
     (case List.find (\<lambda>i. take (length w) (drop i s) = w) [k..<Suc (length s)] of
        Some i \<Rightarrow> int i | None \<Rightarrow> -1)"

text \<open>The inner loop over \<open>re.findall(r'\S+', text)\<close> (\<open>\S\<close> is the complement of \<open>str.isspace\<close>,
  so the words are those of \<open>split_ws\<close>), with \<open>char_pos\<close> and \<open>word_pos\<close> from 0.\<close>

fun word_rows :: "ucd \<Rightarrow> language \<Rightarrow> ustr \<Rightarrow> int \<Rightarrow> ustr \<Rightarrow> int \<Rightarrow> nat \<Rightarrow> ustr list \<Rightarrow> wf_row list" where
  "word_rows u lang bid n txt cp pos [] = []"
| "word_rows u lang bid n txt cp pos (w # ws) =
     (let st = py_find txt w (nat cp); en = st + int (length w)
      in \<lparr>wf_word = w, wf_normalized = word_norm u lang w, wf_book_id = bid, wf_line_number = n,
          wf_position = pos, wf_char_start = st, wf_char_end = en\<rparr> #
         word_rows u lang bid n txt (en + 1) (Suc pos) ws)"

definition line_word_rows :: "ucd \<Rightarrow> language \<Rightarrow> ustr \<Rightarrow> tei_line \<Rightarrow> wf_row list" where
  "line_word_rows u lang bid l = word_rows u lang bid (tl_number l) (tl_text l) 0 0 (split_ws u (tl_text l))"

definition line_row_of :: "ustr \<Rightarrow> tei_line \<Rightarrow> line_row" where
  "line_row_of bid l =
     \<lparr>line_book_id = bid, line_number = tl_number l, line_text = tl_text l, line_xml = tl_xml l,
      line_speaker = tl_speaker l\<rparr>"

record batch_state =
  bs_text_lines :: "line_row list"
  bs_word_forms :: wf_table
  bs_lines_batch :: "line_row list"
  bs_words_batch :: "wf_row list"

text \<open>One iteration of the loop over the lines (lines 40-82).\<close>

definition batch_step :: "ucd \<Rightarrow> language \<Rightarrow> ustr \<Rightarrow> batch_state \<Rightarrow> tei_line \<Rightarrow> batch_state" where
  "batch_step u lang bid s l =
     (let lb = bs_lines_batch s @ [line_row_of bid l];
          wb = bs_words_batch s @ line_word_rows u lang bid l;
          s1 = (if 5000 \<le> length lb
                then s\<lparr>bs_text_lines := batch_insert_text_lines (bs_text_lines s) lb, bs_lines_batch := []\<rparr>
                else s\<lparr>bs_lines_batch := lb\<rparr>)
      in if 10000 \<le> length wb
         then s1\<lparr>bs_word_forms := batch_insert_word_forms (bs_word_forms s1) wb, bs_words_batch := []\<rparr>
         else s1\<lparr>bs_words_batch := wb\<rparr>)"

definition process_text_with_batching ::
  "ucd \<Rightarrow> tei_line list \<Rightarrow> ustr \<Rightarrow> language \<Rightarrow> line_row list \<times> wf_table \<Rightarrow> line_row list \<times> wf_table" where
  "process_text_with_batching u lines bid lang db =
     (let s = foldl (batch_step u lang bid)
                \<lparr>bs_text_lines = fst db, bs_word_forms = snd db, bs_lines_batch = [], bs_words_batch = []\<rparr> lines
      in (batch_insert_text_lines (bs_text_lines s) (bs_lines_batch s),
          batch_insert_word_forms (bs_word_forms s) (bs_words_batch s)))"

text \<open>
  \<open>generate_lemmatization_in_chunks\<close> (lines 104-142): pages of \<open>chunk_size\<close> distinct
  normalised words (\<open>ORDER BY word_normalized LIMIT ? OFFSET ?\<close>: SQLite compares UTF-8
  bytes, which orders code points as \<open>List_Lexorder\<close> does; the sorted distinct list
  \<open>ws\<close>) until the offset reaches the count or a page is empty; it returns the number of
  words it went through (the lemmatisation itself is a placeholder in the source).
  \<open>chunk_size\<close> is a Python int: SQLite reads a negative LIMIT as no limit and a negative
  OFFSET as 0 (\<open>sql_page\<close>). With a negative size the offset only decreases, so the loop
  may not end: it is modelled with fuel, one unit per page, and running out is \<open>None\<close>.
\<close>

definition sql_page :: "int \<Rightarrow> int \<Rightarrow> 'a list \<Rightarrow> 'a list" where
  "sql_page limit ofs xs = (let ys = drop (nat ofs) xs in if limit < 0 then ys else take (nat limit) ys)"

fun chunk_loop :: "nat \<Rightarrow> int \<Rightarrow> ustr list \<Rightarrow> int \<Rightarrow> nat \<Rightarrow> nat option" where
  "chunk_loop 0 cs ws off processed = None"
| "chunk_loop (Suc fuel) cs ws off processed =
     (if off < int (length ws) then
        (let ch = sql_page cs off ws
         in if ch = [] then Some processed
            else chunk_loop fuel cs ws (off + cs) (processed + length ch))
      else Some processed)"

definition generate_lemmatization_in_chunks :: "nat \<Rightarrow> int \<Rightarrow> ustr list \<Rightarrow> nat option" where
  "generate_lemmatization_in_chunks fuel cs ws = chunk_loop fuel cs (sort (remdups ws)) 0 0"

text \<open>A line "a  b" (two spaces).\<close>

definition ex_tei_line :: tei_line where
  "ex_tei_line = \<lparr>tl_number = 1, tl_text = [0x61, 0x20, 0x20, 0x62], tl_xml = [], tl_speaker = None\<rparr>"

section \<open>Specification\<close>

text \<open>The same inserts one statement at a time, with no batches.\<close>

definition process_text_unbatched ::
  "ucd \<Rightarrow> tei_line list \<Rightarrow> ustr \<Rightarrow> language \<Rightarrow> line_row list \<times> wf_table \<Rightarrow> line_row list \<times> wf_table" where
  "process_text_unbatched u lines bid lang db =
     (fst db @ map (line_row_of bid) lines,
      batch_insert_word_forms (snd db) (concat (map (line_word_rows u lang bid) lines)))"

text \<open>What a state stands for: the rows inserted so far followed by the rows still in the batches.\<close>

definition batch_view :: "batch_state \<Rightarrow> line_row list \<times> wf_table" where
  "batch_view s = (bs_text_lines s @ bs_lines_batch s, batch_insert_word_forms (bs_word_forms s) (bs_words_batch s))"

section \<open>Batching is transparent\<close>

lemma batch_insert_word_forms_append [simp]:
  "batch_insert_word_forms t (xs @ ys) = batch_insert_word_forms (batch_insert_word_forms t xs) ys"
  by (simp add: batch_insert_word_forms_def)

lemma batch_insert_word_forms_Nil [simp]: "batch_insert_word_forms t [] = t"
  by (simp add: batch_insert_word_forms_def)

lemma batch_view_step:
  "batch_view (batch_step u lang bid s l) =
     (fst (batch_view s) @ [line_row_of bid l], batch_insert_word_forms (snd (batch_view s)) (line_word_rows u lang bid l))"
  by (simp add: batch_step_def batch_view_def batch_insert_text_lines_def Let_def)

lemma batch_view_fold:
  "batch_view (foldl (batch_step u lang bid) s ls) =
     (fst (batch_view s) @ map (line_row_of bid) ls,
      batch_insert_word_forms (snd (batch_view s)) (concat (map (line_word_rows u lang bid) ls)))"
  by (induction ls arbitrary: s) (simp_all add: batch_view_step)

text \<open>C11: the batched inserts of \<open>process_text_with_batching\<close> leave
  \<open>text_lines\<close> and \<open>word_forms\<close> exactly as inserting every row on its own would, whatever
  the batch thresholds cut.\<close>

theorem batching_equivalent:
  "process_text_with_batching u lines bid lang db = process_text_unbatched u lines bid lang db"
  using batch_view_fold [of u lang bid
      "\<lparr>bs_text_lines = fst db, bs_word_forms = snd db, bs_lines_batch = [], bs_words_batch = []\<rparr>" lines]
  by (simp add: process_text_with_batching_def process_text_unbatched_def batch_view_def
      batch_insert_text_lines_def Let_def)

section \<open>Character offsets\<close>

lemma split_ws_acc_Cons:
  "split_ws_acc u cur s = w # ws \<Longrightarrow> \<forall>c \<in> set cur. \<not> isspace u c \<Longrightarrow>
   \<exists>a w' b. s = a @ w' @ b \<and> (\<forall>c \<in> set a. isspace u c) \<and> (cur \<noteq> [] \<longrightarrow> a = []) \<and> w = rev cur @ w' \<and>
     (\<forall>c \<in> set w. \<not> isspace u c) \<and> w \<noteq> [] \<and> (b = [] \<or> isspace u (hd b)) \<and> split_ws u (drop 1 b) = ws"
proof (induction u cur s arbitrary: w ws rule: split_ws_acc.induct)
  case (1 u cur)
  then show ?case by (auto simp: split_ws_def split: if_splits intro!: exI [of _ "[]"])
next
  case (2 u cur c s)
  show ?case
  proof (cases "isspace u c")
    case sp: True
    show ?thesis
    proof (cases "cur = []")
      case True
      with sp "2.prems" obtain a w' b where "s = a @ w' @ b" "\<forall>c \<in> set a. isspace u c" "w = w'"
        "\<forall>c \<in> set w. \<not> isspace u c" "w \<noteq> []" "b = [] \<or> isspace u (hd b)" "split_ws u (drop 1 b) = ws"
        using "2.IH"(1) [of w ws] by auto
      then show ?thesis using True sp by (intro exI [of _ "c # a"] exI [of _ w'] exI [of _ b]) auto
    next
      case False
      then have "w = rev cur" "ws = split_ws u s" using sp "2.prems"(1) by (simp_all add: split_ws_def)
      then show ?thesis using False sp "2.prems"(2)
        by (intro exI [of _ "[]"] exI [of _ "[]"] exI [of _ "c # s"]) auto
    qed
  next
    case ns: False
    have h: "split_ws_acc u (c # cur) s = w # ws" using "2.prems"(1) ns by simp
    have h2: "\<forall>x \<in> set (c # cur). \<not> isspace u x" using "2.prems"(2) ns by simp
    from "2.IH"(3) [OF ns h h2] obtain a w' b where
      r: "s = a @ w' @ b" "c # cur \<noteq> [] \<longrightarrow> a = []" "w = rev (c # cur) @ w'"
        "\<forall>c \<in> set w. \<not> isspace u c" "w \<noteq> []" "b = [] \<or> isspace u (hd b)" "split_ws u (drop 1 b) = ws"
      by blast
    then show ?thesis by (intro exI [of _ "[]"] exI [of _ "c # w'"] exI [of _ b]) auto
  qed
qed

lemma find_upt_first:
  assumes "k \<le> j" "j < m" "P j" "\<forall>i. k \<le> i \<and> i < j \<longrightarrow> \<not> P i"
  shows "List.find P [k..<m] = Some j"
proof -
  have "j - k < length [k..<m]" "[k..<m] ! (j - k) = j" using assms(1,2) by simp_all
  moreover have "\<forall>i < j - k. \<not> P ([k..<m] ! i)" using assms(1,2,4) by auto
  ultimately show ?thesis using assms(3) unfolding find_Some_iff by (metis)
qed

lemma py_find_after_spaces:
  assumes "w \<noteq> []" "\<forall>c \<in> set a. isspace u c" "\<not> isspace u (hd w)"
  shows "py_find (pre @ a @ w @ b) w (length pre) = int (length pre + length a)"
proof -
  have "\<not> take (length w) (drop i (pre @ a @ w @ b)) = w" if "length pre \<le> i" "i < length pre + length a" for i
  proof
    assume e: "take (length w) (drop i (pre @ a @ w @ b)) = w"
    define j where "j = i - length pre"
    have j: "j < length a" using that by (simp add: j_def)
    have "drop i (pre @ a @ w @ b) = drop j a @ w @ b" using that j by (simp add: j_def)
    also have "\<dots> = a ! j # (drop (Suc j) a @ w @ b)" using j by (simp add: Cons_nth_drop_Suc)
    finally have "hd w = a ! j" using e assms(1) by (cases w) auto
    then show False using assms(2,3) j nth_mem by metis
  qed
  moreover have "take (length w) (drop (length pre + length a) (pre @ a @ w @ b)) = w" by simp
  ultimately have "List.find (\<lambda>i. take (length w) (drop i (pre @ a @ w @ b)) = w) [length pre..<Suc (length (pre @ a @ w @ b))] =
      Some (length pre + length a)"
    by (intro find_upt_first) auto
  then show ?thesis by (simp add: py_find_def)
qed

definition offsets_ok :: "ustr \<Rightarrow> wf_row \<Rightarrow> bool" where
  "offsets_ok txt r \<longleftrightarrow> 0 \<le> wf_char_start r \<and> wf_char_end r = wf_char_start r + int (length (wf_word r)) \<and>
     take (length (wf_word r)) (drop (nat (wf_char_start r)) txt) = wf_word r"

lemma word_rows_offsets:
  "txt = pre @ rest \<Longrightarrow> cp = int (length pre) \<Longrightarrow> split_ws u rest = ws \<Longrightarrow>
   r \<in> set (word_rows u lang bid n txt cp pos ws) \<Longrightarrow> offsets_ok txt r"
proof (induction ws arbitrary: pre rest cp pos)
  case (Cons w ws)
  obtain a b where ab: "rest = a @ w @ b" "\<forall>c \<in> set a. isspace u c" "\<forall>c \<in> set w. \<not> isspace u c" "w \<noteq> []"
      "b = [] \<or> isspace u (hd b)" "split_ws u (drop 1 b) = ws"
    using split_ws_acc_Cons [of u "[]" rest w ws] Cons.prems(3) by (auto simp: split_ws_def)
  have f: "py_find txt w (nat cp) = int (length pre + length a)"
    using py_find_after_spaces [OF ab(4,2)] ab(3,4) Cons.prems(1,2) ab(1) by simp
  let ?en = "int (length pre + length a) + int (length w)"
  have hd: "offsets_ok txt \<lparr>wf_word = w, wf_normalized = word_norm u lang w, wf_book_id = bid, wf_line_number = n,
      wf_position = pos, wf_char_start = int (length pre + length a), wf_char_end = ?en\<rparr>"
    using Cons.prems(1) ab(1) by (simp add: offsets_ok_def)
  show ?case
  proof (cases b)
    case Nil
    then have "ws = []" using ab(6) by (simp add: split_ws_def)
    then show ?thesis using Cons.prems(4) f hd by (simp add: Let_def)
  next
    case (Cons c b')
    then have "offsets_ok txt r" if "r \<in> set (word_rows u lang bid n txt (?en + 1) (Suc pos) ws)"
      using Cons.IH [of "pre @ a @ w @ [c]" b' "?en + 1" "Suc pos"] that ab(1,6) \<open>txt = pre @ rest\<close>
      by simp
    then show ?thesis using \<open>r \<in> set (word_rows u lang bid n txt cp pos (w # ws))\<close> f hd by (auto simp: Let_def)
  qed
qed simp

text \<open>C12: every row \<open>process_text_with_batching\<close> stores for a line has a
  \<open>char_start\<close> that is not -1 and \<open>char_end - char_start\<close> equal to the word's length, and
  \<open>line_text[char_start:char_end]\<close> is the word: \<open>str.find\<close> from \<open>char_pos\<close> always finds
  the word where \<open>re.findall\<close> found it.\<close>

theorem word_offsets_exact:
  assumes "r \<in> set (line_word_rows u lang bid l)"
  shows "0 \<le> wf_char_start r \<and> wf_char_end r = wf_char_start r + int (length (wf_word r)) \<and>
         take (length (wf_word r)) (drop (nat (wf_char_start r)) (tl_text l)) = wf_word r"
  using word_rows_offsets [of "tl_text l" "[]" "tl_text l" 0 u "split_ws u (tl_text l)" r lang bid "tl_number l" 0] assms
  by (simp add: line_word_rows_def offsets_ok_def)

lemma ex_line_word_rows:
  "line_word_rows greek_ucd OtherLanguage (asc ''b1'') ex_tei_line =
     [\<lparr>wf_word = [0x61], wf_normalized = word_norm greek_ucd OtherLanguage [0x61], wf_book_id = asc ''b1'',
       wf_line_number = 1, wf_position = 0, wf_char_start = 0, wf_char_end = 1\<rparr>,
      \<lparr>wf_word = [0x62], wf_normalized = word_norm greek_ucd OtherLanguage [0x62], wf_book_id = asc ''b1'',
       wf_line_number = 1, wf_position = 1, wf_char_start = 3, wf_char_end = 4\<rparr>]"
  by (simp add: line_word_rows_def ex_tei_line_def split_ws_def greek_ucd_def greek_isspace_def
      py_find_def upt_rec)

theorem word_offsets_exact_witness:
  "0 \<le> (3::int) \<and> (4::int) = 3 + int (length [0x62::nat]) \<and>
   take (length [0x62::nat]) (drop (nat 3) (tl_text ex_tei_line)) = [0x62]"
  using word_offsets_exact [of "\<lparr>wf_word = [0x62], wf_normalized = word_norm greek_ucd OtherLanguage [0x62],
      wf_book_id = asc ''b1'', wf_line_number = 1, wf_position = 1, wf_char_start = 3, wf_char_end = 4\<rparr>"
      greek_ucd OtherLanguage "asc ''b1''" ex_tei_line]
  by (simp add: ex_line_word_rows)

lemma chunk_loop_count:
  "0 < cs \<Longrightarrow> 0 \<le> off \<Longrightarrow> off \<le> int (length ws) \<Longrightarrow> length ws - nat off < fuel \<Longrightarrow>
   chunk_loop fuel cs ws off p = Some (p + (length ws - nat off))"
proof (induction fuel arbitrary: off p)
  case 0
  then show ?case by simp
next
  case (Suc fuel)
  show ?case
  proof (cases "off < int (length ws)")
    case lt: True
    define ch where "ch = sql_page cs off ws"
    have ch: "ch = take (nat cs) (drop (nat off) ws)"
      using Suc.prems(1) by (simp add: ch_def sql_page_def)
    have "nat off < length ws" using Suc.prems(2) lt by linarith
    then have ne: "ch \<noteq> []" using Suc.prems(1) ch by simp
    have u: "chunk_loop (Suc fuel) cs ws off p = chunk_loop fuel cs ws (off + cs) (p + length ch)"
      using ne lt by (simp add: ch_def [symmetric])
    show ?thesis
    proof (cases "off + cs \<le> int (length ws)")
      case True
      then have "length ch = nat cs" using ch Suc.prems(1,2) by simp
      moreover have "chunk_loop fuel cs ws (off + cs) (p + length ch) =
          Some (p + length ch + (length ws - nat (off + cs)))"
        using Suc.IH [of "off + cs" "p + length ch"] Suc.prems True by simp
      ultimately show ?thesis using u Suc.prems(1,2) True by (simp add: nat_add_distrib)
    next
      case False
      then have l: "length ch = length ws - nat off" using ch Suc.prems(1,2) by simp
      have "nat off < length ws" using Suc.prems(2) lt by linarith
      then obtain f where f: "fuel = Suc f" using Suc.prems(4) by (cases fuel) auto
      have "chunk_loop fuel cs ws (off + cs) (p + length ch) = Some (p + length ch)"
        using False f by simp
      then show ?thesis using u l by simp
    qed
  next
    case False
    then show ?thesis using Suc.prems(3) by simp
  qed
qed

lemma chunk_loop_zero: "chunk_loop (Suc fuel) 0 ws 0 p = Some p"
  by (simp add: sql_page_def)

lemma chunk_loop_negative:
  "cs < 0 \<Longrightarrow> ws \<noteq> [] \<Longrightarrow> off \<le> 0 \<Longrightarrow> chunk_loop fuel cs ws off p = None"
proof (induction fuel arbitrary: off p)
  case 0
  then show ?case by simp
next
  case (Suc fuel)
  have "sql_page cs off ws = ws" using Suc.prems by (simp add: sql_page_def)
  moreover have "off < int (length ws)" using Suc.prems by (cases ws) auto
  ultimately show ?case using Suc.IH [of "off + cs"] Suc.prems by (simp add: Let_def)
qed

text \<open>C13: for a chunk size of at least 0 the paging loop of
  \<open>generate_lemmatization_in_chunks\<close> returns once it has fuel for one page per distinct
  word and one more: with a positive size it goes through every distinct word once, with
  size 0 the first page is empty and it stops at once.\<close>

theorem chunk_loop_terminates:
  "0 \<le> cs \<Longrightarrow> card (set ws) < fuel \<Longrightarrow>
   generate_lemmatization_in_chunks fuel cs ws = Some (if cs = 0 then 0 else card (set ws))"
proof (cases "cs = 0")
  case True
  moreover assume "card (set ws) < fuel"
  then obtain f where "fuel = Suc f" by (cases fuel) auto
  ultimately show ?thesis
    unfolding generate_lemmatization_in_chunks_def by (simp only: chunk_loop_zero) simp
next
  case False
  assume "0 \<le> cs" "card (set ws) < fuel"
  with False show ?thesis
    using chunk_loop_count [of cs 0 "sort (remdups ws)" fuel 0]
    by (simp add: generate_lemmatization_in_chunks_def length_remdups_card_conv)
qed

theorem chunk_loop_terminates_witness:
  "generate_lemmatization_in_chunks 3 2 [[0x61], [0x62], [0x61]] = Some 2"
  using chunk_loop_terminates [of 2 "[[0x61], [0x62], [0x61]]" 3] by (simp add: card_insert_if)

text \<open>C14: with a negative chunk size and at least one word, the paging loop of
  \<open>generate_lemmatization_in_chunks\<close> never ends: every page is the whole word list, the
  offset decreases and stays below the count, whatever the fuel.\<close>

theorem chunk_loop_negative_diverges:
  "cs < 0 \<Longrightarrow> ws \<noteq> [] \<Longrightarrow> generate_lemmatization_in_chunks fuel cs ws = None"
proof -
  assume "cs < 0" "ws \<noteq> []"
  moreover from \<open>ws \<noteq> []\<close> have "sort (remdups ws) \<noteq> []"
    by (metis length_0_conv length_sort remdups_eq_nil_iff)
  ultimately show ?thesis
    using chunk_loop_negative [of cs "sort (remdups ws)" 0 fuel 0]
    by (simp add: generate_lemmatization_in_chunks_def)
qed

theorem chunk_loop_negative_diverges_witness:
  "generate_lemmatization_in_chunks 100 (-1) [[0x61]] = None"
  using chunk_loop_negative_diverges [of "-1" "[[0x61]]" 100] by simp

end
