(* ===== verification/Aeschines_Fix.thy ===== *)
theory Aeschines_Fix
  imports Fix_Alignment Alignment Batch_Insert
begin

text \<open>
  The two targeted repairs of the Aeschines translations, whose segments were stored
  under section numbers instead of line numbers: \<open>fix_aeschines_simple.py\<close> (one book,
  sections spread proportionally over the lines when the book shows the known pattern
  196/866) and \<open>fix_aeschines_alignment.py\<close> (three books, each section located in the
  Greek text by its first words). Both rewrite \<open>start_line\<close>/\<open>end_line\<close> of
  \<open>translation_segments\<close> with \<open>apply_updates\<close> of \<open>Fix_Alignment\<close>; the backups and
  reports are I/O. The Greek TEI file of a book is given as \<open>xml option\<close> (\<open>None\<close>:
  the file does not exist).
\<close>

section \<open>fix_aeschines_simple.py\<close>

definition timarchus :: ustr where
  "timarchus = asc ''tlg0026.tlg001.001''"

text \<open>\<open>SELECT MAX(end_line) FROM translation_segments WHERE book_id = ?\<close> (\<open>None\<close> for no row).\<close>

definition book_max_end :: "catalogue_db \<Rightarrow> ustr \<Rightarrow> int option" where
  "book_max_end db b =
     (case map (\<lambda>(i, r). tr_end r) (book_rows db b) of [] \<Rightarrow> None | es \<Rightarrow> Some (Max (set es)))"

text \<open>The new range of a one-line segment (lines 81-88).\<close>

definition simple_range :: "int \<Rightarrow> pyfloat \<Rightarrow> int \<Rightarrow> int \<times> int" where
  "simple_range ml lps s =
     (let ns = ftrunc (fmul_int (s - 1) lps) + 1; ne = ftrunc (fmul_int s lps)
      in (ns, if ml < ne then ml else ne))"

definition simple_updates :: "catalogue_db \<Rightarrow> int \<Rightarrow> int \<Rightarrow> (int \<times> int \<times> nat) list" where
  "simple_updates db ml mt =
     (let lps = fdiv_int ml mt
      in map (\<lambda>(i, r). (fst (simple_range ml lps (tr_start r)), snd (simple_range ml lps (tr_start r)), i))
           (filter (\<lambda>(i, r). tr_start r = tr_end r) (sort_key (\<lambda>(i, r). tr_start r) (book_rows db timarchus))))"

definition fix_aeschines_simple :: "catalogue_db \<Rightarrow> bool \<Rightarrow> trans_row list" where
  "fix_aeschines_simple db apply_fix =
     (if book_max_end db timarchus = Some 196 \<and> book_max_line (corpus db) timarchus = Some 866 then
        (if apply_fix then apply_updates (simple_updates db 866 196) (trans_segments db) else trans_segments db)
      else trans_segments db)"

text \<open>\<open>__main__\<close> (lines 148-158) runs the dry run only; no argument is read.\<close>

definition aeschines_simple_main :: "catalogue_db \<Rightarrow> trans_row list" where
  "aeschines_simple_main db = fix_aeschines_simple db False"

section \<open>fix_aeschines_alignment.py\<close>

definition aeschines_books :: "ustr list" where
  "aeschines_books = [asc ''tlg0026.tlg001.001'', asc ''tlg0026.tlg002.001'', asc ''tlg0026.tlg003.001'']"

text \<open>\<open>int(s)\<close> on an attribute: surrounding whitespace, an optional sign, ASCII digits.
  (Python also takes other Unicode decimal digits and underscores between digits.)\<close>

definition py_int :: "ucd \<Rightarrow> ustr \<Rightarrow> int option" where
  "py_int u s =
     (let t = py_strip u s
      in case t of
           [] \<Rightarrow> None
         | c # d \<Rightarrow> if c = 0x2D \<and> py_isdigit d then Some (- digits_val d)
                   else if c = 0x2B \<and> py_isdigit d then Some (digits_val d)
                   else if py_isdigit t then Some (digits_val t) else None)"

text \<open>The lines of a book, \<open>ORDER BY CAST(line_number AS INTEGER)\<close>.\<close>

definition book_lines :: "corpus_db \<Rightarrow> ustr \<Rightarrow> (int \<times> ustr) list" where
  "book_lines c b =
     sort_key fst (map (\<lambda>l. (line_number l, line_text l)) (filter (\<lambda>l. line_book_id l = b) (text_lines c)))"

text \<open>\<open>full_text\<close> and \<open>line_positions\<close> (lines 57-61); the positions grow strictly, so the
  dictionary is this list, in the order \<open>sorted(line_positions.items())\<close> reads it.\<close>

definition full_text :: "(int \<times> ustr) list \<Rightarrow> ustr" where
  "full_text ls = concat (map (\<lambda>(n, t). t @ [0x20]) ls)"

fun line_positions :: "nat \<Rightarrow> (int \<times> ustr) list \<Rightarrow> (nat \<times> int) list" where
  "line_positions p [] = []"
| "line_positions p ((n, t) # ls) = (p, n) # line_positions (p + length t + 1) ls"

text \<open>The loop of lines 97-101: the last line starting at or before \<open>start_pos\<close>.\<close>

fun start_line_of :: "nat \<Rightarrow> int option \<Rightarrow> (nat \<times> int) list \<Rightarrow> int option" where
  "start_line_of sp cur [] = cur"
| "start_line_of sp cur ((p, n) # ps) = (if p \<le> sp then start_line_of sp (Some n) ps else cur)"

definition first_words :: "ucd \<Rightarrow> nat \<Rightarrow> ustr \<Rightarrow> ustr" where
  "first_words u k s = join_space (take k (split_ws u s))"

definition ns_div :: string where
  "ns_div = ''{http://www.tei-c.org/ns/1.0}div''"

definition find_sections :: "xml \<Rightarrow> xml list" where
  "find_sections tree =
     filter (\<lambda>e. attr_get e ''type'' = Some (asc ''textpart'') \<and> attr_get e ''subtype'' = Some (asc ''section''))
       (find_all_tag ns_div tree)"

text \<open>One iteration of the section loop (lines 69-127): the section number and its lines, or nothing.\<close>

definition section_entry ::
  "ucd \<Rightarrow> ustr \<Rightarrow> (nat \<times> int) list \<Rightarrow> xml list \<Rightarrow> nat \<Rightarrow> xml \<Rightarrow> (int \<times> int list) option" where
  "section_entry u full ps secs i sec =
     (case attr_get sec ''n'' of
        None \<Rightarrow> None
      | Some nstr \<Rightarrow>
          if nstr = [] then None
          else (case py_int u nstr of
                  None \<Rightarrow> None
                | Some num \<Rightarrow>
                    (let st = py_strip u (xml_itertext sec)
                     in if st = [] then None
                        else
                          (let sp0 = py_find full (first_words u 5 st) 0;
                               sp = (if sp0 = -1 then py_find full (first_words u 3 st) 0 else sp0)
                           in if 0 \<le> sp then
                                (let sl = start_line_of (nat sp) None ps;
                                     ep = (if i < length secs - 1 then
                                             (let nt = py_strip u (xml_itertext (secs ! (i + 1)))
                                              in if nt \<noteq> [] then
                                                   (let e = py_find full (first_words u 5 nt) (nat sp + 1)
                                                    in if e = -1 then int (length full) else e)
                                                 else int (length full))
                                           else int (length full));
                                     nums = map snd (filter (\<lambda>(p, n). sp \<le> int p \<and> int p < ep) ps)
                                 in if nums \<noteq> [] then Some (num, nums)
                                    else (case sl of Some l \<Rightarrow> if l \<noteq> 0 then Some (num, [l]) else None
                                                 | None \<Rightarrow> None))
                              else None))))"

definition section_lines :: "ucd \<Rightarrow> (int \<times> ustr) list \<Rightarrow> xml \<Rightarrow> (int \<times> int list) list" where
  "section_lines u ls tree =
     (let secs = find_sections tree; full = full_text ls; ps = line_positions 0 ls
      in foldl (\<lambda>d is. case section_entry u full ps secs (fst is) (snd is) of
                             Some (k, v) \<Rightarrow> dict_set k v d | None \<Rightarrow> d)
           [] (zip [0..<length secs] secs))"

text \<open>The fixes of one book (lines 130-155).\<close>

definition book_fixes :: "ucd \<Rightarrow> catalogue_db \<Rightarrow> (ustr \<Rightarrow> xml option) \<Rightarrow> ustr \<Rightarrow> (int \<times> int \<times> nat) list" where
  "book_fixes u db xmls b =
     (case xmls b of
        None \<Rightarrow> []
      | Some tree \<Rightarrow>
          (let sl = section_lines u (book_lines (corpus db) b) tree
           in concat (map (\<lambda>(i, r). if tr_start r = tr_end r then
                                      (case map_of sl (tr_start r) of
                                         Some al \<Rightarrow> if al \<noteq> [] then [(Min (set al), Max (set al), i)] else []
                                       | None \<Rightarrow> [])
                                    else [])
                 (sort_key (\<lambda>(i, r). tr_start r) (book_rows db b)))))"

definition fix_aeschines_alignment :: "ucd \<Rightarrow> (ustr \<Rightarrow> xml option) \<Rightarrow> catalogue_db \<Rightarrow> bool \<Rightarrow> trans_row list" where
  "fix_aeschines_alignment u xmls db dry_run =
     (let fixes = concat (map (book_fixes u db xmls) aeschines_books)
      in if \<not> dry_run \<and> fixes \<noteq> [] then apply_updates fixes (trans_segments db) else trans_segments db)"

definition aeschines_alignment_main :: "ucd \<Rightarrow> (ustr \<Rightarrow> xml option) \<Rightarrow> catalogue_db \<Rightarrow> trans_row list" where
  "aeschines_alignment_main u xmls db = fix_aeschines_alignment u xmls db True"

text \<open>A two-line book with one section of the Greek text and one translation segment numbered 1.\<close>

definition ex_section :: xml where
  "ex_section = Element ns_div [(''type'', asc ''textpart''), (''subtype'', asc ''section''), (''n'', asc ''1'')]
                  (asc ''a b c d'') [] []"

definition ex_tree :: xml where
  "ex_tree = Element ''TEI'' [] [] [ex_section] []"

definition ex_aeschines_db :: catalogue_db where
  "ex_aeschines_db =
     \<lparr>authors = Map.empty, works = Map.empty,
      corpus = \<lparr>books = Map.empty,
                text_lines = [\<lparr>line_book_id = timarchus, line_number = 1, line_text = asc ''a b'', line_xml = [], line_speaker = None\<rparr>,
                              \<lparr>line_book_id = timarchus, line_number = 2, line_text = asc ''c d'', line_xml = [], line_speaker = None\<rparr>],
                words = []\<rparr>,
      trans_segments = [\<lparr>tr_book_id = timarchus, tr_start = 1, tr_end = 1, tr_text = asc ''text'',
                          tr_translator = [], tr_speaker = None\<rparr>]\<rparr>"

section \<open>Lemmas\<close>

lemma snd_line_positions: "snd ` set (line_positions p ls) = fst ` set ls"
  by (induction p ls rule: line_positions.induct) auto

lemma start_line_of_mem: "start_line_of sp cur ps = Some l \<Longrightarrow> cur = Some l \<or> l \<in> snd ` set ps"
  by (induction sp cur ps rule: start_line_of.induct) (auto split: if_splits)

lemma section_entry_lines:
  "section_entry u full ps secs i sec = Some (k, v) \<Longrightarrow> v \<noteq> [] \<and> set v \<subseteq> snd ` set ps"
  unfolding section_entry_def Let_def
  by (auto split: option.splits if_splits dest: start_line_of_mem)

lemma dict_fold_values:
  "\<forall>(k, v) \<in> set d. P v \<Longrightarrow> (\<And>x k v. f x = Some (k, v) \<Longrightarrow> P v) \<Longrightarrow>
   \<forall>(k, v) \<in> set (foldl (\<lambda>d x. case f x of Some (k, v) \<Rightarrow> dict_set k v d | None \<Rightarrow> d) d xs). P v"
proof (induction xs arbitrary: d)
  case (Cons x xs)
  have "\<forall>(k, v) \<in> set (case f x of Some (k, v) \<Rightarrow> dict_set k v d | None \<Rightarrow> d). P v"
  proof (cases "f x")
    case (Some kv)
    then show ?thesis using Cons.prems set_dict_set [of "fst kv" "snd kv" d] by (cases kv) auto
  qed (simp add: Cons.prems(1))
  then show ?case using Cons.IH [OF _ Cons.prems(2)] by simp
qed simp

lemma section_lines_values:
  "map_of (section_lines u ls tree) k = Some v \<Longrightarrow> v \<noteq> [] \<and> set v \<subseteq> fst ` set ls"
proof -
  assume m: "map_of (section_lines u ls tree) k = Some v"
  have "\<forall>(k, v) \<in> set (section_lines u ls tree). v \<noteq> [] \<and> set v \<subseteq> snd ` set (line_positions 0 ls)"
    unfolding section_lines_def Let_def
    by (rule dict_fold_values [where P = "\<lambda>v. v \<noteq> [] \<and> set v \<subseteq> snd ` set (line_positions 0 ls)"])
      (auto dest: section_entry_lines)
  then show ?thesis using map_of_SomeD [OF m] snd_line_positions by fastforce
qed

lemma book_fixes_mem:
  assumes a: "(s, e, i) \<in> set (book_fixes u db xmls b)"
  shows "\<exists>r al. (i, r) \<in> set (book_rows db b) \<and> tr_start r = tr_end r \<and> al \<noteq> [] \<and> s = Min (set al) \<and>
           e = Max (set al) \<and> set al \<subseteq> fst ` set (book_lines (corpus db) b)"
proof (cases "xmls b")
  case None
  then show ?thesis using a by (simp add: book_fixes_def)
next
  case (Some tree)
  define sl where "sl = section_lines u (book_lines (corpus db) b) tree"
  have "(s, e, i) \<in> set (concat (map (\<lambda>(i, r). if tr_start r = tr_end r then
            (case map_of sl (tr_start r) of Some al \<Rightarrow> if al \<noteq> [] then [(Min (set al), Max (set al), i)] else []
             | None \<Rightarrow> []) else [])
          (sort_key (\<lambda>(i, r). tr_start r) (book_rows db b))))"
    using a Some unfolding book_fixes_def Let_def sl_def by (simp only: option.case)
  then obtain y where y: "y \<in> set (sort_key (\<lambda>(i, r). tr_start r) (book_rows db b))"
    and my: "(s, e, i) \<in> set ((\<lambda>(i, r). if tr_start r = tr_end r then
            (case map_of sl (tr_start r) of Some al \<Rightarrow> if al \<noteq> [] then [(Min (set al), Max (set al), i)] else []
             | None \<Rightarrow> []) else []) y)"
    unfolding set_concat set_map by blast
  obtain i' r where yr: "y = (i', r)" by (cases y)
  have ir: "(i', r) \<in> set (book_rows db b)" using y yr by simp
  have m: "(s, e, i) \<in> set (if tr_start r = tr_end r then
               (case map_of sl (tr_start r) of Some al \<Rightarrow> if al \<noteq> [] then [(Min (set al), Max (set al), i')] else []
                | None \<Rightarrow> []) else [])"
    using my unfolding yr split_conv .
  have st: "tr_start r = tr_end r" using m by (cases "tr_start r = tr_end r") simp_all
  obtain al where al: "map_of sl (tr_start r) = Some al"
    using m st by (cases "map_of sl (tr_start r)") simp_all
  have ne: "al \<noteq> []" using m st al by (cases "al = []") simp_all
  have sei: "s = Min (set al) \<and> e = Max (set al) \<and> i = i'" using m st al ne by simp
  have "al \<noteq> [] \<and> set al \<subseteq> fst ` set (book_lines (corpus db) b)"
    using section_lines_values [of u "book_lines (corpus db) b" tree "tr_start r" al] al by (simp add: sl_def)
  then show ?thesis using sei ir st by blast
qed

lemma set_book_lines: "fst ` set (book_lines c b) = set (map line_number (filter (\<lambda>l. line_book_id l = b) (text_lines c)))"
  by (simp add: book_lines_def image_image comp_def)

lemma ex_book_lines: "book_lines (corpus ex_aeschines_db) timarchus = [(1, asc ''a b''), (2, asc ''c d'')]"
  by (simp add: book_lines_def ex_aeschines_db_def)

lemma ex_section_lines:
  "section_lines greek_ucd [(1, asc ''a b''), (2, asc ''c d'')] ex_tree = [(1, [1, 2])]"
proof -
  have secs: "find_sections ex_tree = [ex_section]"
    by (simp add: find_sections_def ex_tree_def ex_section_def find_all_tag_def descendants_def attr_get_def asc_def ns_div_def)
  have st: "py_strip greek_ucd (xml_itertext ex_section) = asc ''a b c d''"
    by (simp add: ex_section_def py_strip_def greek_ucd_def greek_isspace_def asc_def)
  have n: "py_int greek_ucd (asc ''1'') = Some 1"
    by (simp add: py_int_def py_strip_def greek_ucd_def greek_isspace_def asc_def py_isdigit_def is_ascii_digit_def digits_val_def)
  have fw: "first_words greek_ucd 5 (asc ''a b c d'') = asc ''a b c d''"
    by (simp add: first_words_def split_ws_def greek_ucd_def greek_isspace_def asc_def join_space_def)
  have fd: "py_find (full_text [(1, asc ''a b''), (2, asc ''c d'')]) (asc ''a b c d'') 0 = 0"
    by (simp add: py_find_def full_text_def asc_def upt_rec)
  have "section_entry greek_ucd (full_text [(1, asc ''a b''), (2, asc ''c d'')])
          (line_positions 0 [(1, asc ''a b''), (2, asc ''c d'')]) [ex_section] 0 ex_section = Some (1, [1, 2])"
    using st n fw fd
    by (simp add: section_entry_def Let_def full_text_def asc_def)
      (simp add: ex_section_def attr_get_def asc_def)
  then show ?thesis using secs by (simp add: section_lines_def Let_def)
qed

lemma ex_book_fixes: "book_fixes greek_ucd ex_aeschines_db (\<lambda>b. Some ex_tree) timarchus = [(1, 2, 1)]"
  using ex_book_lines ex_section_lines
  by (simp add: book_fixes_def Let_def) (simp add: book_rows_def rows_of_def ex_aeschines_db_def)

lemma aeschines_mains_dry_run:
  "aeschines_simple_main db = trans_segments db" "aeschines_alignment_main u xmls db = trans_segments db"
  by (simp_all add: aeschines_simple_main_def fix_aeschines_simple_def aeschines_alignment_main_def
      fix_aeschines_alignment_def)

lemma changed_books_same [simp]: "changed_books ts ts = []"
  by (simp add: changed_books_def zip_same_conv_map)

text \<open>C15: \<open>fix_aeschines_alignment\<close> is as targeted as its docstring
  says: whether it applies its fixes or not, every segment it changes belongs to one of
  the three Aeschines books.\<close>

theorem aeschines_fix_targeted:
  "set (changed_books (trans_segments db) (fix_aeschines_alignment u xmls db dry_run)) \<subseteq> set aeschines_books"
proof -
  let ?fx = "concat (map (book_fixes u db xmls) aeschines_books)"
  have "tr_book_id r \<in> set aeschines_books"
    if p1: "(i, r) \<in> set (rows_of (trans_segments db))" and p2: "(s, e, i) \<in> set ?fx" for i r s e
  proof -
    obtain b where b: "b \<in> set aeschines_books" "(s, e, i) \<in> set (book_fixes u db xmls b)" using p2 by auto
    then obtain r' where "(i, r') \<in> set (book_rows db b)" using book_fixes_mem by blast
    then have "(i, r') \<in> set (rows_of (trans_segments db))" "tr_book_id r' = b" using book_rows_book by blast+
    then show ?thesis using rows_of_unique [OF p1] b(1) by blast
  qed
  then have "set (changed_books (trans_segments db) (apply_updates ?fx (trans_segments db))) \<subseteq> set aeschines_books"
    using changed_books_updates by blast
  then show ?thesis by (simp add: fix_aeschines_alignment_def Let_def)
qed

text \<open>C16: every fix \<open>fix_aeschines_alignment\<close> proposes for a book
  targets a one-line segment of that book and gives it a range \<open>start <= end\<close> whose
  ends are line numbers of the book's Greek text.\<close>

theorem aeschines_fix_ranges:
  assumes "(s, e, i) \<in> set (book_fixes u db xmls b)"
  shows "s \<le> e \<and> s \<in> set (map line_number (filter (\<lambda>l. line_book_id l = b) (text_lines (corpus db)))) \<and>
         e \<in> set (map line_number (filter (\<lambda>l. line_book_id l = b) (text_lines (corpus db)))) \<and>
         (\<exists>r. (i, r) \<in> set (book_rows db b) \<and> tr_start r = tr_end r)"
proof -
  obtain r al where r: "(i, r) \<in> set (book_rows db b)" "tr_start r = tr_end r" "al \<noteq> []"
    "s = Min (set al)" "e = Max (set al)" "set al \<subseteq> fst ` set (book_lines (corpus db) b)"
    using book_fixes_mem [OF assms] by blast
  have "s \<in> set al" "e \<in> set al" "s \<le> e" using r(3-5) by simp_all
  then show ?thesis using r(1,2,6) set_book_lines by blast
qed

theorem aeschines_fix_ranges_witness:
  "(1::int) \<le> 2 \<and> (1::int) \<in> set (map line_number (filter (\<lambda>l. line_book_id l = timarchus) (text_lines (corpus ex_aeschines_db)))) \<and>
   (2::int) \<in> set (map line_number (filter (\<lambda>l. line_book_id l = timarchus) (text_lines (corpus ex_aeschines_db)))) \<and>
   (\<exists>r. (1, r) \<in> set (book_rows ex_aeschines_db timarchus) \<and> tr_start r = tr_end r)"
  by (rule aeschines_fix_ranges [where u = greek_ucd and xmls = "\<lambda>b. Some ex_tree"]) (simp add: ex_book_fixes)

end
