(* ===== verification/Fixed_Build.thy ===== *)
theory Fixed_Build
  imports Aeschines_Fix
begin

text \<open>
  \<open>src/data-prep/create_perseus_database_fixed.py\<close>: the build with a repair pass that
  runs after \<open>process_translations\<close> (its \<open>main\<close> monkey-patches the original module):
  every book whose translation is numbered by sections gets its one-line segments
  spread over its lines by \<open>create_section_to_line_mapping\<close> (\<open>Section_Mapping\<close>).
  The lemmas show that one book's repair changes only that book's one-line segments, and
  that the whole pass keeps the number of segments and never moves a ranged segment.
\<close>

text \<open>\<open>SELECT MAX(start_line) ... WHERE book_id = ? AND start_line = end_line\<close>\<close>

definition max_single_start :: "catalogue_db \<Rightarrow> ustr \<Rightarrow> int option" where
  "max_single_start db b =
     (case map (\<lambda>(i, r). tr_start r) (filter (\<lambda>(i, r). tr_start r = tr_end r) (book_rows db b)) of
        [] \<Rightarrow> None | ss \<Rightarrow> Some (Max (set ss)))"

text \<open>\<open>fix_translation_alignment\<close> (lines 63-122): the new segment table and the number of
  segments updated. \<open>not x\<close> is true for \<open>None\<close> and for 0.\<close>

definition fix_translation_alignment :: "catalogue_db \<Rightarrow> ustr \<Rightarrow> trans_row list \<times> nat" where
  "fix_translation_alignment db b =
     (case (book_max_line (corpus db) b, book_max_end db b, length (book_rows db b)) of
        (Some ml, Some mt, tc) \<Rightarrow>
          if ml = 0 \<or> mt = 0 \<or> tc = 0 then (trans_segments db, 0)
          else
            (let cov = (if 0 < ml then fmul_int 100 (fdiv_int mt ml) else float_of_int 0)
             in if flt cov (float_of_int 50) \<and> mt = int tc \<and> mt * 2 < ml then
                  (let sm = create_section_to_line_mapping
                              (int (length (filter (\<lambda>l. line_book_id l = b) (text_lines (corpus db)))))
                              (max_single_start db b)
                   in if sm = [] then (trans_segments db, 0)
                      else
                        (let ups = concat (map (\<lambda>(i, r). case map_of sm (tr_start r) of
                                                          Some (s, e) \<Rightarrow> [(s, e, i)] | None \<Rightarrow> [])
                                     (sort_key (\<lambda>(i, r). tr_start r)
                                        (filter (\<lambda>(i, r). tr_start r = tr_end r) (book_rows db b))))
                         in (apply_updates ups (trans_segments db), length ups)))
                else (trans_segments db, 0))
      | _ \<Rightarrow> (trans_segments db, 0))"

text \<open>\<open>process_translations_with_fixes\<close> after the original import (lines 145-158): the
  books of \<open>SELECT DISTINCT book_id FROM translation_segments\<close>, each fixed on the table
  the previous ones left.\<close>

definition fix_all_alignments :: "catalogue_db \<Rightarrow> catalogue_db" where
  "fix_all_alignments db =
     foldl (\<lambda>d b. d\<lparr>trans_segments := fst (fix_translation_alignment d b)\<rparr>) db
       (remdups (map tr_book_id (trans_segments db)))"

lemma fix_translation_alignment_keys:
  "map row_key (fst (fix_translation_alignment db b)) = map row_key (trans_segments db)"
  by (simp add: fix_translation_alignment_def Let_def apply_updates_key split: option.splits prod.splits)

lemma apply_updates_nth_changed:
  "k < length ts \<Longrightarrow> apply_updates ups ts ! k \<noteq> ts ! k \<Longrightarrow> \<exists>s e. (s, e, Suc k) \<in> set ups"
proof -
  assume k: "k < length ts" and ch: "apply_updates ups ts ! k \<noteq> ts ! k"
  have "rows_of ts ! k = (Suc k, ts ! k)" using k by (simp add: rows_of_def)
  then have "apply_updates ups ts ! k =
      (case map_of (rev (map (\<lambda>(s, e, j). (j, (s, e))) ups)) (Suc k) of
         Some (s, e) \<Rightarrow> (ts ! k)\<lparr>tr_start := s, tr_end := e\<rparr> | None \<Rightarrow> ts ! k)"
    using k by (simp add: apply_updates_def rows_of_def)
  with ch obtain s e where "map_of (rev (map (\<lambda>(s, e, j). (j, (s, e))) ups)) (Suc k) = Some (s, e)"
    by (auto split: option.splits)
  then have "(Suc k, (s, e)) \<in> set (rev (map (\<lambda>(s, e, j). (j, (s, e))) ups))" by (rule map_of_SomeD)
  then show ?thesis by auto
qed

lemma fix_translation_alignment_cases:
  "fst (fix_translation_alignment db b) = trans_segments db \<or>
   (\<exists>ups. fst (fix_translation_alignment db b) = apply_updates ups (trans_segments db) \<and>
      (\<forall>(s, e, i) \<in> set ups. \<exists>r. (i, r) \<in> set (book_rows db b) \<and> tr_start r = tr_end r))"
proof -
  let ?U = "\<lambda>sm :: (int \<times> int \<times> int) list. concat (map (\<lambda>(i, r). case map_of sm (tr_start r) of
                Some (s, e) \<Rightarrow> [(s, e, i)] | None \<Rightarrow> [])
              (sort_key (\<lambda>(i, r). tr_start r) (filter (\<lambda>(i, r). tr_start r = tr_end r) (book_rows db b))))"
  have u: "\<forall>(s, e, i) \<in> set (?U sm). \<exists>r. (i, r) \<in> set (book_rows db b) \<and> tr_start r = tr_end r" for sm
    by (fastforce split: option.splits)
  have "fst (fix_translation_alignment db b) = trans_segments db \<or>
        (\<exists>sm. fst (fix_translation_alignment db b) = apply_updates (?U sm) (trans_segments db))"
    unfolding fix_translation_alignment_def Let_def by (auto split: option.split prod.split)
  then show ?thesis using u by blast
qed

lemma fix_step_changed:
  assumes "k < length (trans_segments db)" "fst (fix_translation_alignment db b) ! k \<noteq> trans_segments db ! k"
  shows "tr_book_id (trans_segments db ! k) = b \<and> tr_start (trans_segments db ! k) = tr_end (trans_segments db ! k)"
proof -
  from fix_translation_alignment_cases [of db b] assms(2) obtain ups
    where f: "fst (fix_translation_alignment db b) = apply_updates ups (trans_segments db)"
      and u: "\<forall>(s, e, i) \<in> set ups. \<exists>r. (i, r) \<in> set (book_rows db b) \<and> tr_start r = tr_end r"
    by auto
  have "apply_updates ups (trans_segments db) ! k \<noteq> trans_segments db ! k" using assms(2) f by simp
  then obtain s e where "(s, e, Suc k) \<in> set ups" using apply_updates_nth_changed [OF assms(1)] by blast
  with u obtain r where r: "(Suc k, r) \<in> set (book_rows db b)" "tr_start r = tr_end r" by blast
  then have "r = trans_segments db ! k" "tr_book_id r = b" using book_rows_book rows_of_nth by fastforce+
  with r(2) show ?thesis by simp
qed

definition fix_invariant :: "trans_row list \<Rightarrow> ustr set \<Rightarrow> trans_row list \<Rightarrow> bool" where
  "fix_invariant ts0 fixed ts =
     (length ts = length ts0 \<and>
      (\<forall>k < length ts0. tr_book_id (ts ! k) = tr_book_id (ts0 ! k) \<and>
         (ts ! k \<noteq> ts0 ! k \<longrightarrow> tr_book_id (ts0 ! k) \<in> fixed \<and> tr_start (ts0 ! k) = tr_end (ts0 ! k))))"

lemma fix_step_invariant:
  assumes inv: "fix_invariant ts0 fixed (trans_segments d)" and b: "b \<notin> fixed"
  shows "fix_invariant ts0 (insert b fixed) (fst (fix_translation_alignment d b))"
proof -
  let ?ts = "trans_segments d" and ?ts' = "fst (fix_translation_alignment d b)"
  have keys: "map row_key ?ts' = map row_key ?ts" by (rule fix_translation_alignment_keys)
  then have len: "length ?ts' = length ?ts" by (metis length_map)
  have bid: "tr_book_id (?ts' ! k) = tr_book_id (?ts ! k)" if "k < length ?ts" for k
    using arg_cong [OF keys, of "\<lambda>xs. xs ! k"] that len by (simp add: row_key_def)
  have A: "length ?ts' = length ts0" using inv len by (simp add: fix_invariant_def)
  have B: "\<forall>k < length ts0. tr_book_id (?ts' ! k) = tr_book_id (ts0 ! k)"
    using inv bid by (simp add: fix_invariant_def)
  have C: "\<forall>k < length ts0. ?ts' ! k \<noteq> ts0 ! k \<longrightarrow>
             tr_book_id (ts0 ! k) \<in> insert b fixed \<and> tr_start (ts0 ! k) = tr_end (ts0 ! k)"
  proof (intro allI impI)
    fix k assume k: "k < length ts0" and ch: "?ts' ! k \<noteq> ts0 ! k"
    then have k': "k < length ?ts" using inv by (simp add: fix_invariant_def)
    show "tr_book_id (ts0 ! k) \<in> insert b fixed \<and> tr_start (ts0 ! k) = tr_end (ts0 ! k)"
    proof (cases "?ts ! k = ts0 ! k")
      case True
      then have "?ts' ! k \<noteq> ?ts ! k" using ch by simp
      from fix_step_changed [OF k' this] True show ?thesis by simp
    next
      case False
      with inv k show ?thesis by (simp add: fix_invariant_def)
    qed
  qed
  from A B C show ?thesis by (simp add: fix_invariant_def)
qed

lemma fix_fold_invariant:
  "fix_invariant ts0 fixed (trans_segments d) \<Longrightarrow> distinct bs \<Longrightarrow> set bs \<inter> fixed = {} \<Longrightarrow>
   fix_invariant ts0 (fixed \<union> set bs)
     (trans_segments (foldl (\<lambda>d b. d\<lparr>trans_segments := fst (fix_translation_alignment d b)\<rparr>) d bs))"
proof (induction bs arbitrary: d fixed)
  case (Cons b bs)
  have "fix_invariant ts0 (insert b fixed) (fst (fix_translation_alignment d b))"
    using Cons.prems by (intro fix_step_invariant) auto
  then show ?case using Cons.IH [of "insert b fixed"] Cons.prems by simp
qed simp

text \<open>C17: the repair pass of the fixed build keeps the number
  of segments, and every segment it changes was a one-line segment (\<open>start_line = end_line\<close>):
  a segment that already spans a range of lines is never moved.\<close>

theorem fix_all_alignments_one_line_only:
  "length (trans_segments (fix_all_alignments db)) = length (trans_segments db) \<and>
   set (filter (\<lambda>(r, r'). r \<noteq> r') (zip (trans_segments db) (trans_segments (fix_all_alignments db))))
     \<subseteq> {(r, r'). tr_start r = tr_end r}"
proof -
  let ?ts0 = "trans_segments db"
  from fix_fold_invariant [of "trans_segments db" "{}" db "remdups (map tr_book_id ?ts0)"]
  have "fix_invariant ?ts0 (set (map tr_book_id ?ts0)) (trans_segments (fix_all_alignments db))"
    by (simp add: fix_invariant_def fix_all_alignments_def)
  then show ?thesis
    by (auto simp: fix_invariant_def set_zip)
qed

end
