(* ===== verification/Spec2Isabelle.thy ===== *)
theory Spec2Isabelle
  imports Index_Builder Lsj_Parser Section_Mapping Tei_Text Asset_Split Translations Catalogue Alignment Fix_Alignment Build_Script Translation_Lookup Mapping_Scripts Batch_Insert Aeschines_Fix Fixed_Build
begin

text \<open>
  A verification development for the data preparation of the classics viewer
  (\<open>src/data-prep\<close>): the Python scripts that read the Perseus TEI texts, the LSJ
  dictionary and the Wiktionary mapping files into an SQLite database, build the
  morphological index \<open>lemma_map\<close> (word form to lemma), align translations with the
  Greek lines, and cut the finished database into assets. Each script is a shallow
  embedding: its tables are records or maps, each function a HOL definition of the same
  name, each loop a fold or a recursion, each raise an \<open>Inl\<close> of an error datatype.

  \<^bold>\<open>How the parts fit.\<close> \<open>create_perseus_database.py\<close> is the main build; its
  \<open>create_database\<close> runs a text phase (catalogue, TEI texts, translations, lookup table)
  and a lemma phase (generated paradigms, Wiktionary mappings, resolver pass, pruning).
  \<open>build_database.py\<close> runs it and then adds three more passes over \<open>lemma_map\<close>; the
  stand-alone scripts \<open>add_*_mappings.py\<close> do the same by hand. The alignment scripts
  repair \<open>translation_segments\<close> afterwards. Every pass that writes \<open>lemma_map\<close> goes
  through the one table model of \<open>Lemma_Table\<close>, and every pass over translations
  through the catalogue record of \<open>Translations\<close>/\<open>Catalogue\<close>; that shared state is
  how the theories compose.

  \<^bold>\<open>Theories, in import order.\<close>
  \<^item> \<open>Prelude\<close>: strings as code-point lists, Python's \<open>str\<close> methods
    (\<open>strip\<close>, \<open>split\<close>, \<open>join\<close>, \<open>startswith\<close>, \<open>isdigit\<close> on ASCII digits), the shared
    list and map lemmas.
  \<^item> \<open>Unicode\<close>: the character database \<open>ucd\<close> that \<open>unicodedata\<close> provides (a
    parameter with the stability property the normaliser needs, and a checked Greek
    fragment \<open>greek_ucd\<close> for concrete runs); \<open>Xml\<close>: ElementTree elements, \<open>iter\<close>,
    \<open>findall\<close>, \<open>itertext\<close> and \<open>get_text_content\<close>.
  \<^item> \<open>Normalizer\<close>: \<open>normalize_greek\<close> and \<open>normalize_line_for_search\<close>; its lemmas
    show idempotence and that the output keeps to lower-case unaccented letters.
  \<^item> \<open>Lemma_Table\<close>: \<open>lemma_map\<close> as a map from the primary key (word_form, lemma) to
    the row; \<open>INSERT\<close> returns \<open>IntegrityError\<close> on a taken key, \<open>INSERT OR IGNORE\<close>
    its rowcount.
  \<^item> \<open>Py_Float\<close>: IEEE binary64 as a mantissa and exponent, with exact
    round-to-nearest-even division, multiplication, addition, comparison and \<open>int()\<close>;
    \<open>Section_Mapping\<close>: \<open>get_section_line_mapping\<close> and
    \<open>create_section_to_line_mapping\<close> in that arithmetic.
  \<^item> \<open>Synthesizer\<close>, \<open>Resolver\<close>, \<open>Lsj_Parser\<close>, \<open>Index_Builder\<close>: the paradigm
    generator of \<open>GreekLemmatizer\<close>, the per-word resolver of
    \<open>generate_comprehensive_lemmatization\<close>, the \<open>LSJParser\<close> class, and the lemma
    phase with \<open>load_wiktionary_mappings\<close> and \<open>optimize_lemma_map\<close>. The lemmas show
    that the index keeps the first writer of each key in phase order, that it is well
    formed after pruning, that every resolved lemma is a headword, the synthesis and
    resolution round trip, and the abort of a file at a mapping without a lemma.
  \<^item> \<open>Tei_Text\<close>, \<open>Translations\<close>, \<open>Catalogue\<close>: \<open>process_text_file\<close> with its drama,
    verse and prose readers, \<open>extract_translation_segments\<close> and
    \<open>process_translations\<close>, and the catalogue phase of \<open>create_database\<close>. Invariants
    by induction over the loops: every stored line and word names a stored book, every
    segment row is well formed, and only staff names become translators.
  \<^item> \<open>Alignment\<close>, \<open>Fix_Alignment\<close>, \<open>Aeschines_Fix\<close>, \<open>Fixed_Build\<close>:
    \<open>improved_translation_alignment.py\<close>, \<open>fix_translation_alignment_general.py\<close>,
    \<open>fix_aeschines_simple.py\<close> with \<open>fix_aeschines_alignment.py\<close>, and the repair
    pass of \<open>create_perseus_database_fixed.py\<close>. The lemmas show which books and
    segments each repair may change and the ranges it gives them.
  \<^item> \<open>Translation_Lookup\<close>: \<open>create_translation_lookup_table\<close>, with a
    characterisation of its rows (\<open>lookup_spec\<close>) from which the lemmas on valid lines,
    near lines and far-numbered translations follow.
  \<^item> \<open>Build_Script\<close>, \<open>Mapping_Scripts\<close>: \<open>build_database.py\<close> steps 2-4 and the four
    \<open>add_*_mappings.py\<close> scripts; the check-then-insert loop is a fold and the step
    relation \<open>ins_step\<close>, shown equal, and the lemmas show that the passes succeed and
    keep the table well formed, when a key clash aborts, and what each pass adds.
  \<^item> \<open>Batch_Insert\<close>: \<open>process_perseus_author_optimized.py\<close>; the batched inserts are
    shown equal to inserting row by row, the word offsets exact, and the paging loop of
    \<open>generate_lemmatization_in_chunks\<close> total for sizes of at least 0 and divergent for
    negative sizes.
  \<^item> \<open>Asset_Split\<close>: \<open>split_file\<close> and \<open>verify_split\<close> over a store of byte strings;
    the parts concatenate to the original, and the hashing loop ends.

  \<^bold>\<open>Fuel and bounds.\<close> The paging loop of \<open>generate_lemmatization_in_chunks\<close> takes
  fuel, one unit per page: for a chunk size of at least 0, one unit per distinct word and
  one more is enough, since every page but the last holds at least one word; for a
  negative size no fuel is enough, which is the loop's non-termination. The read loop of
  \<open>verify_split\<close> is a \<open>partial_function (option)\<close> whose result is proved to exist.
  Every other loop runs over a finite list and is a fold or a structural recursion.
  Integers are Python's unbounded \<open>int\<close>; floats are binary64 exactly, so a claim
  about a rounding is a claim about the program's arithmetic.

  \<^bold>\<open>Not modelled.\<close> \<open>add_wiktionary_definitions\<close> of \<open>build_database.py\<close> (it
  writes only the dictionary table), \<open>reverse_lemmatize\<close> (called by no stage), the
  Wiktionary extraction scripts (modelled only as the loader's input records), the ER
  diagram and analysis reports, backups, command-line mains and printing. The character
  database and the XML parser are library code, taken as parameters. The \<open>source\<close>
  column is never NULL in the model, and \<open>isdigit\<close> accepts ASCII digits only.
\<close>

end
